theory Spec2Isabelle
  imports Main
begin

section \<open>JavaScript values\<close>

text \<open>
  The services of DealFlow (\<^verbatim>\<open>src/services/history.ts\<close>, \<^verbatim>\<open>src/services/gemini.ts\<close>) pass
  plain JavaScript data around: records read from and written to \<^verbatim>\<open>localStorage\<close> as JSON,
  documents of the cloud store, and responses of the model API typed \<^verbatim>\<open>any\<close>. A value is
  modelled as a tree. \<^verbatim>\<open>JObj\<close> is a plain object, the list of its own properties in
  the order \<^verbatim>\<open>Object.entries\<close> gives them; a key named \<^verbatim>\<open>__proto__\<close> in that list is an own
  property of that name, as \<^verbatim>\<open>JSON.parse\<close> makes it. \<^verbatim>\<open>JProto p kvs\<close> is an object with the
  own properties \<^verbatim>\<open>kvs\<close> whose prototype is not \<^verbatim>\<open>Object.prototype\<close> but the value \<^verbatim>\<open>p\<close>
  (an object, or \<^verbatim>\<open>null\<close>): an assignment to \<^verbatim>\<open>__proto__\<close> makes such objects. Numbers are the
  integers (time stamps and scores), so \<^verbatim>\<open>NaN\<close> and the infinities are not values of the
  model.
\<close>

datatype jsval =
    JUndefined
  | JNull
  | JBool bool
  | JNum int
  | JStr string
  | JArr "jsval list"
  | JObj "(string \<times> jsval) list"
  | JProto jsval "(string \<times> jsval) list"

type_synonym obj = "(string \<times> jsval) list"

datatype js_error =
    TypeError string
  | Error string
  | SyntaxError
  | FirestoreError string

text \<open>Truthiness, as \<^verbatim>\<open>if (v)\<close>, \<^verbatim>\<open>!v\<close>, \<^verbatim>\<open>a || b\<close> and \<^verbatim>\<open>a && b\<close> test it.\<close>

fun truthy :: "jsval \<Rightarrow> bool" where
  "truthy JUndefined = False"
| "truthy JNull = False"
| "truthy (JBool b) = b"
| "truthy (JNum n) = (n \<noteq> 0)"
| "truthy (JStr s) = (s \<noteq> [])"
| "truthy (JArr xs) = True"
| "truthy (JObj kvs) = True"
| "truthy (JProto p kvs) = True"

text \<open>\<^verbatim>\<open>o.k\<close> on an object: the property's value, \<^verbatim>\<open>undefined\<close> when \<^verbatim>\<open>o\<close> has no such property.\<close>

definition field :: "('k \<times> jsval) list \<Rightarrow> 'k \<Rightarrow> jsval" where
  "field ob k = (case map_of ob k of None \<Rightarrow> JUndefined | Some v \<Rightarrow> v)"

text \<open>
  \<^verbatim>\<open>o[k] = v\<close>: an existing property keeps its place and takes the new value, a new one is
  added last.
\<close>

fun assign :: "('k \<times> 'v) list \<Rightarrow> 'k \<Rightarrow> 'v \<Rightarrow> ('k \<times> 'v) list" where
  "assign [] k v = [(k, v)]"
| "assign ((k', v') # r) k v =
     (if k' = k then (k, v) # r else (k', v') # assign r k v)"

text \<open>\<^verbatim>\<open>{ ...acc, ...src }\<close>: the properties of \<^verbatim>\<open>src\<close> assigned onto \<^verbatim>\<open>acc\<close> in order.\<close>

definition spread :: "obj \<Rightarrow> obj \<Rightarrow> obj" where
  "spread acc src = fold (\<lambda>(k, v) a. assign a k v) src acc"

text \<open>
  \<^verbatim>\<open>a === b\<close>. Primitives are compared by value; two objects or arrays are equal only when they
  are the same reference, which a value parsed from storage and an argument never are.
\<close>

fun strict_eq :: "jsval \<Rightarrow> jsval \<Rightarrow> bool" where
  "strict_eq JUndefined JUndefined = True"
| "strict_eq JNull JNull = True"
| "strict_eq (JBool a) (JBool b) = (a = b)"
| "strict_eq (JNum a) (JNum b) = (a = b)"
| "strict_eq (JStr a) (JStr b) = (a = b)"
| "strict_eq _ _ = False"

text \<open>
  \<^verbatim>\<open>v.k\<close> on a value typed \<^verbatim>\<open>any\<close>: reading a property of \<^verbatim>\<open>undefined\<close> or \<^verbatim>\<open>null\<close>
  throws a \<^verbatim>\<open>TypeError\<close>; a primitive or an array has none of the data properties read here
  (nor has \<^verbatim>\<open>Object.prototype\<close>); an object with a prototype of its own inherits the
  properties it does not have itself. \<^verbatim>\<open>v?.k\<close> yields \<^verbatim>\<open>undefined\<close> instead of throwing.
\<close>

fun opt_member :: "jsval \<Rightarrow> string \<Rightarrow> jsval" where
  "opt_member (JObj kvs) k = field kvs k"
| "opt_member (JProto p kvs) k =
     (case map_of kvs k of Some v \<Rightarrow> v | None \<Rightarrow> opt_member p k)"
| "opt_member v k = JUndefined"

fun get_member :: "jsval \<Rightarrow> string \<Rightarrow> js_error + jsval" where
  "get_member JUndefined k = Inl (TypeError (''Cannot read properties of undefined (reading '' @ k @ '')''))"
| "get_member JNull k = Inl (TypeError (''Cannot read properties of null (reading '' @ k @ '')''))"
| "get_member v k = Inr (opt_member v k)"

text \<open>\<^verbatim>\<open>v?.[0]\<close> and \<^verbatim>\<open>v[0]\<close> on a value that is an array when it is there at all.\<close>

fun opt_first :: "jsval \<Rightarrow> jsval" where
  "opt_first (JArr (x # xs)) = x"
| "opt_first v = JUndefined"

section \<open>Stripping \<^verbatim>\<open>undefined\<close>\<close>

text \<open>
  \<^verbatim>\<open>acc[key] = value\<close> on the object a \<^verbatim>\<open>reduce\<close> builds from \<^verbatim>\<open>{}\<close>. For every key but
  \<^verbatim>\<open>__proto__\<close> it makes or updates an own property. For \<^verbatim>\<open>__proto__\<close>, as long as the object
  has no own property of that name and its prototype chain ends in \<^verbatim>\<open>Object.prototype\<close>, the
  assignment goes to the setter inherited from there: no own property is made; an object or
  \<^verbatim>\<open>null\<close> becomes the prototype, any other value is dropped.
\<close>

fun is_object_or_null :: "jsval \<Rightarrow> bool" where
  "is_object_or_null JNull = True"
| "is_object_or_null (JArr xs) = True"
| "is_object_or_null (JObj kvs) = True"
| "is_object_or_null (JProto p kvs) = True"
| "is_object_or_null v = False"

fun inherits_Object_prototype :: "jsval \<Rightarrow> bool" where
  "inherits_Object_prototype (JProto p kvs) = inherits_Object_prototype p"
| "inherits_Object_prototype JNull = False"
| "inherits_Object_prototype v = True"

fun has_own_fields :: "jsval \<Rightarrow> bool" where
  "has_own_fields (JObj kvs) = True"
| "has_own_fields (JProto p kvs) = True"
| "has_own_fields v = False"

fun js_put :: "jsval \<Rightarrow> string \<Rightarrow> jsval \<Rightarrow> jsval" where
  "js_put (JObj kvs) key v =
     (if key = ''__proto__'' \<and> ''__proto__'' \<notin> fst ` set kvs
      then (if is_object_or_null v then JProto v kvs else JObj kvs)
      else JObj (assign kvs key v))"
| "js_put (JProto p kvs) key v =
     (if key = ''__proto__'' \<and> ''__proto__'' \<notin> fst ` set kvs \<and> inherits_Object_prototype p
      then (if is_object_or_null v then JProto v kvs else JProto p kvs)
      else JProto p (assign kvs key v))"
| "js_put acc key v = acc"

text \<open>
  \<^verbatim>\<open>sanitizeForFirestore\<close> (history.ts, lines 17 to 30). An array is mapped element by
  element; an object is rebuilt by a \<^verbatim>\<open>reduce\<close> over its own entries from the empty object,
  skipping every entry whose value is \<^verbatim>\<open>undefined\<close>; anything else is returned as it is.
\<close>

fun sanitizeForFirestore :: "jsval \<Rightarrow> jsval" where
  "sanitizeForFirestore (JArr xs) = JArr (map sanitizeForFirestore xs)"
| "sanitizeForFirestore (JObj kvs) =
     fold (\<lambda>(key, value) acc.
             if value = JUndefined then acc
             else js_put acc key (sanitizeForFirestore value)) kvs (JObj [])"
| "sanitizeForFirestore (JProto p kvs) =
     fold (\<lambda>(key, value) acc.
             if value = JUndefined then acc
             else js_put acc key (sanitizeForFirestore value)) kvs (JObj [])"
| "sanitizeForFirestore v = v"

text \<open>
  \<^verbatim>\<open>JSON.parse(JSON.stringify(v))\<close>, which is what a value goes through between
  \<^verbatim>\<open>localStorage.setItem(KEY, JSON.stringify(v))\<close> and the next
  \<^verbatim>\<open>JSON.parse(localStorage.getItem(KEY))\<close>: \<^verbatim>\<open>JSON.stringify\<close> leaves out a property whose
  value is \<^verbatim>\<open>undefined\<close> and writes \<^verbatim>\<open>null\<close> for an \<^verbatim>\<open>undefined\<close> array element. It
  writes the own properties of an object, whatever its prototype, and \<^verbatim>\<open>JSON.parse\<close> returns
  plain objects.
\<close>

fun json_clone :: "jsval \<Rightarrow> jsval" where
  "json_clone (JArr xs) =
     JArr (map (\<lambda>v. if v = JUndefined then JNull else json_clone v) xs)"
| "json_clone (JObj kvs) =
     JObj (map (\<lambda>(k, v). (k, json_clone v)) (filter (\<lambda>(k, v). v \<noteq> JUndefined) kvs))"
| "json_clone (JProto p kvs) =
     JObj (map (\<lambda>(k, v). (k, json_clone v)) (filter (\<lambda>(k, v). v \<noteq> JUndefined) kvs))"
| "json_clone v = v"

definition json_fields :: "obj \<Rightarrow> obj" where
  "json_fields kvs =
     map (\<lambda>(k, v). (k, json_clone v)) (filter (\<lambda>(k, v). v \<noteq> JUndefined) kvs)"

text \<open>
  The specification's words: a record "with every undefined-valued field recursively removed
  (through nested objects and sequences)", and a value in which no object has an
  undefined-valued field.
\<close>

fun strip_undefined :: "jsval \<Rightarrow> jsval" where
  "strip_undefined (JArr xs) = JArr (map strip_undefined xs)"
| "strip_undefined (JObj kvs) =
     JObj (map (\<lambda>(k, v). (k, strip_undefined v)) (filter (\<lambda>(k, v). v \<noteq> JUndefined) kvs))"
| "strip_undefined v = v"

definition strip_fields :: "obj \<Rightarrow> obj" where
  "strip_fields kvs =
     map (\<lambda>(k, v). (k, strip_undefined v)) (filter (\<lambda>(k, v). v \<noteq> JUndefined) kvs)"

fun has_undefined_field :: "jsval \<Rightarrow> bool" where
  "has_undefined_field (JArr xs) = (\<exists>x \<in> set xs. has_undefined_field x)"
| "has_undefined_field (JObj kvs) =
     (\<exists>(k, v) \<in> set kvs. v = JUndefined \<or> has_undefined_field v)"
| "has_undefined_field (JProto p kvs) =
     (has_undefined_field p \<or> (\<exists>(k, v) \<in> set kvs. v = JUndefined \<or> has_undefined_field v))"
| "has_undefined_field v = False"

text \<open>
  \<^verbatim>\<open>plain_data\<close> holds of the values built from primitives, arrays and plain objects: every
  object in them has \<^verbatim>\<open>Object.prototype\<close> as its prototype, and its keys are distinct (which
  the representation leaves open and JavaScript does not). \<^verbatim>\<open>no_proto_key\<close> holds when no
  object in the value has an own property named \<^verbatim>\<open>__proto__\<close>. \<^verbatim>\<open>no_undefined_element\<close> holds
  of a value none of whose arrays has an \<^verbatim>\<open>undefined\<close> element, as the arrays of the schema
  (strings, alternatives, messages, links) are.
\<close>

fun plain_data :: "jsval \<Rightarrow> bool" where
  "plain_data (JArr xs) = (\<forall>x \<in> set xs. plain_data x)"
| "plain_data (JObj kvs) =
     (distinct (map fst kvs) \<and> (\<forall>(k, v) \<in> set kvs. plain_data v))"
| "plain_data (JProto p kvs) = False"
| "plain_data v = True"

fun no_proto_key :: "jsval \<Rightarrow> bool" where
  "no_proto_key (JArr xs) = (\<forall>x \<in> set xs. no_proto_key x)"
| "no_proto_key (JObj kvs) =
     (''__proto__'' \<notin> fst ` set kvs \<and> (\<forall>(k, v) \<in> set kvs. no_proto_key v))"
| "no_proto_key (JProto p kvs) =
     (no_proto_key p \<and> ''__proto__'' \<notin> fst ` set kvs \<and> (\<forall>(k, v) \<in> set kvs. no_proto_key v))"
| "no_proto_key v = True"

fun no_undefined_element :: "jsval \<Rightarrow> bool" where
  "no_undefined_element (JArr xs) =
     (\<forall>x \<in> set xs. x \<noteq> JUndefined \<and> no_undefined_element x)"
| "no_undefined_element (JObj kvs) = (\<forall>(k, v) \<in> set kvs. no_undefined_element v)"
| "no_undefined_element v = True"

text \<open>
  The values \<^verbatim>\<open>JSON.parse\<close> returns: no \<^verbatim>\<open>undefined\<close> anywhere, and plain objects only.
  A slot of local storage holds nothing else.
\<close>

fun is_json :: "jsval \<Rightarrow> bool" where
  "is_json JUndefined = False"
| "is_json (JArr xs) = (\<forall>x \<in> set xs. is_json x)"
| "is_json (JObj kvs) = (\<forall>(k, v) \<in> set kvs. is_json v)"
| "is_json (JProto p kvs) = False"
| "is_json v = True"

section \<open>The persistence adapter (\<^verbatim>\<open>src/services/history.ts\<close>)\<close>

text \<open>
  The state the adapter reads and writes. \<^verbatim>\<open>db\<close> says whether the cloud store handle
  exists, \<^verbatim>\<open>currentUser\<close> is the uid of \<^verbatim>\<open>auth.currentUser\<close>, \<^verbatim>\<open>demo_auth_active\<close> is what
  \<^verbatim>\<open>localStorage.getItem('demo_auth_active')\<close> returns. \<^verbatim>\<open>firestore\<close> is the cloud store: it
  maps the path of a document to the data stored there. A slot of \<^verbatim>\<open>localStorage\<close>
  holds the JSON text of an array of records and is modelled by the array that text parses to
  (only this module writes the three slots, always an array); \<^verbatim>\<open>None\<close> is a missing slot.
  \<^verbatim>\<open>console\<close> collects the messages of \<^verbatim>\<open>console.error\<close>.
\<close>

record state =
  db :: bool
  currentUser :: "string option"
  demo_auth_active :: "string option"
  firestore :: "string list \<Rightarrow> jsval option"
  localStorage :: "string \<Rightarrow> obj list option"
  console :: "string list"

text \<open>
  What a call takes from outside the program: the value of \<^verbatim>\<open>crypto.randomUUID()\<close>, of
  \<^verbatim>\<open>Date.now()\<close>, the error the store rejects a write with (if it does), and the key the
  store gives a document added with \<^verbatim>\<open>addDoc\<close>. The store's SDK is not part of the
  repository; the last three fields are its answers: \<^verbatim>\<open>sdk_doc uid c id\<close> is the path of the
  document that \<^verbatim>\<open>doc(db, 'users', uid, c, id)\<close> refers to, or the error it throws;
  \<^verbatim>\<open>sdk_collection uid c\<close> is the same for \<^verbatim>\<open>collection(db, 'users', uid, c)\<close>; and
  \<^verbatim>\<open>sdk_check data\<close> is the error with which \<^verbatim>\<open>setDoc\<close> and \<^verbatim>\<open>addDoc\<close> refuse data they do
  not take (none when they take it).
\<close>

record env =
  randomUUID :: string
  now :: int
  write_fault :: "js_error option"
  auto_id :: string
  sdk_doc :: "string \<Rightarrow> string \<Rightarrow> jsval \<Rightarrow> js_error + string list"
  sdk_collection :: "string \<Rightarrow> string \<Rightarrow> js_error + string list"
  sdk_check :: "jsval \<Rightarrow> js_error option"

definition ANALYSIS_KEY :: string where
  "ANALYSIS_KEY = ''dealflow_history''"

definition CHAT_KEY :: string where
  "CHAT_KEY = ''dealflow_chats''"

definition TOOLS_KEY :: string where
  "TOOLS_KEY = ''dealflow_tools''"

definition isRealBackendAvailable :: "state \<Rightarrow> bool" where
  "isRealBackendAvailable st =
     (db st \<and> currentUser st \<noteq> None \<and>
      \<not> (case demo_auth_active st of None \<Rightarrow> False | Some flag \<Rightarrow> flag \<noteq> []))"

definition console_error :: "string \<Rightarrow> state \<Rightarrow> state" where
  "console_error msg st = st\<lparr>console := console st @ [msg]\<rparr>"

text \<open>
  \<^verbatim>\<open>setDoc(ref, data)\<close> writes the data as the document at the path \<^verbatim>\<open>ref\<close>, replacing what
  is there; \<^verbatim>\<open>addDoc(coll, data)\<close> writes it as a new document of the collection, under a key
  of the store's choosing. Either throws when the SDK does not take the data and rejects when
  the store does not take the write; the store is then as it was.
\<close>

definition setDoc :: "env \<Rightarrow> string list \<Rightarrow> jsval \<Rightarrow> state \<Rightarrow> js_error + state" where
  "setDoc e ref data st =
     (case sdk_check e data of
        Some err \<Rightarrow> Inl err
      | None \<Rightarrow>
          (case write_fault e of
             Some err \<Rightarrow> Inl err
           | None \<Rightarrow> Inr (st\<lparr>firestore := (firestore st)(ref := Some data)\<rparr>)))"

definition addDoc :: "env \<Rightarrow> string list \<Rightarrow> jsval \<Rightarrow> state \<Rightarrow> js_error + state" where
  "addDoc e coll data st = setDoc e (coll @ [auto_id e]) data st"

text \<open>
  \<^verbatim>\<open>saveToDatabase\<close> (lines 34 to 50). The body of the \<^verbatim>\<open>try\<close> is \<^verbatim>\<open>cloud_write\<close>; the
  \<^verbatim>\<open>catch\<close> logs and returns.
\<close>

definition cloud_write :: "env \<Rightarrow> string \<Rightarrow> string \<Rightarrow> jsval \<Rightarrow> state \<Rightarrow> js_error + state" where
  "cloud_write e uid collectionName data st =
     (let cleanData = sanitizeForFirestore data in
      case get_member cleanData ''id'' of
        Inl err \<Rightarrow> Inl err
      | Inr ident \<Rightarrow>
          if truthy ident then
            (case sdk_doc e uid collectionName ident of
               Inl err \<Rightarrow> Inl err
             | Inr ref \<Rightarrow> setDoc e ref cleanData st)
          else
            (case sdk_collection e uid collectionName of
               Inl err \<Rightarrow> Inl err
             | Inr coll \<Rightarrow> addDoc e coll cleanData st))"

definition saveToDatabase :: "env \<Rightarrow> string \<Rightarrow> jsval \<Rightarrow> state \<Rightarrow> js_error + state" where
  "saveToDatabase e collectionName data st =
     (if isRealBackendAvailable st \<and> currentUser st \<noteq> None then
        (case currentUser st of
           None \<Rightarrow> Inr st
         | Some uid \<Rightarrow>
             (case cloud_write e uid collectionName data st of
                Inr st' \<Rightarrow> Inr st'
              | Inl err \<Rightarrow>
                  Inr (console_error (''Firestore save error ('' @ collectionName @ ''):'') st)))
      else Inr st)"

text \<open>
  \<^verbatim>\<open>getFromDatabase\<close> (lines 52 to 71). \<^verbatim>\<open>snapshot\<close> is what the store answers the query
  \<^verbatim>\<open>orderBy('timestamp', 'desc')\<close> with: the documents in that order, or the error the read
  rejects with; \<^verbatim>\<open>limit(limitCount)\<close> caps the answer. Each document becomes
  \<^verbatim>\<open>{ id: doc.id, ...doc.data() }\<close>. The \<^verbatim>\<open>catch\<close> logs unless the error's code is
  \<^verbatim>\<open>failed-precondition\<close>, and returns the empty list.
\<close>

definition getDocs :: "(js_error + (string \<times> obj) list) \<Rightarrow> nat \<Rightarrow> js_error + (string \<times> obj) list" where
  "getDocs snapshot limitCount =
     (case snapshot of Inl err \<Rightarrow> Inl err | Inr docs \<Rightarrow> Inr (take limitCount docs))"

definition doc_record :: "string \<times> obj \<Rightarrow> obj" where
  "doc_record d = spread [(''id'', JStr (fst d))] (snd d)"

fun error_code :: "js_error \<Rightarrow> string option" where
  "error_code (FirestoreError c) = Some c"
| "error_code err = None"

definition getFromDatabase ::
  "(js_error + (string \<times> obj) list) \<Rightarrow> string \<Rightarrow> nat \<Rightarrow> state \<Rightarrow> js_error + (obj list \<times> state)" where
  "getFromDatabase snapshot collectionName limitCount st =
     (if isRealBackendAvailable st \<and> currentUser st \<noteq> None then
        (case getDocs snapshot limitCount of
           Inr docs \<Rightarrow> Inr (map doc_record docs, st)
         | Inl err \<Rightarrow>
             Inr ([],
                  if error_code err \<noteq> Some ''failed-precondition''
                  then console_error (''Firestore fetch error ('' @ collectionName @ ''):'') st
                  else st))
      else Inr ([], st))"

text \<open>
  Reading a slot: \<^verbatim>\<open>JSON.parse(localStorage.getItem(KEY) || '[]')\<close> in the save functions,
  \<^verbatim>\<open>stored ? JSON.parse(stored) : []\<close> in the load functions. Writing one:
  \<^verbatim>\<open>localStorage.setItem(KEY, JSON.stringify(updated))\<close>.
\<close>

definition getItem_parsed :: "string \<Rightarrow> state \<Rightarrow> obj list" where
  "getItem_parsed key st = (case localStorage st key of None \<Rightarrow> [] | Some xs \<Rightarrow> xs)"

definition setItem_json :: "string \<Rightarrow> obj list \<Rightarrow> state \<Rightarrow> state" where
  "setItem_json key updated st =
     st\<lparr>localStorage := (localStorage st)(key := Some (map json_fields updated))\<rparr>"

text \<open>The default limit of \<^verbatim>\<open>getFromDatabase\<close>, which every load function takes.\<close>

definition default_limit :: nat where
  "default_limit = 20"

text \<open>\<^verbatim>\<open>getHistory\<close> (lines 75 to 83), \<^verbatim>\<open>getChatHistory\<close> (102 to 108), \<^verbatim>\<open>getGenerationHistory\<close> (129 to 135).\<close>

definition getHistory :: "(js_error + (string \<times> obj) list) \<Rightarrow> state \<Rightarrow> js_error + (obj list \<times> state)" where
  "getHistory snapshot st =
     (case getFromDatabase snapshot ''analyses'' default_limit st of
        Inl err \<Rightarrow> Inl err
      | Inr (dbData, st') \<Rightarrow>
          if length dbData > 0 then Inr (dbData, st')
          else Inr (getItem_parsed ANALYSIS_KEY st', st'))"

definition getChatHistory :: "(js_error + (string \<times> obj) list) \<Rightarrow> state \<Rightarrow> js_error + (obj list \<times> state)" where
  "getChatHistory snapshot st =
     (case getFromDatabase snapshot ''chats'' default_limit st of
        Inl err \<Rightarrow> Inl err
      | Inr (dbData, st') \<Rightarrow>
          if length dbData > 0 then Inr (dbData, st')
          else Inr (getItem_parsed CHAT_KEY st', st'))"

definition getGenerationHistory :: "(js_error + (string \<times> obj) list) \<Rightarrow> state \<Rightarrow> js_error + (obj list \<times> state)" where
  "getGenerationHistory snapshot st =
     (case getFromDatabase snapshot ''generations'' default_limit st of
        Inl err \<Rightarrow> Inl err
      | Inr (dbData, st') \<Rightarrow>
          if length dbData > 0 then Inr (dbData, st')
          else Inr (getItem_parsed TOOLS_KEY st', st'))"

text \<open>
  \<^verbatim>\<open>saveToHistory\<close> (lines 85 to 98). \<^verbatim>\<open>newEntry\<close> is
  \<^verbatim>\<open>{ ...result, id: result.id || crypto.randomUUID(), timestamp: result.timestamp || Date.now() }\<close>.
\<close>

definition newEntry :: "env \<Rightarrow> obj \<Rightarrow> obj" where
  "newEntry e result =
     assign
       (assign result ''id''
          (if truthy (field result ''id'') then field result ''id'' else JStr (randomUUID e)))
       ''timestamp''
       (if truthy (field result ''timestamp'') then field result ''timestamp'' else JNum (now e))"

definition saveToHistory :: "env \<Rightarrow> obj \<Rightarrow> state \<Rightarrow> js_error + state" where
  "saveToHistory e result st =
     (case saveToDatabase e ''analyses'' (JObj (newEntry e result)) st of
        Inl err \<Rightarrow> Inl err
      | Inr st1 \<Rightarrow>
          (let currentLocal = getItem_parsed ANALYSIS_KEY st1;
               updated = take 10 (newEntry e result # currentLocal)
           in Inr (setItem_json ANALYSIS_KEY updated st1)))"

text \<open>
  \<^verbatim>\<open>saveChatSession\<close> (lines 110 to 125). \<^verbatim>\<open>findIndex\<close> returns the first index whose element
  passes the test (\<^verbatim>\<open>None\<close> stands for JavaScript's \<^verbatim>\<open>-1\<close>).
\<close>

fun findIndex :: "('a \<Rightarrow> bool) \<Rightarrow> 'a list \<Rightarrow> nat option" where
  "findIndex p [] = None"
| "findIndex p (x # xs) = (if p x then Some 0 else map_option Suc (findIndex p xs))"

definition saveChatSession :: "env \<Rightarrow> obj \<Rightarrow> state \<Rightarrow> js_error + state" where
  "saveChatSession e session st =
     (case saveToDatabase e ''chats'' (JObj session) st of
        Inl err \<Rightarrow> Inl err
      | Inr st1 \<Rightarrow>
          (let currentLocal = getItem_parsed CHAT_KEY st1;
               existingIndex =
                 findIndex (\<lambda>s. strict_eq (field s ''id'') (field session ''id'')) currentLocal;
               updated =
                 (case existingIndex of
                    Some i \<Rightarrow> currentLocal[i := session]
                  | None \<Rightarrow> take 5 (session # currentLocal))
           in Inr (setItem_json CHAT_KEY updated st1)))"

text \<open>\<^verbatim>\<open>saveGeneration\<close> (lines 137 to 143).\<close>

definition saveGeneration :: "env \<Rightarrow> obj \<Rightarrow> state \<Rightarrow> js_error + state" where
  "saveGeneration e gen st =
     (case saveToDatabase e ''generations'' (JObj gen) st of
        Inl err \<Rightarrow> Inl err
      | Inr st1 \<Rightarrow>
          (let currentLocal = getItem_parsed TOOLS_KEY st1;
               updated = take 10 (gen # currentLocal)
           in Inr (setItem_json TOOLS_KEY updated st1)))"

text \<open>Saving one record after the other, each call with its own environment.\<close>

fun save_all ::
  "(env \<Rightarrow> obj \<Rightarrow> state \<Rightarrow> js_error + state) \<Rightarrow> (env \<times> obj) list \<Rightarrow> state \<Rightarrow> js_error + state" where
  "save_all save [] st = Inr st"
| "save_all save ((e, r) # rest) st =
     (case save e r st of Inl err \<Rightarrow> Inl err | Inr st' \<Rightarrow> save_all save rest st')"

text \<open>A save followed by a load of the same kind; the result is the list the load returns.\<close>

definition save_then_load ::
  "(env \<Rightarrow> obj \<Rightarrow> state \<Rightarrow> js_error + state) \<Rightarrow>
   ((js_error + (string \<times> obj) list) \<Rightarrow> state \<Rightarrow> js_error + (obj list \<times> state)) \<Rightarrow>
   env \<Rightarrow> obj \<Rightarrow> (js_error + (string \<times> obj) list) \<Rightarrow> state \<Rightarrow> js_error + obj list" where
  "save_then_load save load e r snapshot st =
     (case save e r st of
        Inl err \<Rightarrow> Inl err
      | Inr st' \<Rightarrow>
          (case load snapshot st' of
             Inl err \<Rightarrow> Inl err
           | Inr (xs, st'') \<Rightarrow> Inr xs))"

text \<open>A state with nothing in local storage and nothing in the cloud.\<close>

definition fresh :: "bool \<Rightarrow> string option \<Rightarrow> state" where
  "fresh have_db user =
     \<lparr>db = have_db, currentUser = user, demo_auth_active = None,
      firestore = (\<lambda>p. None), localStorage = (\<lambda>k. None), console = []\<rparr>"

section \<open>The model-access adapter (\<^verbatim>\<open>src/services/gemini.ts\<close>)\<close>

text \<open>
  A response of \<^verbatim>\<open>generateContent\<close>: its \<^verbatim>\<open>text\<close> (a string, or \<^verbatim>\<open>undefined\<close>) and its
  \<^verbatim>\<open>candidates\<close>, which the code reads as \<^verbatim>\<open>any\<close>. When \<^verbatim>\<open>candidates\<close> is there it is an
  array. Logging with \<^verbatim>\<open>console.error\<close> before an error is thrown again does not change
  what a function returns or throws and is left out here.
\<close>

record response =
  response_text :: "string option"
  candidates :: jsval

text \<open>
  \<^verbatim>\<open>analyzeProductImage\<close> (lines 9 to 85), from the response on. \<^verbatim>\<open>api\<close> is the outcome of
  the awaited \<^verbatim>\<open>generateContent\<close> call, \<^verbatim>\<open>JSON_parse\<close> stands for \<^verbatim>\<open>JSON.parse\<close>.
  \<^verbatim>\<open>web_chunks\<close> is \<^verbatim>\<open>chunks.filter((c) => c.web?.uri)\<close> and \<^verbatim>\<open>link_records\<close> is
  \<^verbatim>\<open>.map((c) => ({ title: c.web.title, uri: c.web.uri }))\<close>, each stopping at the first
  element whose callback throws.
\<close>

fun web_chunks :: "jsval list \<Rightarrow> js_error + jsval list" where
  "web_chunks [] = Inr []"
| "web_chunks (c # cs) =
     (case get_member c ''web'' of
        Inl err \<Rightarrow> Inl err
      | Inr w \<Rightarrow>
          (case web_chunks cs of
             Inl err \<Rightarrow> Inl err
           | Inr rest \<Rightarrow> Inr (if truthy (opt_member w ''uri'') then c # rest else rest)))"

fun link_records :: "jsval list \<Rightarrow> js_error + jsval list" where
  "link_records [] = Inr []"
| "link_records (c # cs) =
     (case get_member c ''web'' of
        Inl err \<Rightarrow> Inl err
      | Inr w \<Rightarrow>
          (case get_member w ''title'' of
             Inl err \<Rightarrow> Inl err
           | Inr t \<Rightarrow>
               (case get_member w ''uri'' of
                  Inl err \<Rightarrow> Inl err
                | Inr u \<Rightarrow>
                    (case link_records cs of
                       Inl err \<Rightarrow> Inl err
                     | Inr rest \<Rightarrow> Inr (JObj [(''title'', t), (''uri'', u)] # rest)))))"

text \<open>
  \<^verbatim>\<open>result.searchLinks = v\<close> in module (strict) code: it throws on \<^verbatim>\<open>undefined\<close>, \<^verbatim>\<open>null\<close>
  and the primitives. On an array the property would not be an element; the array is
  returned as it is.
\<close>

fun set_member :: "jsval \<Rightarrow> string \<Rightarrow> jsval \<Rightarrow> js_error + jsval" where
  "set_member (JObj kvs) k v = Inr (JObj (assign kvs k v))"
| "set_member (JProto p kvs) k v = Inr (JProto p (assign kvs k v))"
| "set_member (JArr xs) k v = Inr (JArr xs)"
| "set_member r k v = Inl (TypeError (''Cannot set property '' @ k))"

definition groundingChunks :: "response \<Rightarrow> jsval" where
  "groundingChunks r =
     opt_member (opt_member (opt_first (candidates r)) ''groundingMetadata'') ''groundingChunks''"

definition analyzeProductImage ::
  "(js_error + response) \<Rightarrow> (string \<Rightarrow> js_error + jsval) \<Rightarrow> js_error + jsval" where
  "analyzeProductImage api JSON_parse =
     (case api of
        Inl err \<Rightarrow> Inl err
      | Inr r \<Rightarrow>
          (case response_text r of
             None \<Rightarrow> Inl (Error ''No response from Gemini'')
           | Some txt \<Rightarrow>
               if txt = [] then Inl (Error ''No response from Gemini'')
               else
                 (case JSON_parse txt of
                    Inl err \<Rightarrow> Inl err
                  | Inr result \<Rightarrow>
                      (let chunks = groundingChunks r in
                       if truthy chunks then
                         (case chunks of
                            JArr cs \<Rightarrow>
                              (case web_chunks cs of
                                 Inl err \<Rightarrow> Inl err
                               | Inr ws \<Rightarrow>
                                   (case link_records ws of
                                      Inl err \<Rightarrow> Inl err
                                    | Inr links \<Rightarrow> set_member result ''searchLinks'' (JArr links)))
                          | _ \<Rightarrow> Inl (TypeError ''chunks.filter is not a function''))
                       else Inr result))))"

text \<open>
  The specification's words for the links: the citations "that have a web URI", each mapped
  to \<^verbatim>\<open>{title, uri}\<close>.
\<close>

definition has_web_uri :: "jsval \<Rightarrow> bool" where
  "has_web_uri c = truthy (opt_member (opt_member c ''web'') ''uri'')"

definition link_of :: "jsval \<Rightarrow> jsval" where
  "link_of c =
     JObj [(''title'', opt_member (opt_member c ''web'') ''title''),
           (''uri'', opt_member (opt_member c ''web'') ''uri'')]"

text \<open>A \<^verbatim>\<open>JSON.parse\<close> for a text that denotes the value \<^verbatim>\<open>v\<close>.\<close>

definition parse_as :: "jsval \<Rightarrow> string \<Rightarrow> js_error + jsval" where
  "parse_as v txt = Inr v"

text \<open>
  \<^verbatim>\<open>sendChatMessage\<close> (lines 88 to 148). A turn of the history is
  \<^verbatim>\<open>{ role: string; parts: { text?: string; inlineData?: any }[] }\<close>. Characters are the code
  units up to 255; of those, \<^verbatim>\<open>trim\<close> removes the white space and line terminators
  (tab, line feed, vertical tab, form feed, carriage return, space, no-break space) at both
  ends.
\<close>

record part =
  part_text :: "string option"
  part_inlineData :: jsval

record turn =
  role :: string
  parts :: "part list"

definition is_ws :: "char \<Rightarrow> bool" where
  "is_ws c =
     (c \<in> {CHR 0x09, CHR 0x0A, CHR 0x0B, CHR 0x0C, CHR 0x0D, CHR 0x20, CHR 0xA0})"

definition trim :: "string \<Rightarrow> string" where
  "trim s = rev (dropWhile is_ws (rev (dropWhile is_ws s)))"

definition keep_part :: "part \<Rightarrow> bool" where
  "keep_part p =
     ((case part_text p of None \<Rightarrow> False | Some t \<Rightarrow> t \<noteq> [] \<and> length (trim t) > 0)
      \<or> truthy (part_inlineData p))"

text \<open>The loop \<^verbatim>\<open>while (validHistory.length > 0 && validHistory[0].role !== 'user') validHistory.shift()\<close>.\<close>

fun shift_leading :: "turn list \<Rightarrow> turn list" where
  "shift_leading [] = []"
| "shift_leading (t # ts) = (if role t \<noteq> ''user'' then shift_leading ts else t # ts)"

definition validHistory :: "turn list \<Rightarrow> turn list" where
  "validHistory history =
     shift_leading
       (filter (\<lambda>item. length (parts item) > 0)
          (map (\<lambda>item. \<lparr>role = role item, parts = filter keep_part (parts item)\<rparr>) history))"

text \<open>The request that \<^verbatim>\<open>ai.chats.create\<close> and \<^verbatim>\<open>chat.sendMessage\<close> send.\<close>

record chat_request =
  model :: string
  sent_history :: "turn list"
  thinkingBudget :: "nat option"
  message :: "part list"

definition currentParts :: "string \<Rightarrow> (string \<times> string) option \<Rightarrow> part list" where
  "currentParts msg img =
     (if trim msg \<noteq> [] then [\<lparr>part_text = Some msg, part_inlineData = JUndefined\<rparr>]
      else (case img of
              Some i \<Rightarrow> [\<lparr>part_text = Some ''Analyze this image.'', part_inlineData = JUndefined\<rparr>]
            | None \<Rightarrow> []))
     @ (case img of
          Some (d, m) \<Rightarrow>
            [\<lparr>part_text = None,
              part_inlineData = JObj [(''data'', JStr d), (''mimeType'', JStr m)]\<rparr>]
        | None \<Rightarrow> [])"

definition sendChatMessage ::
  "(chat_request \<Rightarrow> js_error + string option) \<Rightarrow> turn list \<Rightarrow> string \<Rightarrow>
   (string \<times> string) option \<Rightarrow> bool \<Rightarrow> js_error + string option" where
  "sendChatMessage api history msg img useThinking =
     api \<lparr>model = ''gemini-2.5-flash'',
          sent_history = validHistory history,
          thinkingBudget = (if useThinking then Some 16000 else None),
          message = currentParts msg img\<rparr>"

text \<open>
  The specification's words for the normalisation: a part is kept when it has non-whitespace
  text content or image content; a turn is dropped when no part is left; leading turns are
  dropped until the first one has role \<^verbatim>\<open>user\<close>.
\<close>

definition has_content :: "part \<Rightarrow> bool" where
  "has_content p =
     ((case part_text p of None \<Rightarrow> False | Some t \<Rightarrow> list_ex (\<lambda>c. \<not> is_ws c) t)
      \<or> truthy (part_inlineData p))"

definition spec_normalize :: "turn list \<Rightarrow> turn list" where
  "spec_normalize history =
     dropWhile (\<lambda>t. role t \<noteq> ''user'')
       (filter (\<lambda>t. parts t \<noteq> [])
          (map (\<lambda>t. t\<lparr>parts := filter has_content (parts t)\<rparr>) history))"

text \<open>
  \<^verbatim>\<open>generateCustomImage\<close> (lines 151 to 180), from the response on. \<^verbatim>\<open>js_string\<close> is the
  conversion a template literal applies to an interpolated value.
\<close>

fun digits :: "nat \<Rightarrow> string" where
  "digits n =
     (if n < 10 then [char_of (48 + n)] else digits (n div 10) @ [char_of (48 + n mod 10)])"

fun join_comma :: "string list \<Rightarrow> string" where
  "join_comma [] = []"
| "join_comma [s] = s"
| "join_comma (s # t # r) = s @ '','' @ join_comma (t # r)"

fun js_string :: "jsval \<Rightarrow> string" where
  "js_string JUndefined = ''undefined''"
| "js_string JNull = ''null''"
| "js_string (JBool b) = (if b then ''true'' else ''false'')"
| "js_string (JNum n) = (if n < 0 then ''-'' @ digits (nat (- n)) else digits (nat n))"
| "js_string (JStr s) = s"
| "js_string (JArr xs) =
     join_comma (map (\<lambda>x. if x = JUndefined \<or> x = JNull then [] else js_string x) xs)"
| "js_string (JObj kvs) = ''[object Object]''"
| "js_string (JProto p kvs) = ''[object Object]''"

text \<open>The \<^verbatim>\<open>for (const part of ...)\<close> loop over the parts of the first candidate.\<close>

fun first_image :: "jsval list \<Rightarrow> js_error + jsval" where
  "first_image [] = Inr JNull"
| "first_image (p # ps) =
     (case get_member p ''inlineData'' of
        Inl err \<Rightarrow> Inl err
      | Inr inl \<Rightarrow>
          if truthy inl \<and> truthy (opt_member inl ''data'') then
            Inr (JStr (''data:''
                       @ js_string (if truthy (opt_member inl ''mimeType'')
                                    then opt_member inl ''mimeType'' else JStr ''image/png'')
                       @ '';base64,'' @ js_string (opt_member inl ''data'')))
          else first_image ps)"

fun for_of_parts :: "jsval \<Rightarrow> js_error + jsval" where
  "for_of_parts (JArr ps) = first_image ps"
| "for_of_parts (JStr s) = Inr JNull"
| "for_of_parts v = Inl (TypeError ''parts is not iterable'')"

text \<open>
  The specification's words for the image: a part "carrying inline binary image data", and
  its data URI with the mime type of the response, \<^verbatim>\<open>image/png\<close> when there is none.
\<close>

definition carries_image :: "jsval \<Rightarrow> bool" where
  "carries_image p = truthy (opt_member (opt_member p ''inlineData'') ''data'')"

definition data_uri :: "jsval \<Rightarrow> jsval" where
  "data_uri p =
     (let inl = opt_member p ''inlineData'';
          mime = (if truthy (opt_member inl ''mimeType'')
                  then js_string (opt_member inl ''mimeType'') else ''image/png'')
      in JStr (''data:'' @ mime @ '';base64,'' @ js_string (opt_member inl ''data'')))"

definition generateCustomImage :: "(js_error + response) \<Rightarrow> js_error + jsval" where
  "generateCustomImage api =
     (case api of
        Inl err \<Rightarrow> Inl err
      | Inr r \<Rightarrow>
          (case candidates r of
             JArr (c # cs) \<Rightarrow>
               (case get_member c ''content'' of
                  Inl err \<Rightarrow> Inl err
                | Inr content \<Rightarrow>
                    (case get_member content ''parts'' of
                       Inl err \<Rightarrow> Inl err
                     | Inr ps \<Rightarrow> for_of_parts ps))
           | _ \<Rightarrow> Inr JNull))"

section \<open>Example data\<close>

definition chat :: "string \<Rightarrow> string \<Rightarrow> obj" where
  "chat ident lm = [(''id'', JStr ident), (''timestamp'', JNum 1), (''lastMessage'', JStr lm)]"

definition six_chats :: state where
  "six_chats = (fresh False None)\<lparr>localStorage := (\<lambda>k. None)
     (CHAT_KEY := Some [chat ''a'' ''1'', chat ''b'' ''2'', chat ''c'' ''3'', chat ''d'' ''4'',
                        chat ''e'' ''5'', chat ''f'' ''6''])\<rparr>"

text \<open>
  The answers of the SDK in the examples: a document path for an id that is a non-empty
  string without a slash, a collection path, and data taken when it is JSON. The ids and
  records of the examples are of that kind.
\<close>

definition example_doc :: "string \<Rightarrow> string \<Rightarrow> jsval \<Rightarrow> js_error + string list" where
  "example_doc uid c ident =
     (case ident of
        JStr k \<Rightarrow>
          if k \<noteq> [] \<and> CHR ''/'' \<notin> set k then Inr [''users'', uid, c, k]
          else Inl (FirestoreError ''invalid-argument'')
      | _ \<Rightarrow> Inl (TypeError ''path.indexOf is not a function''))"

definition example_collection :: "string \<Rightarrow> string \<Rightarrow> js_error + string list" where
  "example_collection uid c = Inr [''users'', uid, c]"

definition example_check :: "jsval \<Rightarrow> js_error option" where
  "example_check data = (if is_json data then None else Some (FirestoreError ''invalid-argument''))"

definition env0 :: env where
  "env0 = \<lparr>randomUUID = ''uuid-1'', now = 1000, write_fault = None, auto_id = ''auto-1'',
            sdk_doc = example_doc, sdk_collection = example_collection,
            sdk_check = example_check\<rparr>"

definition cloud_chat :: obj where
  "cloud_chat = [(''lastMessage'', JStr ''9''), (''timestamp'', JNum 7)]"

definition signed_in :: state where
  "signed_in = (fresh True (Some ''uid-1''))\<lparr>localStorage := (\<lambda>k. None)
     (CHAT_KEY := Some [chat ''a'' ''1'', chat ''b'' ''2''])\<rparr>"

definition analysis :: "string \<Rightarrow> obj" where
  "analysis ident =
     [(''id'', JStr ident), (''timestamp'', JNum 1700000000000),
      (''productName'', JStr ''Kettle''), (''negotiationMessageHindi'', JUndefined)]"

definition stored_analysis :: "string \<Rightarrow> obj" where
  "stored_analysis ident =
     [(''id'', JStr ident), (''timestamp'', JNum 1700000000000),
      (''productName'', JStr ''Kettle'')]"

definition eleven :: "(env \<times> obj) list" where
  "eleven = map (\<lambda>i. (env0, analysis i))
     [''r01'', ''r02'', ''r03'', ''r04'', ''r05'', ''r06'', ''r07'', ''r08'', ''r09'', ''r10'', ''r11'']"

definition text_part :: "string \<Rightarrow> part" where
  "text_part s = \<lparr>part_text = Some s, part_inlineData = JUndefined\<rparr>"

definition spec_example :: "turn list" where
  "spec_example =
     [\<lparr>role = ''model'', parts = []\<rparr>,
      \<lparr>role = ''user'', parts = [text_part ''hi'']\<rparr>,
      \<lparr>role = ''model'', parts = [text_part ''hello'']\<rparr>]"

definition same_role_example :: "turn list" where
  "same_role_example =
     [\<lparr>role = ''model'', parts = [text_part ''welcome'']\<rparr>,
      \<lparr>role = ''user'', parts = [text_part ''a'', text_part ''  '']\<rparr>,
      \<lparr>role = ''user'', parts = [text_part ''b'']\<rparr>,
      \<lparr>role = ''model'', parts = [text_part '''']\<rparr>,
      \<lparr>role = ''model'', parts = [text_part ''c'']\<rparr>,
      \<lparr>role = ''model'', parts = [text_part ''d'']\<rparr>]"

definition revised_analysis :: "string \<Rightarrow> obj" where
  "revised_analysis ident =
     [(''id'', JStr ident), (''timestamp'', JNum 1700000000500),
      (''productName'', JStr ''Toaster''), (''negotiationMessageHindi'', JUndefined)]"

definition stored_revised_analysis :: "string \<Rightarrow> obj" where
  "stored_revised_analysis ident =
     [(''id'', JStr ident), (''timestamp'', JNum 1700000000500),
      (''productName'', JStr ''Toaster'')]"

definition two_chats_offline :: state where
  "two_chats_offline = (fresh False None)\<lparr>localStorage := (\<lambda>k. None)
     (CHAT_KEY := Some [chat ''a'' ''1'', chat ''b'' ''2''])\<rparr>"

definition bare_analysis :: obj where
  "bare_analysis = [(''productName'', JStr ''Kettle''), (''rating'', JUndefined)]"

definition kettle :: obj where
  "kettle = [(''productName'', JStr ''Kettle''), (''valueScore'', JNum 45),
             (''recommendation'', JStr ''Wait for Sale'')]"

definition with_chunks :: "jsval \<Rightarrow> response" where
  "with_chunks chunks =
     \<lparr>response_text = Some ''{...}'',
      candidates = JArr [JObj [(''groundingMetadata'', JObj [(''groundingChunks'', chunks)])]]\<rparr>"

definition ungrounded :: response where
  "ungrounded = \<lparr>response_text = Some ''{...}'', candidates = JArr [JObj [(''index'', JNum 0)]]\<rparr>"

definition three_chunks :: "jsval list" where
  "three_chunks =
     [JObj [(''web'', JObj [(''uri'', JStr ''https://a.example''), (''title'', JStr ''A'')])],
      JObj [(''retrievedContext'', JObj [(''uri'', JStr ''gs://x'')])],
      JObj [(''web'', JObj [(''uri'', JStr ''https://b.example''), (''title'', JStr ''B'')])]]"

definition blocked_response :: response where
  "blocked_response =
     \<lparr>response_text = None, candidates = JArr [JObj [(''finishReason'', JStr ''SAFETY'')]]\<rparr>"

definition image_response :: response where
  "image_response =
     \<lparr>response_text = None,
      candidates = JArr [JObj [(''content'', JObj [(''parts'',
        JArr [JObj [(''text'', JStr ''Here it is'')],
              JObj [(''inlineData'', JObj [(''data'', JStr ''QUJD'')])],
              JObj [(''inlineData'', JObj [(''mimeType'', JStr ''image/jpeg''), (''data'', JStr ''RUZH'')])]])])]]\<rparr>"

section \<open>Basic facts\<close>

subsection \<open>Rebuilding an object\<close>

lemma assign_fresh: "k \<notin> fst ` set acc \<Longrightarrow> assign acc k v = acc @ [(k, v)]"
  by (induction acc) auto

lemma fold_assign_distinct:
  "distinct (map fst kvs) \<Longrightarrow> fst ` set kvs \<inter> fst ` set acc = {} \<Longrightarrow>
   fold (\<lambda>(key, value) a. if value = JUndefined then a else assign a key (f value)) kvs acc
   = acc @ map (\<lambda>(k, v). (k, f v)) (filter (\<lambda>(k, v). v \<noteq> JUndefined) kvs)"
proof (induction kvs arbitrary: acc)
  case Nil
  then show ?case by simp
next
  case (Cons kv kvs)
  obtain k v where kv: "kv = (k, v)" by (cases kv)
  show ?case
  proof (cases "v = JUndefined")
    case True
    with Cons kv show ?thesis by auto
  next
    case False
    have fresh: "k \<notin> fst ` set acc" using Cons.prems kv by auto
    have d: "distinct (map fst kvs)" using Cons.prems by simp
    have disj: "fst ` set kvs \<inter> fst ` set (acc @ [(k, f v)]) = {}"
      using Cons.prems kv by auto
    show ?thesis
      using Cons.IH [OF d disj] False kv by (simp add: assign_fresh [OF fresh])
  qed
qed

lemma fold_sanitize_cong:
  "(\<And>k v. (k, v) \<in> set kvs \<Longrightarrow> v \<noteq> JUndefined \<Longrightarrow> f v = g v) \<Longrightarrow>
   fold (\<lambda>(key, value) a. if value = JUndefined then a else assign a key (f value)) kvs acc
   = fold (\<lambda>(key, value) a. if value = JUndefined then a else assign a key (g value)) kvs acc"
proof (induction kvs arbitrary: acc)
  case Nil
  then show ?case by simp
next
  case (Cons kv kvs)
  obtain k v where kv: "kv = (k, v)" by (cases kv)
  have rest: "\<And>k v. (k, v) \<in> set kvs \<Longrightarrow> v \<noteq> JUndefined \<Longrightarrow> f v = g v"
    using Cons.prems by auto
  have hd: "v \<noteq> JUndefined \<Longrightarrow> f v = g v"
    using Cons.prems [of k v] kv by simp
  show ?case
    using Cons.IH [OF rest] hd kv by simp
qed

lemma fold_js_put_plain:
  "''__proto__'' \<notin> fst ` set kvs \<Longrightarrow>
   fold (\<lambda>(key, value) a. if value = JUndefined then a else js_put a key (f value)) kvs (JObj acc)
   = JObj (fold (\<lambda>(key, value) a. if value = JUndefined then a else assign a key (f value)) kvs acc)"
proof (induction kvs arbitrary: acc)
  case Nil
  then show ?case by simp
next
  case (Cons kv kvs)
  obtain k v where kv: "kv = (k, v)" by (cases kv)
  have k: "k \<noteq> ''__proto__''" using Cons.prems kv by auto
  have rest: "''__proto__'' \<notin> fst ` set kvs" using Cons.prems by auto
  show ?case
    using Cons.IH [OF rest] k kv by simp
qed

lemma sanitize_is_strip:
  "plain_data v \<Longrightarrow> no_proto_key v \<Longrightarrow> sanitizeForFirestore v = strip_undefined v"
proof (induction v rule: sanitizeForFirestore.induct)
  case (1 xs)
  then show ?case by simp
next
  case (2 kvs)
  have d: "distinct (map fst kvs)" using "2.prems" by simp
  have np: "''__proto__'' \<notin> fst ` set kvs" using "2.prems" by simp
  have eq: "\<And>k v. (k, v) \<in> set kvs \<Longrightarrow> v \<noteq> JUndefined \<Longrightarrow> sanitizeForFirestore v = strip_undefined v"
    using 2 by fastforce
  have "sanitizeForFirestore (JObj kvs) =
      JObj (fold (\<lambda>(key, value) a. if value = JUndefined then a
                    else assign a key (sanitizeForFirestore value)) kvs [])"
    using fold_js_put_plain [OF np, of sanitizeForFirestore "[]"] by simp
  then show ?case
    using fold_sanitize_cong [of kvs sanitizeForFirestore strip_undefined "[]", OF eq]
      fold_assign_distinct [OF d, of "[]" strip_undefined]
    by simp
qed simp_all

lemma assign_set: "set (assign acc k v) \<subseteq> insert (k, v) (set acc)"
  by (induction acc) (auto split: if_splits)

lemma js_put_clean:
  assumes "has_own_fields acc" and "\<not> has_undefined_field acc"
      and "v \<noteq> JUndefined" and "\<not> has_undefined_field v"
  shows "has_own_fields (js_put acc k v) \<and> \<not> has_undefined_field (js_put acc k v)"
proof (cases acc)
  case (JObj kvs)
  have "\<forall>(k', v') \<in> set (assign kvs k v). v' \<noteq> JUndefined \<and> \<not> has_undefined_field v'"
    using assms JObj assign_set [of kvs k v] by fastforce
  then show ?thesis using assms JObj by auto
next
  case (JProto p kvs)
  have "\<forall>(k', v') \<in> set (assign kvs k v). v' \<noteq> JUndefined \<and> \<not> has_undefined_field v'"
    using assms JProto assign_set [of kvs k v] by fastforce
  then show ?thesis using assms JProto by auto
qed (use assms in simp_all)

lemma fold_js_put_clean:
  assumes "\<And>k v. (k, v) \<in> set kvs \<Longrightarrow> v \<noteq> JUndefined \<Longrightarrow>
             f v \<noteq> JUndefined \<and> \<not> has_undefined_field (f v)"
      and "has_own_fields acc" and "\<not> has_undefined_field acc"
  shows "has_own_fields (fold (\<lambda>(key, value) a. if value = JUndefined then a
                                else js_put a key (f value)) kvs acc)
       \<and> \<not> has_undefined_field (fold (\<lambda>(key, value) a. if value = JUndefined then a
                                else js_put a key (f value)) kvs acc)"
  using assms
proof (induction kvs arbitrary: acc)
  case Nil
  then show ?case by simp
next
  case (Cons kv kvs)
  obtain k v where kv: "kv = (k, v)" by (cases kv)
  have rest: "\<And>k v. (k, v) \<in> set kvs \<Longrightarrow> v \<noteq> JUndefined \<Longrightarrow>
             f v \<noteq> JUndefined \<and> \<not> has_undefined_field (f v)"
    using Cons.prems(1) by auto
  show ?case
  proof (cases "v = JUndefined")
    case True
    then show ?thesis using Cons.IH [OF rest Cons.prems(2,3)] kv by simp
  next
    case False
    have fv: "f v \<noteq> JUndefined \<and> \<not> has_undefined_field (f v)"
      using Cons.prems(1) [of k v] kv False by simp
    have step: "has_own_fields (js_put acc k (f v)) \<and> \<not> has_undefined_field (js_put acc k (f v))"
      using js_put_clean [OF Cons.prems(2,3)] fv by blast
    show ?thesis
      using Cons.IH [OF rest, where acc = "js_put acc k (f v)"] step kv False by simp
  qed
qed

lemma sanitize_clean:
  "(v \<noteq> JUndefined \<longrightarrow> sanitizeForFirestore v \<noteq> JUndefined)
   \<and> \<not> has_undefined_field (sanitizeForFirestore v)"
proof (induction v rule: sanitizeForFirestore.induct)
  case (1 xs)
  then show ?case by auto
next
  case (2 kvs)
  have "has_own_fields (sanitizeForFirestore (JObj kvs)) \<and>
        \<not> has_undefined_field (sanitizeForFirestore (JObj kvs))"
    unfolding sanitizeForFirestore.simps
    by (rule fold_js_put_clean) (use 2 in auto)
  then show ?case by (cases "sanitizeForFirestore (JObj kvs)") auto
next
  case (3 p kvs)
  have "has_own_fields (sanitizeForFirestore (JProto p kvs)) \<and>
        \<not> has_undefined_field (sanitizeForFirestore (JProto p kvs))"
    unfolding sanitizeForFirestore.simps
    by (rule fold_js_put_clean) (use 3 in auto)
  then show ?case by (cases "sanitizeForFirestore (JProto p kvs)") auto
qed simp_all

lemma sanitize_no_undefined_field: "\<not> has_undefined_field (sanitizeForFirestore v)"
  using sanitize_clean by blast

lemma sanitize_proto_field:
  "sanitizeForFirestore (JObj [(''id'', JStr ''x''), (''__proto__'', JNum 5)]) = JObj [(''id'', JStr ''x'')]"
  "sanitizeForFirestore (JObj [(''__proto__'', JObj [(''id'', JStr ''x'')])]) = JProto (JObj [(''id'', JStr ''x'')]) []"
  by simp_all

lemma json_is_strip:
  "plain_data v \<Longrightarrow> no_undefined_element v \<Longrightarrow> json_clone v = strip_undefined v"
proof (induction v rule: json_clone.induct)
  case (1 xs)
  then show ?case by auto
next
  case (2 kvs)
  have "\<And>k v. (k, v) \<in> set kvs \<Longrightarrow> v \<noteq> JUndefined \<Longrightarrow> json_clone v = strip_undefined v"
  proof -
    fix k v
    assume m: "(k, v) \<in> set kvs" and u: "v \<noteq> JUndefined"
    have "plain_data v" and "no_undefined_element v" using "2.prems" m by auto
    then show "json_clone v = strip_undefined v" using "2.IH" [of "(k, v)" k v] m u by simp
  qed
  then show ?case by auto
qed simp_all

lemma json_fields_is_strip:
  "plain_data (JObj r) \<Longrightarrow> no_undefined_element (JObj r) \<Longrightarrow> json_fields r = strip_fields r"
  using json_is_strip [of "JObj r"] by (simp add: json_fields_def strip_fields_def)

subsection \<open>saveToDatabase\<close>

lemma saveToDatabase_returns:
  "\<exists>st'. saveToDatabase e c d st = Inr st' \<and> localStorage st' = localStorage st
     \<and> db st' = db st \<and> currentUser st' = currentUser st \<and> demo_auth_active st' = demo_auth_active st"
  by (auto simp: saveToDatabase_def cloud_write_def setDoc_def addDoc_def
      console_error_def Let_def split: option.splits sum.splits if_splits)

lemma saveToDatabase_inactive:
  "\<not> isRealBackendAvailable st \<Longrightarrow> saveToDatabase e c d st = Inr st"
  by (simp add: saveToDatabase_def)



lemma getItem_parsed_cong:
  "localStorage st' = localStorage st \<Longrightarrow> getItem_parsed k st' = getItem_parsed k st"
  by (simp add: getItem_parsed_def)

lemma getItem_setItem_same: "getItem_parsed k (setItem_json k xs st) = map json_fields xs"
  by (simp add: getItem_parsed_def setItem_json_def)

lemma getItem_setItem_other: "k' \<noteq> k \<Longrightarrow> getItem_parsed k' (setItem_json k xs st) = getItem_parsed k' st"
  by (simp add: getItem_parsed_def setItem_json_def)

lemma saveToHistory_local:
  "\<exists>st'. saveToHistory e r st = Inr st' \<and>
     getItem_parsed ANALYSIS_KEY st' =
       map json_fields (take 10 (newEntry e r # getItem_parsed ANALYSIS_KEY st))"
proof -
  obtain st1 where s: "saveToDatabase e ''analyses'' (JObj (newEntry e r)) st = Inr st1"
    and l: "localStorage st1 = localStorage st"
    using saveToDatabase_returns by blast
  show ?thesis
    using s getItem_parsed_cong [OF l, of ANALYSIS_KEY]
    by (simp add: saveToHistory_def Let_def getItem_setItem_same del: take_Suc_Cons)
qed

lemma saveGeneration_local:
  "\<exists>st'. saveGeneration e g st = Inr st' \<and>
     getItem_parsed TOOLS_KEY st' =
       map json_fields (take 10 (g # getItem_parsed TOOLS_KEY st))"
proof -
  obtain st1 where s: "saveToDatabase e ''generations'' (JObj g) st = Inr st1"
    and l: "localStorage st1 = localStorage st"
    using saveToDatabase_returns by blast
  show ?thesis
    using s getItem_parsed_cong [OF l, of TOOLS_KEY]
    by (simp add: saveGeneration_def Let_def getItem_setItem_same del: take_Suc_Cons)
qed

lemma saveChatSession_local:
  "\<exists>st'. saveChatSession e s st = Inr st' \<and>
     getItem_parsed CHAT_KEY st' =
       map json_fields
         (case findIndex (\<lambda>x. strict_eq (field x ''id'') (field s ''id'')) (getItem_parsed CHAT_KEY st) of
            Some i \<Rightarrow> (getItem_parsed CHAT_KEY st)[i := s]
          | None \<Rightarrow> take 5 (s # getItem_parsed CHAT_KEY st))"
proof -
  obtain st1 where s: "saveToDatabase e ''chats'' (JObj s) st = Inr st1"
    and l: "localStorage st1 = localStorage st"
    using saveToDatabase_returns by blast
  show ?thesis
    using s getItem_parsed_cong [OF l, of CHAT_KEY]
    by (simp add: saveChatSession_def Let_def getItem_setItem_same del: take_Suc_Cons)
qed

subsection \<open>findIndex\<close>

lemma findIndex_Some:
  "findIndex p xs = Some i \<Longrightarrow> i < length xs \<and> p (xs ! i) \<and> (\<forall>j < i. \<not> p (xs ! j))"
proof (induction xs arbitrary: i)
  case Nil
  then show ?case by simp
next
  case (Cons x xs)
  show ?case
  proof (cases "p x")
    case True
    with Cons.prems show ?thesis by simp
  next
    case False
    with Cons.prems obtain i' where i': "findIndex p xs = Some i'" and i: "i = Suc i'"
      by auto
    from Cons.IH [OF i'] False i show ?thesis
      by (auto simp: less_Suc_eq_0_disj)
  qed
qed

lemma findIndex_None: "findIndex p xs = None \<longleftrightarrow> (\<forall>x \<in> set xs. \<not> p x)"
  by (induction xs) auto

lemma findIndex_exists: "\<exists>x \<in> set xs. p x \<Longrightarrow> \<exists>i. findIndex p xs = Some i"
  using findIndex_None [of p xs] by (cases "findIndex p xs") auto

subsection \<open>JSON values\<close>

lemma json_clone_fixed: "is_json v \<Longrightarrow> json_clone v = v"
proof (induction v rule: json_clone.induct)
  case (1 xs)
  have "map (\<lambda>v. if v = JUndefined then JNull else json_clone v) xs = map (\<lambda>v. v) xs"
    using 1 by (intro map_cong) auto
  then show ?case by simp
next
  case (2 kvs)
  have f: "filter (\<lambda>(k, v). v \<noteq> JUndefined) kvs = kvs"
    using "2.prems" by (auto simp: filter_id_conv)
  have "map (\<lambda>(k, v). (k, json_clone v)) kvs = map (\<lambda>kv. kv) kvs"
    using 2 f by (intro map_cong) auto
  then show ?case using f by simp
qed simp_all

lemma json_fields_fixed: "is_json (JObj r) \<Longrightarrow> json_fields r = r"
  using json_clone_fixed [of "JObj r"] by (simp add: json_fields_def)

lemma json_clone_is_json: "v \<noteq> JUndefined \<Longrightarrow> is_json (json_clone v)"
  by (induction v rule: json_clone.induct) auto

lemma json_fields_is_json: "is_json (JObj (json_fields r))"
  using json_clone_is_json [of "JObj r"] by (simp add: json_fields_def)

lemma json_fields_idem: "json_fields (json_fields r) = json_fields r"
  by (rule json_fields_fixed [OF json_fields_is_json])

lemma map_json_fields_fixed: "\<forall>s \<in> set xs. is_json (JObj s) \<Longrightarrow> map json_fields xs = xs"
  by (induction xs) (simp_all add: json_fields_fixed)

subsection \<open>A cloud write that fails\<close>

lemma newEntry_write_fault [simp]: "newEntry (e\<lparr>write_fault := f\<rparr>) r = newEntry e r"
  by (simp add: newEntry_def)

lemma saveToHistory_explicit:
  "saveToDatabase e ''analyses'' (JObj (newEntry e r)) st = Inr st1 \<Longrightarrow>
   saveToHistory e r st =
     Inr (setItem_json ANALYSIS_KEY (take 10 (newEntry e r # getItem_parsed ANALYSIS_KEY st1)) st1)"
  by (simp add: saveToHistory_def Let_def del: take_Suc_Cons)

lemma saveChatSession_explicit:
  "saveToDatabase e ''chats'' (JObj s) st = Inr st1 \<Longrightarrow>
   saveChatSession e s st =
     Inr (setItem_json CHAT_KEY
           (case findIndex (\<lambda>x. strict_eq (field x ''id'') (field s ''id'')) (getItem_parsed CHAT_KEY st1) of
              Some i \<Rightarrow> (getItem_parsed CHAT_KEY st1)[i := s]
            | None \<Rightarrow> take 5 (s # getItem_parsed CHAT_KEY st1)) st1)"
  by (simp add: saveChatSession_def Let_def del: take_Suc_Cons)

lemma saveGeneration_explicit:
  "saveToDatabase e ''generations'' (JObj g) st = Inr st1 \<Longrightarrow>
   saveGeneration e g st =
     Inr (setItem_json TOOLS_KEY (take 10 (g # getItem_parsed TOOLS_KEY st1)) st1)"
  by (simp add: saveGeneration_def Let_def del: take_Suc_Cons)


lemma setItem_json_frame [simp]:
  "console (setItem_json k xs st) = console st"
  "firestore (setItem_json k xs st) = firestore st"
  by (simp_all add: setItem_json_def)

lemma console_error_frame [simp]:
  "console (console_error m st) = console st @ [m]"
  "firestore (console_error m st) = firestore st"
  "localStorage (console_error m st) = localStorage st"
  by (simp_all add: console_error_def)




subsection \<open>Loading\<close>

lemma getFromDatabase_cases:
  "getFromDatabase snapshot c n st =
     (if isRealBackendAvailable st then
        (case snapshot of
           Inr docs \<Rightarrow> Inr (map doc_record (take n docs), st)
         | Inl err \<Rightarrow>
             Inr ([], if error_code err \<noteq> Some ''failed-precondition''
                      then console_error (''Firestore fetch error ('' @ c @ ''):'') st else st))
      else Inr ([], st))"
  by (auto simp: getFromDatabase_def getDocs_def isRealBackendAvailable_def split: sum.splits)

lemma getFromDatabase_cloud:
  "isRealBackendAvailable st \<Longrightarrow>
   getFromDatabase (Inr docs) c n st = Inr (map doc_record (take n docs), st)"
  by (simp add: getFromDatabase_cases)

lemma getFromDatabase_fallback:
  "\<not> (isRealBackendAvailable st \<and> (\<exists>docs. snapshot = Inr docs \<and> take n docs \<noteq> [])) \<Longrightarrow>
   \<exists>st'. getFromDatabase snapshot c n st = Inr ([], st') \<and> localStorage st' = localStorage st
      \<and> (st' = st \<or> st' = console_error (''Firestore fetch error ('' @ c @ ''):'') st)"
  by (cases snapshot) (auto simp: getFromDatabase_cases)

lemma getItem_parsed_local:
  "localStorage st' = localStorage st \<Longrightarrow> getItem_parsed k st' = getItem_parsed k st"
  by (simp add: getItem_parsed_def)

lemma getHistory_cloud:
  "isRealBackendAvailable st \<Longrightarrow> take default_limit docs \<noteq> [] \<Longrightarrow>
   getHistory (Inr docs) st = Inr (map doc_record (take default_limit docs), st)"
  by (simp add: getHistory_def getFromDatabase_cloud)

lemma getChatHistory_cloud:
  "isRealBackendAvailable st \<Longrightarrow> take default_limit docs \<noteq> [] \<Longrightarrow>
   getChatHistory (Inr docs) st = Inr (map doc_record (take default_limit docs), st)"
  by (simp add: getChatHistory_def getFromDatabase_cloud)

lemma getGenerationHistory_cloud:
  "isRealBackendAvailable st \<Longrightarrow> take default_limit docs \<noteq> [] \<Longrightarrow>
   getGenerationHistory (Inr docs) st = Inr (map doc_record (take default_limit docs), st)"
  by (simp add: getGenerationHistory_def getFromDatabase_cloud)

lemma getHistory_fallback:
  assumes "\<not> (isRealBackendAvailable st \<and> (\<exists>docs. snapshot = Inr docs \<and> take default_limit docs \<noteq> []))"
  shows "\<exists>st'. getHistory snapshot st = Inr (getItem_parsed ANALYSIS_KEY st, st') \<and>
           localStorage st' = localStorage st"
proof -
  obtain st' where g: "getFromDatabase snapshot ''analyses'' default_limit st = Inr ([], st')"
    and l: "localStorage st' = localStorage st"
    using getFromDatabase_fallback [OF assms] by blast
  show ?thesis
    using g l getItem_parsed_local [OF l] by (simp add: getHistory_def)
qed

lemma getChatHistory_fallback:
  assumes "\<not> (isRealBackendAvailable st \<and> (\<exists>docs. snapshot = Inr docs \<and> take default_limit docs \<noteq> []))"
  shows "\<exists>st'. getChatHistory snapshot st = Inr (getItem_parsed CHAT_KEY st, st') \<and>
           localStorage st' = localStorage st"
proof -
  obtain st' where g: "getFromDatabase snapshot ''chats'' default_limit st = Inr ([], st')"
    and l: "localStorage st' = localStorage st"
    using getFromDatabase_fallback [OF assms] by blast
  show ?thesis
    using g l getItem_parsed_local [OF l] by (simp add: getChatHistory_def)
qed

lemma getGenerationHistory_fallback:
  assumes "\<not> (isRealBackendAvailable st \<and> (\<exists>docs. snapshot = Inr docs \<and> take default_limit docs \<noteq> []))"
  shows "\<exists>st'. getGenerationHistory snapshot st = Inr (getItem_parsed TOOLS_KEY st, st') \<and>
           localStorage st' = localStorage st"
proof -
  obtain st' where g: "getFromDatabase snapshot ''generations'' default_limit st = Inr ([], st')"
    and l: "localStorage st' = localStorage st"
    using getFromDatabase_fallback [OF assms] by blast
  show ?thesis
    using g l getItem_parsed_local [OF l] by (simp add: getGenerationHistory_def)
qed

lemma getItem_parsed_missing: "localStorage st k = None \<Longrightarrow> getItem_parsed k st = []"
  by (simp add: getItem_parsed_def)

lemma fold_assign_key:
  "distinct (map fst src) \<Longrightarrow> i \<notin> fst ` set rest \<Longrightarrow> fst ` set src \<inter> fst ` set rest = {} \<Longrightarrow>
   fold (\<lambda>(k, v) a. assign a k v) src ((i, x) # rest)
   = (i, case map_of src i of None \<Rightarrow> x | Some v \<Rightarrow> v) # rest @ filter (\<lambda>(k, v). k \<noteq> i) src"
proof (induction src arbitrary: x rest)
  case Nil
  then show ?case by simp
next
  case (Cons kv src)
  obtain k v where kv: "kv = (k, v)" by (cases kv)
  have d: "distinct (map fst src)" and kn: "k \<notin> fst ` set src" using Cons.prems(1) kv by auto
  show ?case
  proof (cases "k = i")
    case True
    have m: "map_of src i = None" using kn True by (simp add: map_of_eq_None_iff)
    have disj: "fst ` set src \<inter> fst ` set rest = {}" using Cons.prems(3) by auto
    show ?thesis
      using Cons.IH [OF d Cons.prems(2) disj, of v] True kv m by simp
  next
    case False
    have kr: "k \<notin> fst ` set rest" using Cons.prems(3) kv by auto
    have a: "assign ((i, x) # rest) k v = (i, x) # (rest @ [(k, v)])"
      using False assign_fresh [OF kr] by simp
    have i': "i \<notin> fst ` set (rest @ [(k, v)])" using Cons.prems(2) False by auto
    have disj: "fst ` set src \<inter> fst ` set (rest @ [(k, v)]) = {}"
      using Cons.prems(3) kn by auto
    show ?thesis
      using Cons.IH [OF d i' disj, of x] False kv a by simp
  qed
qed

lemma doc_record_distinct:
  "distinct (map fst data) \<Longrightarrow>
   doc_record (i, data) =
     (''id'', case map_of data ''id'' of None \<Rightarrow> JStr i | Some v \<Rightarrow> v) #
     filter (\<lambda>(k, v). k \<noteq> ''id'') data"
  using fold_assign_key [of data "''id''" "[]" "JStr i"] by (simp add: doc_record_def spread_def)

lemma map_doc_record_distinct:
  assumes "\<forall>d \<in> set docs. distinct (map fst (snd d))"
  shows "map doc_record (take n docs) =
     map (\<lambda>(i, data). (''id'', case map_of data ''id'' of None \<Rightarrow> JStr i | Some v \<Rightarrow> v) #
                        filter (\<lambda>(k, v). k \<noteq> ''id'') data) (take n docs)"
proof (rule map_cong [OF refl])
  fix d
  assume "d \<in> set (take n docs)"
  then have m: "d \<in> set docs" by (rule in_set_takeD)
  obtain i data where d: "d = (i, data)" by (cases d)
  have "distinct (map fst data)" using assms m d by auto
  then show "doc_record d = (case d of (i, data) \<Rightarrow>
      (''id'', case map_of data ''id'' of None \<Rightarrow> JStr i | Some v \<Rightarrow> v) #
      filter (\<lambda>(k, v). k \<noteq> ''id'') data)"
    unfolding d by (simp add: doc_record_distinct)
qed

lemma load_cloud:
  assumes "isRealBackendAvailable st" and "docs \<noteq> []"
  shows "getHistory (Inr docs) st = Inr (map doc_record (take 20 docs), st)"
    and "getChatHistory (Inr docs) st = Inr (map doc_record (take 20 docs), st)"
    and "getGenerationHistory (Inr docs) st = Inr (map doc_record (take 20 docs), st)"
  using assms getHistory_cloud [of st docs] getChatHistory_cloud [of st docs]
    getGenerationHistory_cloud [of st docs]
  by (simp_all add: default_limit_def)

lemma load_fallback:
  assumes "\<not> isRealBackendAvailable st \<or> snapshot = Inl err \<or> snapshot = Inr []"
  shows "\<exists>st'. getHistory snapshot st =
             Inr (case localStorage st ''dealflow_history'' of None \<Rightarrow> [] | Some xs \<Rightarrow> xs, st') \<and>
           localStorage st' = localStorage st"
    and "\<exists>st'. getChatHistory snapshot st =
             Inr (case localStorage st ''dealflow_chats'' of None \<Rightarrow> [] | Some xs \<Rightarrow> xs, st') \<and>
           localStorage st' = localStorage st"
    and "\<exists>st'. getGenerationHistory snapshot st =
             Inr (case localStorage st ''dealflow_tools'' of None \<Rightarrow> [] | Some xs \<Rightarrow> xs, st') \<and>
           localStorage st' = localStorage st"
proof -
  have n: "\<not> (isRealBackendAvailable st \<and> (\<exists>docs. snapshot = Inr docs \<and> take default_limit docs \<noteq> []))"
    using assms by auto
  show "\<exists>st'. getHistory snapshot st =
             Inr (case localStorage st ''dealflow_history'' of None \<Rightarrow> [] | Some xs \<Rightarrow> xs, st') \<and>
           localStorage st' = localStorage st"
    using getHistory_fallback [OF n] by (simp add: getItem_parsed_def ANALYSIS_KEY_def)
  show "\<exists>st'. getChatHistory snapshot st =
             Inr (case localStorage st ''dealflow_chats'' of None \<Rightarrow> [] | Some xs \<Rightarrow> xs, st') \<and>
           localStorage st' = localStorage st"
    using getChatHistory_fallback [OF n] by (simp add: getItem_parsed_def CHAT_KEY_def)
  show "\<exists>st'. getGenerationHistory snapshot st =
             Inr (case localStorage st ''dealflow_tools'' of None \<Rightarrow> [] | Some xs \<Rightarrow> xs, st') \<and>
           localStorage st' = localStorage st"
    using getGenerationHistory_fallback [OF n] by (simp add: getItem_parsed_def TOOLS_KEY_def)
qed

lemma load_returns:
  "\<exists>xs st'. getHistory snapshot st = Inr (xs, st')"
  "\<exists>xs st'. getChatHistory snapshot st = Inr (xs, st')"
  "\<exists>xs st'. getGenerationHistory snapshot st = Inr (xs, st')"
  by (auto simp: getHistory_def getChatHistory_def getGenerationHistory_def getFromDatabase_cases
      split: sum.splits)

subsection \<open>Retention\<close>

lemma take_append_take: "take n (xs @ take n ys) = take n (xs @ ys)"
  by (simp add: min_def)

lemma all_json_take: "\<forall>s \<in> set cs. is_json (JObj s) \<Longrightarrow> \<forall>s \<in> set (take n cs). is_json (JObj s)"
  by (meson in_set_takeD)

lemma map_json_fields_step:
  assumes "\<forall>s \<in> set cs. is_json (JObj s)"
  shows "map json_fields (take n (x # cs)) = take n (json_fields x # cs)"
proof -
  have "map json_fields (x # cs) = json_fields x # cs"
    using map_json_fields_fixed [OF assms] by simp
  then show ?thesis by (metis take_map)
qed

lemma save_all_saveToHistory:
  assumes "\<forall>s \<in> set (getItem_parsed ANALYSIS_KEY st). is_json (JObj s)"
      and "length (getItem_parsed ANALYSIS_KEY st) \<le> 10"
  shows "\<exists>st'. save_all saveToHistory ers st = Inr st' \<and>
           getItem_parsed ANALYSIS_KEY st' =
             take 10 (rev (map (\<lambda>(e, r). json_fields (newEntry e r)) ers) @ getItem_parsed ANALYSIS_KEY st)"
  using assms
proof (induction ers arbitrary: st)
  case Nil
  then show ?case by simp
next
  case (Cons er ers)
  obtain e r where er: "er = (e, r)" by (cases er)
  let ?cs = "getItem_parsed ANALYSIS_KEY st"
  let ?f = "\<lambda>(e, r). json_fields (newEntry e r)"
  have json: "\<forall>s \<in> set ?cs. is_json (JObj s)" using Cons.prems by blast
  obtain st1 where s1: "saveToHistory e r st = Inr st1"
    and l1: "getItem_parsed ANALYSIS_KEY st1 = map json_fields (take 10 (newEntry e r # ?cs))"
    using saveToHistory_local by blast
  have l1': "getItem_parsed ANALYSIS_KEY st1 = take 10 (json_fields (newEntry e r) # ?cs)"
    using l1 unfolding map_json_fields_step [OF json] .
  have j1: "\<forall>s \<in> set (getItem_parsed ANALYSIS_KEY st1). is_json (JObj s)"
    unfolding l1' using json json_fields_is_json
    by (metis in_set_takeD set_ConsD)
  have n1: "length (getItem_parsed ANALYSIS_KEY st1) \<le> 10"
    unfolding l1' by simp
  obtain st' where s': "save_all saveToHistory ers st1 = Inr st'"
    and l': "getItem_parsed ANALYSIS_KEY st' =
           take 10 (rev (map ?f ers) @ getItem_parsed ANALYSIS_KEY st1)"
    using Cons.IH [OF j1 n1] by blast
  have "rev (map ?f (er # ers)) @ ?cs = rev (map ?f ers) @ json_fields (newEntry e r) # ?cs"
    using er by simp
  then have "getItem_parsed ANALYSIS_KEY st' = take 10 (rev (map ?f (er # ers)) @ ?cs)"
    unfolding l' l1' take_append_take by simp
  then show ?case using s1 s' er by simp
qed

lemma save_all_saveGeneration:
  assumes "\<forall>s \<in> set (getItem_parsed TOOLS_KEY st). is_json (JObj s)"
      and "length (getItem_parsed TOOLS_KEY st) \<le> 10"
  shows "\<exists>st'. save_all saveGeneration ers st = Inr st' \<and>
           getItem_parsed TOOLS_KEY st' =
             take 10 (rev (map (\<lambda>(e, r). json_fields r) ers) @ getItem_parsed TOOLS_KEY st)"
  using assms
proof (induction ers arbitrary: st)
  case Nil
  then show ?case by simp
next
  case (Cons er ers)
  obtain e r where er: "er = (e, r)" by (cases er)
  let ?cs = "getItem_parsed TOOLS_KEY st"
  let ?f = "\<lambda>(e :: env, r). json_fields r"
  have json: "\<forall>s \<in> set ?cs. is_json (JObj s)" using Cons.prems by blast
  obtain st1 where s1: "saveGeneration e r st = Inr st1"
    and l1: "getItem_parsed TOOLS_KEY st1 = map json_fields (take 10 (r # ?cs))"
    using saveGeneration_local by blast
  have l1': "getItem_parsed TOOLS_KEY st1 = take 10 (json_fields r # ?cs)"
    using l1 unfolding map_json_fields_step [OF json] .
  have j1: "\<forall>s \<in> set (getItem_parsed TOOLS_KEY st1). is_json (JObj s)"
    unfolding l1' using json json_fields_is_json
    by (metis in_set_takeD set_ConsD)
  have n1: "length (getItem_parsed TOOLS_KEY st1) \<le> 10"
    unfolding l1' by simp
  obtain st' where s': "save_all saveGeneration ers st1 = Inr st'"
    and l': "getItem_parsed TOOLS_KEY st' =
           take 10 (rev (map ?f ers) @ getItem_parsed TOOLS_KEY st1)"
    using Cons.IH [OF j1 n1] by blast
  have "rev (map ?f (er # ers)) @ ?cs = rev (map ?f ers) @ json_fields r # ?cs"
    using er by simp
  then have "getItem_parsed TOOLS_KEY st' = take 10 (rev (map ?f (er # ers)) @ ?cs)"
    unfolding l' l1' take_append_take by simp
  then show ?case using s1 s' er by simp
qed

lemma saveChatSession_length:
  "\<exists>st'. saveChatSession e s st = Inr st' \<and>
     length (getItem_parsed CHAT_KEY st') \<le> max 5 (length (getItem_parsed CHAT_KEY st)) \<and>
     (findIndex (\<lambda>x. strict_eq (field x ''id'') (field s ''id'')) (getItem_parsed CHAT_KEY st) = None \<longrightarrow>
        getItem_parsed CHAT_KEY st' = map json_fields (take 5 (s # getItem_parsed CHAT_KEY st)))"
proof -
  obtain st' where s: "saveChatSession e s st = Inr st'"
    and l: "getItem_parsed CHAT_KEY st' =
       map json_fields
         (case findIndex (\<lambda>x. strict_eq (field x ''id'') (field s ''id'')) (getItem_parsed CHAT_KEY st) of
            Some i \<Rightarrow> (getItem_parsed CHAT_KEY st)[i := s]
          | None \<Rightarrow> take 5 (s # getItem_parsed CHAT_KEY st))"
    using saveChatSession_local by blast
  have a: "length (getItem_parsed CHAT_KEY st') \<le> max 5 (length (getItem_parsed CHAT_KEY st))"
    unfolding l by (auto split: option.splits)
  have b: "findIndex (\<lambda>x. strict_eq (field x ''id'') (field s ''id'')) (getItem_parsed CHAT_KEY st) = None \<longrightarrow>
        getItem_parsed CHAT_KEY st' = map json_fields (take 5 (s # getItem_parsed CHAT_KEY st))"
    unfolding l by simp
  show ?thesis
    by (rule exI [of _ st']) (intro conjI s a b)
qed

lemma save_all_saveChatSession:
  assumes "length (getItem_parsed CHAT_KEY st) \<le> 5"
  shows "\<exists>st'. save_all saveChatSession ers st = Inr st' \<and> length (getItem_parsed CHAT_KEY st') \<le> 5"
  using assms
proof (induction ers arbitrary: st)
  case Nil
  then show ?case by simp
next
  case (Cons er ers)
  obtain e r where er: "er = (e, r)" by (cases er)
  obtain st1 where s1: "saveChatSession e r st = Inr st1"
    and n1: "length (getItem_parsed CHAT_KEY st1) \<le> max 5 (length (getItem_parsed CHAT_KEY st))"
    using saveChatSession_length by blast
  have "length (getItem_parsed CHAT_KEY st1) \<le> 5" using n1 Cons.prems by simp
  from Cons.IH [OF this] s1 er show ?case by simp
qed

lemma signed_in_active: "isRealBackendAvailable signed_in"
  by (simp add: isRealBackendAvailable_def signed_in_def fresh_def)

lemma json_fields_analysis: "ident \<noteq> [] \<Longrightarrow> json_fields (newEntry e (analysis ident)) = stored_analysis ident"
  by (simp add: json_fields_def newEntry_def analysis_def stored_analysis_def field_def)

subsection \<open>Normalising the chat history\<close>

lemma trim_empty_iff: "trim s = [] \<longleftrightarrow> (\<forall>c \<in> set s. is_ws c)"
proof -
  have "trim s = [] \<longleftrightarrow> (\<forall>c \<in> set (dropWhile is_ws s). is_ws c)"
    by (simp add: trim_def dropWhile_eq_Nil_conv)
  also have "\<dots> \<longleftrightarrow> dropWhile is_ws s = []"
  proof
    assume a: "\<forall>c \<in> set (dropWhile is_ws s). is_ws c"
    show "dropWhile is_ws s = []"
    proof (cases "dropWhile is_ws s")
      case Nil
      then show ?thesis .
    next
      case (Cons c cs)
      then have "\<not> is_ws c" using hd_dropWhile [of is_ws s] by auto
      moreover have "is_ws c" using a Cons by simp
      ultimately show ?thesis by simp
    qed
  next
    assume "dropWhile is_ws s = []"
    then show "\<forall>c \<in> set (dropWhile is_ws s). is_ws c" by (simp only: list.set ball_empty)
  qed
  also have "\<dots> \<longleftrightarrow> (\<forall>c \<in> set s. is_ws c)"
    by (simp add: dropWhile_eq_Nil_conv)
  finally show ?thesis .
qed

lemma keep_part_has_content: "keep_part p = has_content p"
proof (cases "part_text p")
  case None
  then show ?thesis by (simp add: keep_part_def has_content_def)
next
  case (Some t)
  have "(t \<noteq> [] \<and> length (trim t) > 0) \<longleftrightarrow> list_ex (\<lambda>c. \<not> is_ws c) t"
    using trim_empty_iff [of t] by (auto simp: list_ex_iff)
  then show ?thesis using Some by (simp add: keep_part_def has_content_def)
qed

lemma shift_leading_dropWhile: "shift_leading ts = dropWhile (\<lambda>t. role t \<noteq> ''user'') ts"
  by (induction ts) simp_all

lemma validHistory_spec: "validHistory history = spec_normalize history"
proof -
  have k: "keep_part = has_content"
    by (rule ext) (rule keep_part_has_content)
  have m: "(\<lambda>item. \<lparr>role = role item, parts = filter has_content (parts item)\<rparr>)
         = (\<lambda>t. t\<lparr>parts := filter has_content (parts t)\<rparr>)"
    by (rule ext) simp
  show ?thesis
    by (simp add: validHistory_def spec_normalize_def shift_leading_dropWhile k m)
qed

lemma spec_normalize_example:
  "spec_normalize spec_example =
     [\<lparr>role = ''user'', parts = [text_part ''hi'']\<rparr>,
      \<lparr>role = ''model'', parts = [text_part ''hello'']\<rparr>]"
  by (simp add: spec_normalize_def spec_example_def has_content_def text_part_def is_ws_def)

subsection \<open>Writing a document under its id\<close>

lemma field_Cons:
  "field ((k', v) # r) k = (if k' = k then v else field r k)"
  by (simp add: field_def)

lemma field_strip_fields:
  "field d k = JStr s \<Longrightarrow> field (strip_fields d) k = JStr s"
proof (induction d)
  case Nil
  then show ?case by (simp add: field_def)
next
  case (Cons kv d)
  obtain k' v where kv: "kv = (k', v)" by (cases kv)
  show ?case
  proof (cases "k' = k")
    case True
    then have "v = JStr s" using Cons.prems kv by (simp add: field_Cons)
    then show ?thesis using True kv by (simp add: strip_fields_def field_Cons)
  next
    case False
    then have "field d k = JStr s" using Cons.prems kv by (simp add: field_Cons)
    from Cons.IH [OF this] False kv show ?thesis
      by (simp add: strip_fields_def field_Cons)
  qed
qed

lemma field_json_fields:
  "field d k = JStr s \<Longrightarrow> field (json_fields d) k = JStr s"
proof (induction d)
  case Nil
  then show ?case by (simp add: field_def)
next
  case (Cons kv d)
  obtain k' v where kv: "kv = (k', v)" by (cases kv)
  show ?case
  proof (cases "k' = k")
    case True
    then have "v = JStr s" using Cons.prems kv by (simp add: field_Cons)
    then show ?thesis using True kv by (simp add: json_fields_def field_Cons)
  next
    case False
    then have "field d k = JStr s" using Cons.prems kv by (simp add: field_Cons)
    from Cons.IH [OF this] False kv show ?thesis
      by (simp add: json_fields_def field_Cons)
  qed
qed

lemma sanitize_object:
  "plain_data (JObj d) \<Longrightarrow> no_proto_key (JObj d) \<Longrightarrow>
   sanitizeForFirestore (JObj d) = JObj (strip_fields d)"
  using sanitize_is_strip [of "JObj d"] by (simp add: strip_fields_def)

lemma assign_keys: "fst ` set (assign docs k v) = insert k (fst ` set docs)"
proof (induction docs)
  case Nil
  then show ?case by simp
next
  case (Cons d docs)
  obtain k' v' where d: "d = (k', v')" by (cases d)
  show ?case
  proof (cases "k' = k")
    case True
    then show ?thesis using d by simp
  next
    case False
    then show ?thesis using d Cons.IH by (simp add: insert_commute)
  qed
qed

lemma assign_distinct: "distinct (map fst docs) \<Longrightarrow> distinct (map fst (assign docs k v))"
proof (induction docs)
  case Nil
  then show ?case by simp
next
  case (Cons d docs)
  then show ?case
    using assign_keys [of docs k v] by (cases d) auto
qed

lemma cloud_write_with_id:
  assumes "plain_data (JObj d)" and "no_proto_key (JObj d)"
      and "field d ''id'' = JStr k" and "k \<noteq> []"
      and "sdk_doc e uid c (JStr k) = Inr ref"
      and "sdk_check e (JObj (strip_fields d)) = None"
      and "write_fault e = None"
  shows "cloud_write e uid c (JObj d) st =
     Inr (st\<lparr>firestore := (firestore st)(ref := Some (JObj (strip_fields d)))\<rparr>)"
proof -
  have clean: "sanitizeForFirestore (JObj d) = JObj (strip_fields d)"
    by (rule sanitize_object [OF assms(1,2)])
  have ident: "get_member (JObj (strip_fields d)) ''id'' = Inr (JStr k)"
    using field_strip_fields [OF assms(3)] by simp
  show ?thesis
    unfolding cloud_write_def clean Let_def ident
    using assms(4-7) by (simp add: setDoc_def)
qed

lemma saveToDatabase_with_id:
  assumes "isRealBackendAvailable st" and "currentUser st = Some uid"
      and "plain_data (JObj d)" and "no_proto_key (JObj d)"
      and "field d ''id'' = JStr k" and "k \<noteq> []"
      and "sdk_doc e uid c (JStr k) = Inr ref"
      and "sdk_check e (JObj (strip_fields d)) = None"
      and "write_fault e = None"
  shows "saveToDatabase e c (JObj d) st =
     Inr (st\<lparr>firestore := (firestore st)(ref := Some (JObj (strip_fields d)))\<rparr>)"
  using assms(1,2) cloud_write_with_id [OF assms(3-9)]
  by (simp add: saveToDatabase_def)

lemma isRealBackendAvailable_firestore [simp]:
  "isRealBackendAvailable (st\<lparr>firestore := f\<rparr>) = isRealBackendAvailable st"
  by (simp add: isRealBackendAvailable_def)

subsection \<open>Saving twice under one id\<close>

lemma field_assign: "field (assign r k v) k' = (if k' = k then v else field r k')"
  by (induction r) (auto simp: field_Cons field_def)

lemma assign_values: "(k', v') \<in> set (assign r k v) \<Longrightarrow> v' = v \<or> (k', v') \<in> set r"
  using assign_set [of r k v] by auto

lemma plain_data_assign:
  assumes "plain_data (JObj r)" and "plain_data v"
  shows "plain_data (JObj (assign r k v))"
proof -
  have "distinct (map fst (assign r k v))"
    using assms(1) by (simp add: assign_distinct)
  moreover have "\<forall>(k', v') \<in> set (assign r k v). plain_data v'"
    using assms assign_values [of _ _ r k v] by fastforce
  ultimately show ?thesis by simp
qed

lemma plain_data_newEntry:
  "plain_data (JObj r) \<Longrightarrow> plain_data (JObj (newEntry e r))"
proof -
  assume d: "plain_data (JObj r)"
  have v: "plain_data (field r k)" for k
  proof (cases "map_of r k")
    case None
    then show ?thesis by (simp add: field_def)
  next
    case (Some v)
    then have "(k, v) \<in> set r" by (rule map_of_SomeD)
    then show ?thesis using d Some by (auto simp: field_def)
  qed
  show ?thesis
    unfolding newEntry_def
    by (intro plain_data_assign d) (simp_all add: v)
qed

lemma newEntry_id: "field r ''id'' = JStr k \<Longrightarrow> k \<noteq> [] \<Longrightarrow> field (newEntry e r) ''id'' = JStr k"
  by (simp add: newEntry_def field_assign)

lemma setItem_json_state [simp]:
  "isRealBackendAvailable (setItem_json k xs st) = isRealBackendAvailable st"
  "currentUser (setItem_json k xs st) = currentUser st"
  by (simp_all add: setItem_json_def isRealBackendAvailable_def)

lemma saveToHistory_cloud_frame:
  "saveToDatabase e ''analyses'' (JObj (newEntry e r)) st = Inr a \<Longrightarrow>
   \<exists>st'. saveToHistory e r st = Inr st' \<and> firestore st' = firestore a \<and>
     isRealBackendAvailable st' = isRealBackendAvailable a \<and> currentUser st' = currentUser a"
  using saveToHistory_explicit [of e r st a] by simp

lemma saveChatSession_cloud_frame:
  "saveToDatabase e ''chats'' (JObj r) st = Inr a \<Longrightarrow>
   \<exists>st'. saveChatSession e r st = Inr st' \<and> firestore st' = firestore a \<and>
     isRealBackendAvailable st' = isRealBackendAvailable a \<and> currentUser st' = currentUser a"
  using saveChatSession_explicit [of e r st a] by simp

lemma saveGeneration_cloud_frame:
  "saveToDatabase e ''generations'' (JObj r) st = Inr a \<Longrightarrow>
   \<exists>st'. saveGeneration e r st = Inr st' \<and> firestore st' = firestore a \<and>
     isRealBackendAvailable st' = isRealBackendAvailable a \<and> currentUser st' = currentUser a"
  using saveGeneration_explicit [of e r st a] by simp

lemma save_twice_cloud:
  assumes frame: "\<And>e r st a. saveToDatabase e c (JObj (g e r)) st = Inr a \<Longrightarrow>
       \<exists>st'. f e r st = Inr st' \<and> firestore st' = firestore a \<and>
         isRealBackendAvailable st' = isRealBackendAvailable a \<and> currentUser st' = currentUser a"
      and act: "isRealBackendAvailable st" and user: "currentUser st = Some uid"
      and p1: "plain_data (JObj (g e1 r1))" and q1: "no_proto_key (JObj (g e1 r1))"
      and p2: "plain_data (JObj (g e2 r2))" and q2: "no_proto_key (JObj (g e2 r2))"
      and i1: "field (g e1 r1) ''id'' = JStr k" and i2: "field (g e2 r2) ''id'' = JStr k"
      and k: "k \<noteq> []"
      and d1: "sdk_doc e1 uid c (JStr k) = Inr ref" and d2: "sdk_doc e2 uid c (JStr k) = Inr ref"
      and c1: "sdk_check e1 (JObj (strip_fields (g e1 r1))) = None"
      and c2: "sdk_check e2 (JObj (strip_fields (g e2 r2))) = None"
      and w1: "write_fault e1 = None" and w2: "write_fault e2 = None"
  shows "\<exists>s1 s2. f e1 r1 st = Inr s1 \<and> f e2 r2 s1 = Inr s2 \<and>
           firestore s1 = (firestore st)(ref := Some (JObj (strip_fields (g e1 r1)))) \<and>
           firestore s2 = (firestore st)(ref := Some (JObj (strip_fields (g e2 r2))))"
proof -
  let ?a = "st\<lparr>firestore := (firestore st)(ref := Some (JObj (strip_fields (g e1 r1))))\<rparr>"
  have a: "saveToDatabase e1 c (JObj (g e1 r1)) st = Inr ?a"
    by (rule saveToDatabase_with_id [OF act user p1 q1 i1 k d1 c1 w1])
  obtain s1 where s1: "f e1 r1 st = Inr s1" and f1: "firestore s1 = firestore ?a"
    and act1: "isRealBackendAvailable s1 = isRealBackendAvailable ?a"
    and user1: "currentUser s1 = currentUser ?a"
    using frame [OF a] by blast
  have act1': "isRealBackendAvailable s1" using act1 act by simp
  have user1': "currentUser s1 = Some uid" using user1 user by simp
  let ?b = "s1\<lparr>firestore := (firestore s1)(ref := Some (JObj (strip_fields (g e2 r2))))\<rparr>"
  have b: "saveToDatabase e2 c (JObj (g e2 r2)) s1 = Inr ?b"
    by (rule saveToDatabase_with_id [OF act1' user1' p2 q2 i2 k d2 c2 w2])
  obtain s2 where s2: "f e2 r2 s1 = Inr s2" and f2: "firestore s2 = firestore ?b"
    using frame [OF b] by blast
  have g1: "firestore s1 = (firestore st)(ref := Some (JObj (strip_fields (g e1 r1))))"
    using f1 by simp
  have g2: "firestore s2 = (firestore st)(ref := Some (JObj (strip_fields (g e2 r2))))"
    using f2 g1 by simp
  show ?thesis
    by (intro exI [of _ s1] exI [of _ s2] conjI s1 s2 g1 g2)
qed

lemma filter_update_one:
  "findIndex P xs = Some i \<Longrightarrow> length (filter P xs) \<le> 1 \<Longrightarrow> P y \<Longrightarrow>
   filter P (xs[i := y]) = [y]"
proof (induction xs arbitrary: i)
  case Nil
  then show ?case by simp
next
  case (Cons x xs)
  show ?case
  proof (cases "P x")
    case True
    then have "i = 0" and "filter P xs = []" using Cons.prems by auto
    then show ?thesis using Cons.prems(3) by simp
  next
    case False
    then obtain i' where i': "findIndex P xs = Some i'" and i: "i = Suc i'"
      using Cons.prems(1) by auto
    have "length (filter P xs) \<le> 1" using Cons.prems(2) False by simp
    from Cons.IH [OF i' this Cons.prems(3)] False i show ?thesis by simp
  qed
qed

lemma filter_prepend_one:
  "findIndex P xs = None \<Longrightarrow> P y \<Longrightarrow> filter P (take (Suc n) (y # xs)) = [y]"
proof -
  assume none: "findIndex P xs = None" and y: "P y"
  have "\<forall>x \<in> set (take n xs). \<not> P x"
    using none by (auto simp: findIndex_None dest: in_set_takeD)
  then have "filter P (take n xs) = []" by (simp add: filter_empty_conv)
  then show ?thesis using y by simp
qed

lemma saveChatSession_one_entry:
  assumes json: "\<forall>s \<in> set (getItem_parsed CHAT_KEY st). is_json (JObj s)"
      and one: "length (filter (\<lambda>x. strict_eq (field x ''id'') (JStr k)) (getItem_parsed CHAT_KEY st)) \<le> 1"
      and ident: "field d ''id'' = JStr k"
  shows "\<exists>st'. saveChatSession e d st = Inr st' \<and>
           filter (\<lambda>x. strict_eq (field x ''id'') (JStr k)) (getItem_parsed CHAT_KEY st') = [json_fields d] \<and>
           (\<forall>s \<in> set (getItem_parsed CHAT_KEY st'). is_json (JObj s))"
proof -
  let ?cs = "getItem_parsed CHAT_KEY st"
  let ?P = "\<lambda>x. strict_eq (field x ''id'') (JStr k)"
  obtain st' where s: "saveChatSession e d st = Inr st'"
    and l: "getItem_parsed CHAT_KEY st' =
       map json_fields
         (case findIndex ?P ?cs of
            Some i \<Rightarrow> ?cs[i := d]
          | None \<Rightarrow> take 5 (d # ?cs))"
    using saveChatSession_local [of e d st] ident by auto
  have Pd: "?P (json_fields d)"
    using field_json_fields [OF ident] by simp
  have jd: "is_json (JObj (json_fields d))" by (rule json_fields_is_json)
  have fixed: "map json_fields ?cs = ?cs" by (rule map_json_fields_fixed [OF json])
  show ?thesis
  proof (cases "findIndex ?P ?cs")
    case None
    have l': "getItem_parsed CHAT_KEY st' = take (Suc 4) (json_fields d # ?cs)"
      using l None map_json_fields_step [OF json, of 5 d] by (simp add: eval_nat_numeral)
    have f: "filter ?P (getItem_parsed CHAT_KEY st') = [json_fields d]"
      unfolding l' by (rule filter_prepend_one [OF None Pd])
    have j: "\<forall>s \<in> set (getItem_parsed CHAT_KEY st'). is_json (JObj s)"
      unfolding l' using json jd by (metis in_set_takeD set_ConsD)
    show ?thesis using s f j by blast
  next
    case (Some i)
    have l': "getItem_parsed CHAT_KEY st' = ?cs[i := json_fields d]"
      using l Some fixed by (simp add: map_update)
    have f: "filter ?P (getItem_parsed CHAT_KEY st') = [json_fields d]"
      unfolding l' by (rule filter_update_one [OF Some one Pd])
    have j: "\<forall>s \<in> set (getItem_parsed CHAT_KEY st'). is_json (JObj s)"
      unfolding l' using json jd set_update_subset_insert [of ?cs i "json_fields d"] by blast
    show ?thesis using s f j by blast
  qed
qed

lemma saveChatSession_twice_local:
  assumes json: "\<forall>s \<in> set (getItem_parsed CHAT_KEY st). is_json (JObj s)"
      and one: "length (filter (\<lambda>x. strict_eq (field x ''id'') (JStr k)) (getItem_parsed CHAT_KEY st)) \<le> 1"
      and i1: "field d1 ''id'' = JStr k" and i2: "field d2 ''id'' = JStr k"
  shows "\<exists>s1 s2. saveChatSession e1 d1 st = Inr s1 \<and> saveChatSession e2 d2 s1 = Inr s2 \<and>
           filter (\<lambda>x. strict_eq (field x ''id'') (JStr k)) (getItem_parsed CHAT_KEY s2) = [json_fields d2]"
proof -
  obtain s1 where s1: "saveChatSession e1 d1 st = Inr s1"
    and f1: "filter (\<lambda>x. strict_eq (field x ''id'') (JStr k)) (getItem_parsed CHAT_KEY s1) = [json_fields d1]"
    and j1: "\<forall>s \<in> set (getItem_parsed CHAT_KEY s1). is_json (JObj s)"
    using saveChatSession_one_entry [OF json one i1] by blast
  have one1: "length (filter (\<lambda>x. strict_eq (field x ''id'') (JStr k)) (getItem_parsed CHAT_KEY s1)) \<le> 1"
    unfolding f1 by simp
  obtain s2 where s2: "saveChatSession e2 d2 s1 = Inr s2"
    and f2: "filter (\<lambda>x. strict_eq (field x ''id'') (JStr k)) (getItem_parsed CHAT_KEY s2) = [json_fields d2]"
    using saveChatSession_one_entry [OF j1 one1 i2] by blast
  show ?thesis using s1 s2 f2 by blast
qed

lemma json_fields_revised_analysis:
  "ident \<noteq> [] \<Longrightarrow> json_fields (newEntry e (revised_analysis ident)) = stored_revised_analysis ident"
  by (simp add: json_fields_def newEntry_def revised_analysis_def stored_revised_analysis_def field_def)

lemma getItem_parsed_fresh: "getItem_parsed k (fresh d u) = []"
  by (simp add: getItem_parsed_def fresh_def)

lemma save_all_two_saveToHistory:
  assumes "\<forall>s \<in> set (getItem_parsed ANALYSIS_KEY st). is_json (JObj s)"
      and "length (getItem_parsed ANALYSIS_KEY st) \<le> 10"
  shows "\<exists>s'. save_all saveToHistory [(e1, r1), (e2, r2)] st = Inr s' \<and>
           getItem_parsed ANALYSIS_KEY s' =
             take 10 (json_fields (newEntry e2 r2) # json_fields (newEntry e1 r1) #
                      getItem_parsed ANALYSIS_KEY st)"
  using save_all_saveToHistory [OF assms, of "[(e1, r1), (e2, r2)]"]
  by (simp del: save_all.simps take_Cons_numeral)

lemma save_all_two_saveGeneration:
  assumes "\<forall>s \<in> set (getItem_parsed TOOLS_KEY st). is_json (JObj s)"
      and "length (getItem_parsed TOOLS_KEY st) \<le> 10"
  shows "\<exists>s'. save_all saveGeneration [(e1, r1), (e2, r2)] st = Inr s' \<and>
           getItem_parsed TOOLS_KEY s' =
             take 10 (json_fields r2 # json_fields r1 # getItem_parsed TOOLS_KEY st)"
  using save_all_saveGeneration [OF assms, of "[(e1, r1), (e2, r2)]"]
  by (simp del: save_all.simps take_Cons_numeral)

lemma fresh_active: "isRealBackendAvailable (fresh True (Some u))"
  by (simp add: isRealBackendAvailable_def fresh_def)

lemma chat_plain:
  "strip_fields (chat i m) = chat i m" "json_fields (chat i m) = chat i m"
  "field (chat i m) ''id'' = JStr i" "plain_data (JObj (chat i m))"
  by (simp_all add: strip_fields_def json_fields_def chat_def field_def)

subsection \<open>Saving and loading without the cloud\<close>

lemma assign_same: "map_of r k = Some v \<Longrightarrow> assign r k v = r"
  by (induction r) (auto split: if_splits)

lemma truthy_field: "truthy (field r k) \<Longrightarrow> map_of r k = Some (field r k)"
  by (cases "map_of r k") (simp_all add: field_def)

lemma newEntry_unchanged:
  assumes "truthy (field r ''id'')" and "truthy (field r ''timestamp'')"
  shows "newEntry e r = r"
proof -
  have a: "assign r ''id'' (field r ''id'') = r"
    by (rule assign_same [OF truthy_field [OF assms(1)]])
  have b: "assign r ''timestamp'' (field r ''timestamp'') = r"
    by (rule assign_same [OF truthy_field [OF assms(2)]])
  show ?thesis using assms a b by (simp add: newEntry_def)
qed

lemma no_undefined_element_field:
  "no_undefined_element (JObj r) \<Longrightarrow> no_undefined_element (field r k)"
proof (cases "map_of r k")
  case None
  then show ?thesis by (simp add: field_def)
next
  case (Some v)
  assume n: "no_undefined_element (JObj r)"
  have "(k, v) \<in> set r" using Some by (rule map_of_SomeD)
  then show ?thesis using n Some by (auto simp: field_def)
qed

lemma no_undefined_element_assign:
  assumes "no_undefined_element (JObj r)" and "no_undefined_element v"
  shows "no_undefined_element (JObj (assign r k v))"
  using assms assign_values [of _ _ r k v] by fastforce

lemma no_undefined_element_newEntry:
  "no_undefined_element (JObj r) \<Longrightarrow> no_undefined_element (JObj (newEntry e r))"
  unfolding newEntry_def
  by (intro no_undefined_element_assign) (simp_all add: no_undefined_element_field)

lemma newEntry_with_id:
  assumes "truthy (field r ''id'')"
  shows "newEntry e r =
     assign r ''timestamp''
       (if truthy (field r ''timestamp'') then field r ''timestamp'' else JNum (now e))"
  using assms assign_same [OF truthy_field [OF assms]] by (simp add: newEntry_def)

lemma newEntry_absent:
  assumes "map_of r ''id'' = None" and "map_of r ''timestamp'' = None"
  shows "newEntry e r = r @ [(''id'', JStr (randomUUID e)), (''timestamp'', JNum (now e))]"
proof -
  have i: "''id'' \<notin> fst ` set r" and t: "''timestamp'' \<notin> fst ` set r"
    using assms by (simp_all add: map_of_eq_None_iff)
  have t': "''timestamp'' \<notin> fst ` set (r @ [(''id'', JStr (randomUUID e))])"
    using t by simp
  have f: "field r ''id'' = JUndefined" "field r ''timestamp'' = JUndefined"
    using assms by (simp_all add: field_def)
  show ?thesis
    unfolding newEntry_def f using assign_fresh [OF i] assign_fresh [OF t'] by simp
qed

lemma strip_fields_append: "strip_fields (a @ b) = strip_fields a @ strip_fields b"
  by (simp add: strip_fields_def)

lemma no_proto_key_field:
  "no_proto_key (JObj r) \<Longrightarrow> no_proto_key (field r k)"
proof (cases "map_of r k")
  case None
  then show ?thesis by (simp add: field_def)
next
  case (Some v)
  assume n: "no_proto_key (JObj r)"
  have "(k, v) \<in> set r" using Some by (rule map_of_SomeD)
  then show ?thesis using n Some by (auto simp: field_def)
qed

lemma no_proto_key_assign:
  assumes "no_proto_key (JObj r)" and "no_proto_key v" and "k \<noteq> ''__proto__''"
  shows "no_proto_key (JObj (assign r k v))"
proof -
  have "''__proto__'' \<notin> fst ` set (assign r k v)"
    using assms(1,3) by (simp add: assign_keys)
  moreover have "\<forall>(k', v') \<in> set (assign r k v). no_proto_key v'"
    using assms assign_values [of _ _ r k v] by fastforce
  ultimately show ?thesis by simp
qed

lemma no_proto_key_newEntry:
  "no_proto_key (JObj r) \<Longrightarrow> no_proto_key (JObj (newEntry e r))"
  unfolding newEntry_def
  by (intro no_proto_key_assign) (simp_all add: no_proto_key_field)

lemma example_doc_path:
  "k \<noteq> [] \<Longrightarrow> CHR ''/'' \<notin> set k \<Longrightarrow> sdk_doc env0 uid c (JStr k) = Inr [''users'', uid, c, k]"
  by (simp add: env0_def example_doc_def)

lemma example_check_json: "is_json v \<Longrightarrow> sdk_check env0 v = None"
  by (simp add: env0_def example_check_def)

lemma load_inactive:
  assumes "\<not> isRealBackendAvailable st"
  shows "getHistory snapshot st = Inr (getItem_parsed ANALYSIS_KEY st, st)"
    and "getChatHistory snapshot st = Inr (getItem_parsed CHAT_KEY st, st)"
    and "getGenerationHistory snapshot st = Inr (getItem_parsed TOOLS_KEY st, st)"
  using assms
  by (simp_all add: getHistory_def getChatHistory_def getGenerationHistory_def getFromDatabase_def)

lemma save_inactive:
  assumes "\<not> isRealBackendAvailable st"
  shows "saveToHistory e r st =
           Inr (setItem_json ANALYSIS_KEY (take 10 (newEntry e r # getItem_parsed ANALYSIS_KEY st)) st)"
    and "saveGeneration e r st =
           Inr (setItem_json TOOLS_KEY (take 10 (r # getItem_parsed TOOLS_KEY st)) st)"
    and "saveChatSession e r st =
           Inr (setItem_json CHAT_KEY
                 (case findIndex (\<lambda>x. strict_eq (field x ''id'') (field r ''id''))
                         (getItem_parsed CHAT_KEY st) of
                    Some i \<Rightarrow> (getItem_parsed CHAT_KEY st)[i := r]
                  | None \<Rightarrow> take 5 (r # getItem_parsed CHAT_KEY st)) st)"
  using saveToHistory_explicit [OF saveToDatabase_inactive [OF assms]]
    saveGeneration_explicit [OF saveToDatabase_inactive [OF assms]]
    saveChatSession_explicit [OF saveToDatabase_inactive [OF assms]]
  by simp_all

lemma save_then_load_history_inactive:
  assumes "\<not> isRealBackendAvailable st"
  shows "save_then_load saveToHistory getHistory e r snapshot st =
           Inr (json_fields (newEntry e r) #
                map json_fields (take 9 (getItem_parsed ANALYSIS_KEY st)))"
  using assms
  by (simp add: save_then_load_def save_inactive(1) load_inactive(1) getItem_setItem_same)

lemma save_then_load_generation_inactive:
  assumes "\<not> isRealBackendAvailable st"
  shows "save_then_load saveGeneration getGenerationHistory e r snapshot st =
           Inr (json_fields r # map json_fields (take 9 (getItem_parsed TOOLS_KEY st)))"
  using assms
  by (simp add: save_then_load_def save_inactive(2) load_inactive(3) getItem_setItem_same)

lemma save_then_load_chat_inactive:
  assumes "\<not> isRealBackendAvailable st"
  shows "save_then_load saveChatSession getChatHistory e r snapshot st =
           Inr (map json_fields
                 (case findIndex (\<lambda>x. strict_eq (field x ''id'') (field r ''id''))
                         (getItem_parsed CHAT_KEY st) of
                    Some i \<Rightarrow> (getItem_parsed CHAT_KEY st)[i := r]
                  | None \<Rightarrow> take 5 (r # getItem_parsed CHAT_KEY st)))"
  using assms
  by (simp add: save_then_load_def save_inactive(3) load_inactive(2) getItem_setItem_same)

lemma two_chats_offline_inactive: "\<not> isRealBackendAvailable two_chats_offline"
  by (simp add: two_chats_offline_def isRealBackendAvailable_def fresh_def)

lemma two_chats_offline_chats:
  "getItem_parsed CHAT_KEY two_chats_offline = [chat ''a'' ''1'', chat ''b'' ''2'']"
  by (simp add: two_chats_offline_def getItem_parsed_def)

lemma fresh_inactive: "\<not> isRealBackendAvailable (fresh False u)"
  by (simp add: isRealBackendAvailable_def fresh_def)

subsection \<open>Grounding links\<close>

lemma get_member_defined:
  "c \<noteq> JUndefined \<Longrightarrow> c \<noteq> JNull \<Longrightarrow> get_member c k = Inr (opt_member c k)"
  by (cases c) simp_all

lemma truthy_opt_member: "truthy (opt_member w k) \<Longrightarrow> w \<noteq> JUndefined \<and> w \<noteq> JNull"
  by (cases w) simp_all

lemma web_chunks_filter:
  "\<forall>c \<in> set cs. c \<noteq> JUndefined \<and> c \<noteq> JNull \<Longrightarrow> web_chunks cs = Inr (filter has_web_uri cs)"
  by (induction cs) (simp_all add: get_member_defined has_web_uri_def)

lemma link_records_map:
  "\<forall>c \<in> set ws. has_web_uri c \<Longrightarrow> link_records ws = Inr (map link_of ws)"
proof (induction ws)
  case Nil
  then show ?case by simp
next
  case (Cons c ws)
  have u: "truthy (opt_member (opt_member c ''web'') ''uri'')"
    using Cons.prems by (simp add: has_web_uri_def)
  have w: "opt_member c ''web'' \<noteq> JUndefined \<and> opt_member c ''web'' \<noteq> JNull"
    by (rule truthy_opt_member [OF u])
  have c: "c \<noteq> JUndefined \<and> c \<noteq> JNull"
    using w by (cases c) simp_all
  have rest: "link_records ws = Inr (map link_of ws)"
    using Cons by simp
  show ?case
    using c w rest by (simp add: get_member_defined link_of_def)
qed

lemma searchLinks_of_chunks:
  assumes "\<forall>c \<in> set cs. c \<noteq> JUndefined \<and> c \<noteq> JNull"
  shows "(case web_chunks cs of Inl err \<Rightarrow> Inl err | Inr ws \<Rightarrow> link_records ws)
           = Inr (map link_of (filter has_web_uri cs))"
  using web_chunks_filter [OF assms] link_records_map [of "filter has_web_uri cs"] by simp

lemma analyzeProductImage_ungrounded:
  assumes "\<not> truthy (groundingChunks r)" and "response_text r = Some txt" and "txt \<noteq> []"
      and "JSON_parse txt = Inr result"
  shows "analyzeProductImage (Inr r) JSON_parse = Inr result"
  using assms by (simp add: analyzeProductImage_def)

lemma analyzeProductImage_grounded:
  assumes "groundingChunks r = JArr cs" and "\<forall>c \<in> set cs. c \<noteq> JUndefined \<and> c \<noteq> JNull"
      and "response_text r = Some txt" and "txt \<noteq> []" and "JSON_parse txt = Inr (JObj ob)"
  shows "analyzeProductImage (Inr r) JSON_parse =
           Inr (JObj (assign ob ''searchLinks'' (JArr (map link_of (filter has_web_uri cs)))))"
  using assms(1,3,4,5) web_chunks_filter [OF assms(2)] link_records_map [of "filter has_web_uri cs"]
  by (simp add: analyzeProductImage_def)

lemma analyzeProductImage_no_text:
  "response_text r = None \<or> response_text r = Some [] \<Longrightarrow>
   analyzeProductImage (Inr r) JSON_parse = Inl (Error ''No response from Gemini'')"
  by (auto simp: analyzeProductImage_def)

lemma groundingChunks_with_chunks: "groundingChunks (with_chunks chunks) = chunks"
  by (simp add: groundingChunks_def with_chunks_def field_def)

lemma groundingChunks_ungrounded: "groundingChunks ungrounded = JUndefined"
  by (simp add: groundingChunks_def ungrounded_def field_def)

subsection \<open>The result of an analysis\<close>

lemma analyzeProductImage_keeps_fields:
  assumes "response_text r = Some txt" and "JSON_parse txt = Inr (JObj ob)"
      and "analyzeProductImage (Inr r) JSON_parse = Inr res" and "k \<noteq> ''searchLinks''"
  shows "\<exists>ob'. res = JObj ob' \<and> field ob' k = field ob k"
  using assms
  by (auto simp: analyzeProductImage_def Let_def field_assign
      split: if_splits jsval.splits sum.splits)

lemma field_newEntry:
  "field (newEntry e r) ''id'' =
     (if truthy (field r ''id'') then field r ''id'' else JStr (randomUUID e))"
  "field (newEntry e r) ''timestamp'' =
     (if truthy (field r ''timestamp'') then field r ''timestamp'' else JNum (now e))"
  by (simp_all add: newEntry_def field_assign)

lemma saveToHistory_head:
  "\<exists>st' rest. saveToHistory e r st = Inr st' \<and>
     getItem_parsed ANALYSIS_KEY st' = json_fields (newEntry e r) # rest"
  using saveToHistory_local [of e r st] by auto

subsection \<open>The generated image\<close>

lemma first_image_find:
  "\<forall>p \<in> set ps. p \<noteq> JUndefined \<and> p \<noteq> JNull \<Longrightarrow>
   first_image ps = Inr (case find carries_image ps of None \<Rightarrow> JNull | Some p \<Rightarrow> data_uri p)"
proof (induction ps)
  case Nil
  then show ?case by simp
next
  case (Cons p ps)
  have p: "get_member p ''inlineData'' = Inr (opt_member p ''inlineData'')"
    using Cons.prems by (simp add: get_member_defined)
  have t: "truthy (opt_member (opt_member p ''inlineData'') ''data'') \<Longrightarrow>
           truthy (opt_member p ''inlineData'')"
    by (cases "opt_member p ''inlineData''") simp_all
  have js: "js_string (JStr ''image/png'') = ''image/png''" by simp
  show ?case
  proof (cases "carries_image p")
    case True
    then show ?thesis
      using p t by (simp add: carries_image_def data_uri_def Let_def del: js_string.simps) (simp)
  next
    case False
    then show ?thesis
      using p Cons by (simp add: carries_image_def)
  qed
qed

lemma generateCustomImage_parts:
  "candidates r = JArr (JObj c # cs) \<Longrightarrow> field c ''content'' = JObj content \<Longrightarrow>
   field content ''parts'' = JArr ps \<Longrightarrow> generateCustomImage (Inr r) = first_image ps"
  by (simp add: generateCustomImage_def)

lemma generateCustomImage_no_candidates:
  "\<not> truthy (candidates r) \<or> candidates r = JArr [] \<Longrightarrow> generateCustomImage (Inr r) = Inr JNull"
  by (cases "candidates r") (auto simp: generateCustomImage_def split: list.splits)

section \<open>Claims\<close>

text \<open>
  C1, as the claim states it, fails in two ways with cloud mode inactive. An analysis saved
  without an id comes back from \<^verbatim>\<open>getHistory\<close> with the id and time stamp that
  \<^verbatim>\<open>saveToHistory\<close> gave it, which the record with its undefined fields removed does not have.
  A chat session whose id is already stored further down the list is written back in its
  place, so the head of \<^verbatim>\<open>getChatHistory\<close> is another session.
\<close>

theorem roundtrip_strips_undefined_counterexample:
  "save_then_load saveToHistory getHistory env0 bare_analysis (Inr []) (fresh False None)
     = Inr [[(''productName'', JStr ''Kettle''), (''id'', JStr ''uuid-1''), (''timestamp'', JNum 1000)]]
   \<and> strip_fields bare_analysis = [(''productName'', JStr ''Kettle'')]
   \<and> save_then_load saveChatSession getChatHistory env0 (chat ''b'' ''3'') (Inr []) two_chats_offline
     = Inr [chat ''a'' ''1'', chat ''b'' ''3'']
   \<and> strip_fields (chat ''b'' ''3'') = chat ''b'' ''3''"
proof -
  have a: "save_then_load saveToHistory getHistory env0 bare_analysis (Inr []) (fresh False None)
     = Inr [[(''productName'', JStr ''Kettle''), (''id'', JStr ''uuid-1''), (''timestamp'', JNum 1000)]]"
    unfolding save_then_load_history_inactive [OF fresh_inactive]
    by (simp add: getItem_parsed_fresh json_fields_def newEntry_def bare_analysis_def field_def env0_def)
  have b: "strip_fields bare_analysis = [(''productName'', JStr ''Kettle'')]"
    by (simp add: strip_fields_def bare_analysis_def)
  have c: "save_then_load saveChatSession getChatHistory env0 (chat ''b'' ''3'') (Inr []) two_chats_offline
     = Inr [chat ''a'' ''1'', chat ''b'' ''3'']"
    unfolding save_then_load_chat_inactive [OF two_chats_offline_inactive] two_chats_offline_chats
    by (simp add: chat_def field_def json_fields_def)
  have d: "strip_fields (chat ''b'' ''3'') = chat ''b'' ''3''"
    by (rule chat_plain)
  show ?thesis by (intro conjI a b c d)
qed

text \<open>
  C1, amended. For a value built from primitives, arrays and plain objects, none of which has
  an own property named \<^verbatim>\<open>__proto__\<close>, \<^verbatim>\<open>sanitizeForFirestore\<close> returns the value with every
  undefined-valued object field recursively removed (a field named \<^verbatim>\<open>__proto__\<close> is lost or
  becomes the prototype of the result); for every value, no object of the result has an
  undefined-valued field. With cloud mode inactive and a record of such plain data none of
  whose arrays has an undefined element: after \<^verbatim>\<open>saveToHistory\<close> the head of \<^verbatim>\<open>getHistory\<close>
  is the record with \<^verbatim>\<open>id\<close> set to its id when that is truthy and to a new UUID otherwise,
  and \<^verbatim>\<open>timestamp\<close> set to its time stamp when that is truthy and to the current time
  otherwise (each in the place of the field when the record has it, and added last when not),
  with every undefined-valued field recursively removed. That is the stripped record followed
  by the new id and time stamp when the record has neither field, and the stripped record
  itself when both are truthy. After \<^verbatim>\<open>saveGeneration\<close> the head of
  \<^verbatim>\<open>getGenerationHistory\<close> is the stripped record; after \<^verbatim>\<open>saveChatSession\<close> the stripped
  session is the head of \<^verbatim>\<open>getChatHistory\<close> when its id was not stored, and stands at the
  position of the first stored session with that id otherwise.
\<close>

theorem roundtrip_strips_undefined:
  "(plain_data v \<and> no_proto_key v \<longrightarrow> sanitizeForFirestore v = strip_undefined v)
   \<and> \<not> has_undefined_field (sanitizeForFirestore v)
   \<and> (\<not> isRealBackendAvailable st \<and> plain_data (JObj r) \<and> no_undefined_element (JObj r) \<longrightarrow>
        (\<exists>rest. save_then_load saveToHistory getHistory e r snapshot st
                  = Inr (strip_fields
                           (assign
                              (assign r ''id''
                                 (if truthy (field r ''id'') then field r ''id''
                                  else JStr (randomUUID e)))
                              ''timestamp''
                              (if truthy (field r ''timestamp'') then field r ''timestamp''
                               else JNum (now e))) # rest))
      \<and> (map_of r ''id'' = None \<and> map_of r ''timestamp'' = None \<longrightarrow>
           (\<exists>rest. save_then_load saveToHistory getHistory e r snapshot st
                     = Inr ((strip_fields r @
                             [(''id'', JStr (randomUUID e)), (''timestamp'', JNum (now e))]) # rest)))
      \<and> (truthy (field r ''id'') \<and> truthy (field r ''timestamp'') \<longrightarrow>
           (\<exists>rest. save_then_load saveToHistory getHistory e r snapshot st
                     = Inr (strip_fields r # rest)))
      \<and> (\<exists>rest. save_then_load saveGeneration getGenerationHistory e r snapshot st
                  = Inr (strip_fields r # rest))
      \<and> (findIndex (\<lambda>x. strict_eq (field x ''id'') (field r ''id'')) (getItem_parsed CHAT_KEY st) = None \<longrightarrow>
           (\<exists>rest. save_then_load saveChatSession getChatHistory e r snapshot st
                     = Inr (strip_fields r # rest)))
      \<and> (\<forall>i. findIndex (\<lambda>x. strict_eq (field x ''id'') (field r ''id'')) (getItem_parsed CHAT_KEY st) = Some i \<longrightarrow>
           (\<exists>xs. save_then_load saveChatSession getChatHistory e r snapshot st = Inr xs \<and>
                  i < length xs \<and> xs ! i = strip_fields r)))"
proof (intro conjI impI allI)
  assume "plain_data v \<and> no_proto_key v"
  then show "sanitizeForFirestore v = strip_undefined v" by (simp add: sanitize_is_strip)
next
  show "\<not> has_undefined_field (sanitizeForFirestore v)" by (rule sanitize_no_undefined_field)
next
  assume h: "\<not> isRealBackendAvailable st \<and> plain_data (JObj r) \<and> no_undefined_element (JObj r)"
  have "json_fields (newEntry e r) = strip_fields (newEntry e r)"
    using h by (intro json_fields_is_strip no_undefined_element_newEntry plain_data_newEntry) simp_all
  then have "\<exists>rest. save_then_load saveToHistory getHistory e r snapshot st
                  = Inr (strip_fields (newEntry e r) # rest)"
    using h save_then_load_history_inactive [of st e r snapshot] by simp
  then show "\<exists>rest. save_then_load saveToHistory getHistory e r snapshot st
                  = Inr (strip_fields
                           (assign
                              (assign r ''id''
                                 (if truthy (field r ''id'') then field r ''id''
                                  else JStr (randomUUID e)))
                              ''timestamp''
                              (if truthy (field r ''timestamp'') then field r ''timestamp''
                               else JNum (now e))) # rest)"
    unfolding newEntry_def .
next
  assume h: "\<not> isRealBackendAvailable st \<and> plain_data (JObj r) \<and> no_undefined_element (JObj r)"
    and a: "map_of r ''id'' = None \<and> map_of r ''timestamp'' = None"
  have n: "newEntry e r = r @ [(''id'', JStr (randomUUID e)), (''timestamp'', JNum (now e))]"
    using a by (intro newEntry_absent) simp_all
  have "json_fields (newEntry e r) = strip_fields (newEntry e r)"
    using h by (intro json_fields_is_strip no_undefined_element_newEntry plain_data_newEntry) simp_all
  then have "json_fields (newEntry e r) =
      strip_fields r @ [(''id'', JStr (randomUUID e)), (''timestamp'', JNum (now e))]"
    unfolding n strip_fields_append by (simp add: strip_fields_def)
  then show "\<exists>rest. save_then_load saveToHistory getHistory e r snapshot st
                     = Inr ((strip_fields r @
                             [(''id'', JStr (randomUUID e)), (''timestamp'', JNum (now e))]) # rest)"
    using h save_then_load_history_inactive [of st e r snapshot] by simp
next
  assume h: "\<not> isRealBackendAvailable st \<and> plain_data (JObj r) \<and> no_undefined_element (JObj r)"
    and t: "truthy (field r ''id'') \<and> truthy (field r ''timestamp'')"
  have n: "newEntry e r = r" using t by (intro newEntry_unchanged) simp_all
  have "json_fields r = strip_fields r"
    using h by (intro json_fields_is_strip) simp_all
  then show "\<exists>rest. save_then_load saveToHistory getHistory e r snapshot st
                     = Inr (strip_fields r # rest)"
    using h n save_then_load_history_inactive [of st e r snapshot] by simp
next
  assume h: "\<not> isRealBackendAvailable st \<and> plain_data (JObj r) \<and> no_undefined_element (JObj r)"
  have "json_fields r = strip_fields r"
    using h by (intro json_fields_is_strip) simp_all
  then show "\<exists>rest. save_then_load saveGeneration getGenerationHistory e r snapshot st
                  = Inr (strip_fields r # rest)"
    using h save_then_load_generation_inactive [of st e r snapshot] by simp
next
  assume h: "\<not> isRealBackendAvailable st \<and> plain_data (JObj r) \<and> no_undefined_element (JObj r)"
    and none: "findIndex (\<lambda>x. strict_eq (field x ''id'') (field r ''id'')) (getItem_parsed CHAT_KEY st) = None"
  have "json_fields r = strip_fields r"
    using h by (intro json_fields_is_strip) simp_all
  then show "\<exists>rest. save_then_load saveChatSession getChatHistory e r snapshot st
                     = Inr (strip_fields r # rest)"
    using h none save_then_load_chat_inactive [of st e r snapshot] by simp
next
  fix i
  assume h: "\<not> isRealBackendAvailable st \<and> plain_data (JObj r) \<and> no_undefined_element (JObj r)"
    and some: "findIndex (\<lambda>x. strict_eq (field x ''id'') (field r ''id'')) (getItem_parsed CHAT_KEY st) = Some i"
  have j: "json_fields r = strip_fields r"
    using h by (intro json_fields_is_strip) simp_all
  have i: "i < length (getItem_parsed CHAT_KEY st)"
    using findIndex_Some [OF some] by simp
  let ?xs = "map json_fields ((getItem_parsed CHAT_KEY st)[i := r])"
  have "save_then_load saveChatSession getChatHistory e r snapshot st = Inr ?xs"
    using h some save_then_load_chat_inactive [of st e r snapshot] by simp
  moreover have "i < length ?xs" using i by simp
  moreover have "?xs ! i = strip_fields r" using i j by simp
  ultimately show "\<exists>xs. save_then_load saveChatSession getChatHistory e r snapshot st = Inr xs \<and>
                  i < length xs \<and> xs ! i = strip_fields r"
    by blast
qed

theorem roundtrip_strips_undefined_witness:
  "sanitizeForFirestore (JObj (analysis ''r01'')) = JObj (stored_analysis ''r01'')
   \<and> (\<exists>rest. save_then_load saveToHistory getHistory env0 (analysis ''r01'') (Inr [])
                (fresh False None) = Inr (stored_analysis ''r01'' # rest))
   \<and> (\<exists>rest. save_then_load saveToHistory getHistory env0 bare_analysis (Inr [])
                (fresh False None)
              = Inr ([(''productName'', JStr ''Kettle''), (''id'', JStr ''uuid-1''),
                      (''timestamp'', JNum 1000)] # rest))
   \<and> (\<exists>rest. save_then_load saveGeneration getGenerationHistory env0 (analysis ''r01'') (Inr [])
                (fresh False None) = Inr (stored_analysis ''r01'' # rest))
   \<and> (\<exists>rest. save_then_load saveChatSession getChatHistory env0 (chat ''c'' ''3'') (Inr [])
                two_chats_offline = Inr (chat ''c'' ''3'' # rest))
   \<and> (\<exists>xs. save_then_load saveChatSession getChatHistory env0 (chat ''b'' ''3'') (Inr [])
                two_chats_offline = Inr xs \<and> 1 < length xs \<and> xs ! 1 = chat ''b'' ''3'')"
proof -
  note t = roundtrip_strips_undefined [of "JObj (analysis ''r01'')" "fresh False None"
      "analysis ''r01''" env0 "Inr []"]
  have d: "plain_data (JObj (analysis ''r01'')) \<and> no_proto_key (JObj (analysis ''r01''))"
    by (simp add: analysis_def)
  have s: "strip_undefined (JObj (analysis ''r01'')) = JObj (stored_analysis ''r01'')"
    and s': "strip_fields (analysis ''r01'') = stored_analysis ''r01''"
    by (simp_all add: analysis_def stored_analysis_def strip_fields_def)
  have a: "sanitizeForFirestore (JObj (analysis ''r01'')) = JObj (stored_analysis ''r01'')"
    using t d s
    by (simp del: sanitizeForFirestore.simps strip_undefined.simps plain_data.simps no_proto_key.simps)
  have h: "\<not> isRealBackendAvailable (fresh False None) \<and> plain_data (JObj (analysis ''r01'')) \<and>
           no_undefined_element (JObj (analysis ''r01''))"
    by (simp add: fresh_inactive analysis_def)
  have tr: "truthy (field (analysis ''r01'') ''id'') \<and> truthy (field (analysis ''r01'') ''timestamp'')"
    by (simp add: analysis_def field_def)
  have b: "\<exists>rest. save_then_load saveToHistory getHistory env0 (analysis ''r01'') (Inr [])
                (fresh False None) = Inr (stored_analysis ''r01'' # rest)"
    using t h tr unfolding s' by blast
  have c: "\<exists>rest. save_then_load saveGeneration getGenerationHistory env0 (analysis ''r01'') (Inr [])
                (fresh False None) = Inr (stored_analysis ''r01'' # rest)"
    using t h unfolding s' by blast
  have hb: "\<not> isRealBackendAvailable (fresh False None) \<and> plain_data (JObj bare_analysis) \<and>
           no_undefined_element (JObj bare_analysis)"
    by (simp add: fresh_inactive bare_analysis_def)
  have ab: "map_of bare_analysis ''id'' = None \<and> map_of bare_analysis ''timestamp'' = None"
    by (simp add: bare_analysis_def)
  have sb: "strip_fields bare_analysis @ [(''id'', JStr (randomUUID env0)), (''timestamp'', JNum (now env0))]
      = [(''productName'', JStr ''Kettle''), (''id'', JStr ''uuid-1''), (''timestamp'', JNum 1000)]"
    by (simp add: strip_fields_def bare_analysis_def env0_def)
  have b': "\<exists>rest. save_then_load saveToHistory getHistory env0 bare_analysis (Inr [])
                (fresh False None)
              = Inr ([(''productName'', JStr ''Kettle''), (''id'', JStr ''uuid-1''),
                      (''timestamp'', JNum 1000)] # rest)"
    using roundtrip_strips_undefined [of JNull "fresh False None" bare_analysis env0 "Inr []"]
      hb ab
    unfolding sb by blast
  have hc: "\<not> isRealBackendAvailable two_chats_offline \<and> plain_data (JObj (chat ''c'' ''3'')) \<and>
            no_undefined_element (JObj (chat ''c'' ''3''))"
    and hb2: "\<not> isRealBackendAvailable two_chats_offline \<and> plain_data (JObj (chat ''b'' ''3'')) \<and>
            no_undefined_element (JObj (chat ''b'' ''3''))"
    by (simp_all add: two_chats_offline_inactive) (simp_all add: chat_def)
  have none: "findIndex (\<lambda>x. strict_eq (field x ''id'') (field (chat ''c'' ''3'') ''id''))
      (getItem_parsed CHAT_KEY two_chats_offline) = None"
    unfolding two_chats_offline_chats by (simp add: chat_def field_def)
  have some: "findIndex (\<lambda>x. strict_eq (field x ''id'') (field (chat ''b'' ''3'') ''id''))
      (getItem_parsed CHAT_KEY two_chats_offline) = Some 1"
    unfolding two_chats_offline_chats by (simp add: chat_def field_def)
  have e: "\<exists>rest. save_then_load saveChatSession getChatHistory env0 (chat ''c'' ''3'') (Inr [])
                two_chats_offline = Inr (chat ''c'' ''3'' # rest)"
    using roundtrip_strips_undefined [of JNull two_chats_offline "chat ''c'' ''3''" env0 "Inr []"]
      hc none
    unfolding chat_plain by blast
  have f: "\<exists>xs. save_then_load saveChatSession getChatHistory env0 (chat ''b'' ''3'') (Inr [])
                two_chats_offline = Inr xs \<and> 1 < length xs \<and> xs ! 1 = chat ''b'' ''3''"
    using roundtrip_strips_undefined [of JNull two_chats_offline "chat ''b'' ''3''" env0 "Inr []"]
      hb2 some
    unfolding chat_plain by blast
  show ?thesis by (intro conjI a b b' c e f)
qed

text \<open>
  C2. For each of the three kinds: when cloud mode is active and the cloud query (ordered by
  time stamp, capped at the limit of 20) yields at least one document, the load function
  returns exactly the records of those documents, in that order: the fields of the document,
  with the document's id as \<^verbatim>\<open>id\<close> in front when the data has no \<^verbatim>\<open>id\<close> field of its own
  (and the data's own \<^verbatim>\<open>id\<close> in front when it has). In every other case, a cloud read that
  throws included, it returns what the local slot of that kind holds, the empty list when the
  slot is missing, and leaves local storage as it is. No load ever ends in an error.
\<close>

theorem load_cloud_if_nonempty_else_local:
  "(isRealBackendAvailable st \<and> snapshot = Inr docs \<and> docs \<noteq> [] \<and>
    (\<forall>d \<in> set docs. distinct (map fst (snd d))) \<and>
    cloud = map (\<lambda>(i, data). (''id'', case map_of data ''id'' of None \<Rightarrow> JStr i | Some v \<Rightarrow> v) #
                              filter (\<lambda>(k, v). k \<noteq> ''id'') data) (take 20 docs) \<longrightarrow>
      getHistory snapshot st = Inr (cloud, st) \<and>
      getChatHistory snapshot st = Inr (cloud, st) \<and>
      getGenerationHistory snapshot st = Inr (cloud, st))
   \<and> (\<not> isRealBackendAvailable st \<or> snapshot = Inl err \<or> snapshot = Inr [] \<longrightarrow>
      (\<exists>st'. getHistory snapshot st =
               Inr (case localStorage st ''dealflow_history'' of None \<Rightarrow> [] | Some xs \<Rightarrow> xs, st') \<and>
             localStorage st' = localStorage st) \<and>
      (\<exists>st'. getChatHistory snapshot st =
               Inr (case localStorage st ''dealflow_chats'' of None \<Rightarrow> [] | Some xs \<Rightarrow> xs, st') \<and>
             localStorage st' = localStorage st) \<and>
      (\<exists>st'. getGenerationHistory snapshot st =
               Inr (case localStorage st ''dealflow_tools'' of None \<Rightarrow> [] | Some xs \<Rightarrow> xs, st') \<and>
             localStorage st' = localStorage st))
   \<and> (\<exists>xs st'. getHistory snapshot st = Inr (xs, st'))
   \<and> (\<exists>xs st'. getChatHistory snapshot st = Inr (xs, st'))
   \<and> (\<exists>xs st'. getGenerationHistory snapshot st = Inr (xs, st'))"
proof (intro conjI impI)
  assume h: "isRealBackendAvailable st \<and> snapshot = Inr docs \<and> docs \<noteq> [] \<and>
    (\<forall>d \<in> set docs. distinct (map fst (snd d))) \<and>
    cloud = map (\<lambda>(i, data). (''id'', case map_of data ''id'' of None \<Rightarrow> JStr i | Some v \<Rightarrow> v) #
                              filter (\<lambda>(k, v). k \<noteq> ''id'') data) (take 20 docs)"
  then have c: "map doc_record (take 20 docs) = cloud"
    using map_doc_record_distinct [of docs 20] by simp
  have a: "isRealBackendAvailable st" and d: "docs \<noteq> []" and s: "snapshot = Inr docs"
    using h by simp_all
  show "getHistory snapshot st = Inr (cloud, st)"
    unfolding s load_cloud(1) [OF a d] c ..
  show "getChatHistory snapshot st = Inr (cloud, st)"
    unfolding s load_cloud(2) [OF a d] c ..
  show "getGenerationHistory snapshot st = Inr (cloud, st)"
    unfolding s load_cloud(3) [OF a d] c ..
next
  assume h: "\<not> isRealBackendAvailable st \<or> snapshot = Inl err \<or> snapshot = Inr []"
  show "\<exists>st'. getHistory snapshot st =
               Inr (case localStorage st ''dealflow_history'' of None \<Rightarrow> [] | Some xs \<Rightarrow> xs, st') \<and>
             localStorage st' = localStorage st"
    by (rule load_fallback(1) [OF h])
  show "\<exists>st'. getChatHistory snapshot st =
               Inr (case localStorage st ''dealflow_chats'' of None \<Rightarrow> [] | Some xs \<Rightarrow> xs, st') \<and>
             localStorage st' = localStorage st"
    by (rule load_fallback(2) [OF h])
  show "\<exists>st'. getGenerationHistory snapshot st =
               Inr (case localStorage st ''dealflow_tools'' of None \<Rightarrow> [] | Some xs \<Rightarrow> xs, st') \<and>
             localStorage st' = localStorage st"
    by (rule load_fallback(3) [OF h])
next
  show "\<exists>xs st'. getHistory snapshot st = Inr (xs, st')" by (rule load_returns(1))
  show "\<exists>xs st'. getChatHistory snapshot st = Inr (xs, st')" by (rule load_returns(2))
  show "\<exists>xs st'. getGenerationHistory snapshot st = Inr (xs, st')" by (rule load_returns(3))
qed

theorem load_cloud_if_nonempty_else_local_witness:
  "getChatHistory (Inr [(''d1'', cloud_chat), (''d2'', chat ''z'' ''8'')]) signed_in
     = Inr ([[(''id'', JStr ''d1''), (''lastMessage'', JStr ''9''), (''timestamp'', JNum 7)],
             chat ''z'' ''8''], signed_in) \<and>
   (\<exists>st'. getChatHistory (Inl (FirestoreError ''unavailable'')) signed_in
            = Inr ([chat ''a'' ''1'', chat ''b'' ''2''], st')) \<and>
   (\<exists>st'. getChatHistory (Inr []) signed_in = Inr ([chat ''a'' ''1'', chat ''b'' ''2''], st')) \<and>
   (\<exists>st'. getHistory (Inl (FirestoreError ''failed-precondition'')) signed_in = Inr ([], st'))"
proof -
  let ?docs = "[(''d1'', cloud_chat), (''d2'', chat ''z'' ''8'')]"
  let ?cloud = "[[(''id'', JStr ''d1''), (''lastMessage'', JStr ''9''), (''timestamp'', JNum 7)],
             chat ''z'' ''8'']"
  have h: "isRealBackendAvailable signed_in \<and> (Inr ?docs :: js_error + (string \<times> obj) list) = Inr ?docs \<and>
     ?docs \<noteq> [] \<and> (\<forall>d \<in> set ?docs. distinct (map fst (snd d))) \<and>
     ?cloud = map (\<lambda>(i, data). (''id'', case map_of data ''id'' of None \<Rightarrow> JStr i | Some v \<Rightarrow> v) #
                              filter (\<lambda>(k, v). k \<noteq> ''id'') data) (take 20 ?docs)"
    by (simp add: signed_in_active cloud_chat_def chat_def)
  have a: "getChatHistory (Inr ?docs) signed_in = Inr (?cloud, signed_in)"
    using load_cloud_if_nonempty_else_local [THEN conjunct1, THEN mp, OF h] by simp
  have l: "localStorage signed_in ''dealflow_chats'' = Some [chat ''a'' ''1'', chat ''b'' ''2'']"
    and l': "localStorage signed_in ''dealflow_history'' = None"
    by (simp_all add: signed_in_def CHAT_KEY_def)
  have b: "\<exists>st'. getChatHistory (Inl (FirestoreError ''unavailable'')) signed_in
            = Inr ([chat ''a'' ''1'', chat ''b'' ''2''], st')"
    using load_cloud_if_nonempty_else_local
      [of signed_in "Inl (FirestoreError ''unavailable'')" "[]" "[]" "FirestoreError ''unavailable''"]
    unfolding l by auto
  have c: "\<exists>st'. getChatHistory (Inr []) signed_in = Inr ([chat ''a'' ''1'', chat ''b'' ''2''], st')"
    using load_cloud_if_nonempty_else_local [of signed_in "Inr []" "[]" "[]" "SyntaxError"]
    unfolding l by auto
  have d: "\<exists>st'. getHistory (Inl (FirestoreError ''failed-precondition'')) signed_in = Inr ([], st')"
    using load_cloud_if_nonempty_else_local
      [of signed_in "Inl (FirestoreError ''failed-precondition'')" "[]" "[]"
          "FirestoreError ''failed-precondition''"]
    unfolding l' by auto
  show ?thesis by (intro conjI a b c d)
qed

text \<open>
  C3. \<^verbatim>\<open>sendChatMessage\<close> sends the history normalised as the specification says: from each
  turn the parts with neither non-whitespace text nor image content are removed, turns left
  without parts are dropped, and leading turns are dropped until the first one has role
  \<^verbatim>\<open>user\<close>. The specification's example normalises to its last two turns. Nothing else is
  changed: the result is the filtered history without a prefix of non-user turns, so
  consecutive turns of one role stay as they are.
\<close>

theorem sendChatMessage_normalizes_history:
  "validHistory history = spec_normalize history
   \<and> sendChatMessage api history msg img useThinking =
       api \<lparr>model = ''gemini-2.5-flash'', sent_history = spec_normalize history,
            thinkingBudget = (if useThinking then Some 16000 else None),
            message = currentParts msg img\<rparr>
   \<and> validHistory spec_example =
       [\<lparr>role = ''user'', parts = [text_part ''hi'']\<rparr>,
        \<lparr>role = ''model'', parts = [text_part ''hello'']\<rparr>]
   \<and> (\<exists>dropped.
         filter (\<lambda>t. parts t \<noteq> [])
           (map (\<lambda>t. t\<lparr>parts := filter has_content (parts t)\<rparr>) history)
           = dropped @ validHistory history
         \<and> (\<forall>t \<in> set dropped. role t \<noteq> ''user''))
   \<and> (validHistory history = [] \<or> role (hd (validHistory history)) = ''user'')"
proof -
  let ?f = "filter (\<lambda>t. parts t \<noteq> [])
     (map (\<lambda>t. t\<lparr>parts := filter has_content (parts t)\<rparr>) history)"
  let ?p = "\<lambda>t. role t \<noteq> ''user''"
  have v: "validHistory history = dropWhile ?p ?f"
    by (simp add: validHistory_spec spec_normalize_def)
  have a: "validHistory history = spec_normalize history"
    by (rule validHistory_spec)
  have b: "sendChatMessage api history msg img useThinking =
       api \<lparr>model = ''gemini-2.5-flash'', sent_history = spec_normalize history,
            thinkingBudget = (if useThinking then Some 16000 else None),
            message = currentParts msg img\<rparr>"
    by (simp add: sendChatMessage_def validHistory_spec)
  have c: "validHistory spec_example =
       [\<lparr>role = ''user'', parts = [text_part ''hi'']\<rparr>,
        \<lparr>role = ''model'', parts = [text_part ''hello'']\<rparr>]"
    by (simp only: validHistory_spec spec_normalize_example)
  have d1: "?f = takeWhile ?p ?f @ validHistory history"
    unfolding v by simp
  have d2: "\<forall>t \<in> set (takeWhile ?p ?f). role t \<noteq> ''user''"
    by (auto dest: set_takeWhileD)
  have d: "\<exists>dropped. ?f = dropped @ validHistory history \<and> (\<forall>t \<in> set dropped. role t \<noteq> ''user'')"
    using d1 d2 by blast
  have e: "validHistory history = [] \<or> role (hd (validHistory history)) = ''user''"
  proof (cases "validHistory history = []")
    case True
    then show ?thesis by simp
  next
    case False
    then have "\<not> ?p (hd (dropWhile ?p ?f))"
      unfolding v by (rule hd_dropWhile)
    then show ?thesis unfolding v by simp
  qed
  show ?thesis
    by (intro conjI a b c d e)
qed

theorem sendChatMessage_normalizes_history_witness:
  "validHistory same_role_example =
     [\<lparr>role = ''user'', parts = [text_part ''a'']\<rparr>,
      \<lparr>role = ''user'', parts = [text_part ''b'']\<rparr>,
      \<lparr>role = ''model'', parts = [text_part ''c'']\<rparr>,
      \<lparr>role = ''model'', parts = [text_part ''d'']\<rparr>]"
proof -
  have "validHistory same_role_example = spec_normalize same_role_example"
    using sendChatMessage_normalizes_history [of same_role_example] by (rule conjunct1)
  then show ?thesis
    by (simp add: spec_normalize_def same_role_example_def has_content_def text_part_def is_ws_def)
qed

text \<open>
  C4, as the claim states it, fails on the local path of \<^verbatim>\<open>saveToHistory\<close>: saving two
  analysis records with the id \<^verbatim>\<open>A1\<close> into an empty local store leaves two entries with
  that id.
\<close>

theorem save_twice_same_id_counterexample:
  "map_sum id (getItem_parsed ANALYSIS_KEY)
     (save_all saveToHistory [(env0, analysis ''A1''), (env0, revised_analysis ''A1'')]
        (fresh False None))
   = Inr [stored_revised_analysis ''A1'', stored_analysis ''A1'']"
proof -
  have a: "\<forall>s \<in> set (getItem_parsed ANALYSIS_KEY (fresh False None)). is_json (JObj s)"
    and b: "length (getItem_parsed ANALYSIS_KEY (fresh False None)) \<le> 10"
    by (simp_all add: getItem_parsed_fresh)
  obtain s' where "save_all saveToHistory [(env0, analysis ''A1''), (env0, revised_analysis ''A1'')]
        (fresh False None) = Inr s'"
    and "getItem_parsed ANALYSIS_KEY s' =
       take 10 (json_fields (newEntry env0 (revised_analysis ''A1'')) #
                json_fields (newEntry env0 (analysis ''A1'')) #
                getItem_parsed ANALYSIS_KEY (fresh False None))"
    using save_all_two_saveToHistory [OF a b] by blast
  then show ?thesis
    by (simp add: getItem_parsed_fresh json_fields_analysis json_fields_revised_analysis)
qed

text \<open>
  C4, amended. Two saves of records carrying the same non-empty string id. In cloud mode, for
  records of plain data without a \<^verbatim>\<open>__proto__\<close> property, when in both calls \<^verbatim>\<open>doc\<close> resolves
  the id to the same document path, the SDK takes the data and the store takes the write:
  after the first save the document at that path is the first record with its undefined fields
  removed, after the second save it is the second record so stripped, and every other
  document of the store is as it was before the two saves. An analysis is stored with
  \<^verbatim>\<open>timestamp\<close> set to its time stamp when that is truthy and to the current time otherwise.
  On the local path \<^verbatim>\<open>saveChatSession\<close> leaves exactly one entry with that id, the second
  session as JSON, while \<^verbatim>\<open>saveToHistory\<close> and \<^verbatim>\<open>saveGeneration\<close> put each record in front of
  the list (cut to ten), so that both are stored, the later one first.
\<close>

theorem save_twice_same_id:
  assumes i1: "field r1 ''id'' = JStr k" and i2: "field r2 ''id'' = JStr k" and k: "k \<noteq> []"
      and a1: "a1 = assign r1 ''timestamp''
                 (if truthy (field r1 ''timestamp'') then field r1 ''timestamp'' else JNum (now e1))"
      and a2: "a2 = assign r2 ''timestamp''
                 (if truthy (field r2 ''timestamp'') then field r2 ''timestamp'' else JNum (now e2))"
  shows
   "(isRealBackendAvailable st \<and> currentUser st = Some uid \<and>
     plain_data (JObj r1) \<and> no_proto_key (JObj r1) \<and>
     plain_data (JObj r2) \<and> no_proto_key (JObj r2) \<and>
     write_fault e1 = None \<and> write_fault e2 = None \<longrightarrow>
       (sdk_doc e1 uid ''analyses'' (JStr k) = Inr ref \<and>
        sdk_doc e2 uid ''analyses'' (JStr k) = Inr ref \<and>
        sdk_check e1 (JObj (strip_fields a1)) = None \<and>
        sdk_check e2 (JObj (strip_fields a2)) = None \<longrightarrow>
          (\<exists>s1 s2. saveToHistory e1 r1 st = Inr s1 \<and> saveToHistory e2 r2 s1 = Inr s2 \<and>
             firestore s1 = (firestore st)(ref := Some (JObj (strip_fields a1))) \<and>
             firestore s2 = (firestore st)(ref := Some (JObj (strip_fields a2)))))
     \<and> (sdk_doc e1 uid ''chats'' (JStr k) = Inr ref \<and>
        sdk_doc e2 uid ''chats'' (JStr k) = Inr ref \<and>
        sdk_check e1 (JObj (strip_fields r1)) = None \<and>
        sdk_check e2 (JObj (strip_fields r2)) = None \<longrightarrow>
          (\<exists>s1 s2. saveChatSession e1 r1 st = Inr s1 \<and> saveChatSession e2 r2 s1 = Inr s2 \<and>
             firestore s1 = (firestore st)(ref := Some (JObj (strip_fields r1))) \<and>
             firestore s2 = (firestore st)(ref := Some (JObj (strip_fields r2)))))
     \<and> (sdk_doc e1 uid ''generations'' (JStr k) = Inr ref \<and>
        sdk_doc e2 uid ''generations'' (JStr k) = Inr ref \<and>
        sdk_check e1 (JObj (strip_fields r1)) = None \<and>
        sdk_check e2 (JObj (strip_fields r2)) = None \<longrightarrow>
          (\<exists>s1 s2. saveGeneration e1 r1 st = Inr s1 \<and> saveGeneration e2 r2 s1 = Inr s2 \<and>
             firestore s1 = (firestore st)(ref := Some (JObj (strip_fields r1))) \<and>
             firestore s2 = (firestore st)(ref := Some (JObj (strip_fields r2))))))
    \<and> ((\<forall>s \<in> set (getItem_parsed CHAT_KEY st). is_json (JObj s)) \<and>
        length (filter (\<lambda>x. strict_eq (field x ''id'') (JStr k)) (getItem_parsed CHAT_KEY st)) \<le> 1 \<longrightarrow>
          (\<exists>s1 s2. saveChatSession e1 r1 st = Inr s1 \<and> saveChatSession e2 r2 s1 = Inr s2 \<and>
             filter (\<lambda>x. strict_eq (field x ''id'') (JStr k)) (getItem_parsed CHAT_KEY s2)
               = [json_fields r2]))
    \<and> ((\<forall>s \<in> set (getItem_parsed ANALYSIS_KEY st). is_json (JObj s)) \<and>
        length (getItem_parsed ANALYSIS_KEY st) \<le> 10 \<longrightarrow>
          (\<exists>s'. save_all saveToHistory [(e1, r1), (e2, r2)] st = Inr s' \<and>
             getItem_parsed ANALYSIS_KEY s' =
               take 10 (json_fields a2 # json_fields a1 # getItem_parsed ANALYSIS_KEY st)))
    \<and> ((\<forall>s \<in> set (getItem_parsed TOOLS_KEY st). is_json (JObj s)) \<and>
        length (getItem_parsed TOOLS_KEY st) \<le> 10 \<longrightarrow>
          (\<exists>s'. save_all saveGeneration [(e1, r1), (e2, r2)] st = Inr s' \<and>
             getItem_parsed TOOLS_KEY s' =
               take 10 (json_fields r2 # json_fields r1 # getItem_parsed TOOLS_KEY st)))"
proof (intro conjI impI)
  have n1: "newEntry e1 r1 = a1" unfolding a1 using i1 k by (intro newEntry_with_id) simp
  have n2: "newEntry e2 r2 = a2" unfolding a2 using i2 k by (intro newEntry_with_id) simp
  {
    assume h: "isRealBackendAvailable st \<and> currentUser st = Some uid \<and>
       plain_data (JObj r1) \<and> no_proto_key (JObj r1) \<and>
       plain_data (JObj r2) \<and> no_proto_key (JObj r2) \<and>
       write_fault e1 = None \<and> write_fault e2 = None"
      and s: "sdk_doc e1 uid ''analyses'' (JStr k) = Inr ref \<and>
        sdk_doc e2 uid ''analyses'' (JStr k) = Inr ref \<and>
        sdk_check e1 (JObj (strip_fields a1)) = None \<and>
        sdk_check e2 (JObj (strip_fields a2)) = None"
    have act: "isRealBackendAvailable st" and user: "currentUser st = Some uid"
      and p1: "plain_data (JObj r1)" and q1: "no_proto_key (JObj r1)"
      and p2: "plain_data (JObj r2)" and q2: "no_proto_key (JObj r2)"
      and w1: "write_fault e1 = None" and w2: "write_fault e2 = None"
      using h by (simp_all del: plain_data.simps no_proto_key.simps)
    have d1: "sdk_doc e1 uid ''analyses'' (JStr k) = Inr ref"
      and d2: "sdk_doc e2 uid ''analyses'' (JStr k) = Inr ref"
      and c1: "sdk_check e1 (JObj (strip_fields a1)) = None"
      and c2: "sdk_check e2 (JObj (strip_fields a2)) = None"
      using s by simp_all
    have "\<exists>s1 s2. saveToHistory e1 r1 st = Inr s1 \<and> saveToHistory e2 r2 s1 = Inr s2 \<and>
        firestore s1 = (firestore st)(ref := Some (JObj (strip_fields (newEntry e1 r1)))) \<and>
        firestore s2 = (firestore st)(ref := Some (JObj (strip_fields (newEntry e2 r2))))"
      by (rule save_twice_cloud [where f = saveToHistory and g = newEntry and c = "''analyses''",
            OF saveToHistory_cloud_frame act user
               plain_data_newEntry [OF p1] no_proto_key_newEntry [OF q1]
               plain_data_newEntry [OF p2] no_proto_key_newEntry [OF q2]
               newEntry_id [OF i1 k] newEntry_id [OF i2 k] k d1 d2
               c1 [folded n1] c2 [folded n2] w1 w2])
    then show "\<exists>s1 s2. saveToHistory e1 r1 st = Inr s1 \<and> saveToHistory e2 r2 s1 = Inr s2 \<and>
        firestore s1 = (firestore st)(ref := Some (JObj (strip_fields a1))) \<and>
        firestore s2 = (firestore st)(ref := Some (JObj (strip_fields a2)))"
      unfolding n1 n2 .
  next
    assume h: "isRealBackendAvailable st \<and> currentUser st = Some uid \<and>
       plain_data (JObj r1) \<and> no_proto_key (JObj r1) \<and>
       plain_data (JObj r2) \<and> no_proto_key (JObj r2) \<and>
       write_fault e1 = None \<and> write_fault e2 = None"
      and s: "sdk_doc e1 uid ''chats'' (JStr k) = Inr ref \<and>
        sdk_doc e2 uid ''chats'' (JStr k) = Inr ref \<and>
        sdk_check e1 (JObj (strip_fields r1)) = None \<and>
        sdk_check e2 (JObj (strip_fields r2)) = None"
    have act: "isRealBackendAvailable st" and user: "currentUser st = Some uid"
      and p1: "plain_data (JObj r1)" and q1: "no_proto_key (JObj r1)"
      and p2: "plain_data (JObj r2)" and q2: "no_proto_key (JObj r2)"
      and w1: "write_fault e1 = None" and w2: "write_fault e2 = None"
      using h by (simp_all del: plain_data.simps no_proto_key.simps)
    have d1: "sdk_doc e1 uid ''chats'' (JStr k) = Inr ref"
      and d2: "sdk_doc e2 uid ''chats'' (JStr k) = Inr ref"
      and c1: "sdk_check e1 (JObj (strip_fields r1)) = None"
      and c2: "sdk_check e2 (JObj (strip_fields r2)) = None"
      using s by simp_all
    show "\<exists>s1 s2. saveChatSession e1 r1 st = Inr s1 \<and> saveChatSession e2 r2 s1 = Inr s2 \<and>
        firestore s1 = (firestore st)(ref := Some (JObj (strip_fields r1))) \<and>
        firestore s2 = (firestore st)(ref := Some (JObj (strip_fields r2)))"
      by (rule save_twice_cloud [where f = saveChatSession and g = "\<lambda>e r. r" and c = "''chats''",
            OF saveChatSession_cloud_frame act user p1 q1 p2 q2 i1 i2 k d1 d2 c1 c2 w1 w2])
  next
    assume h: "isRealBackendAvailable st \<and> currentUser st = Some uid \<and>
       plain_data (JObj r1) \<and> no_proto_key (JObj r1) \<and>
       plain_data (JObj r2) \<and> no_proto_key (JObj r2) \<and>
       write_fault e1 = None \<and> write_fault e2 = None"
      and s: "sdk_doc e1 uid ''generations'' (JStr k) = Inr ref \<and>
        sdk_doc e2 uid ''generations'' (JStr k) = Inr ref \<and>
        sdk_check e1 (JObj (strip_fields r1)) = None \<and>
        sdk_check e2 (JObj (strip_fields r2)) = None"
    have act: "isRealBackendAvailable st" and user: "currentUser st = Some uid"
      and p1: "plain_data (JObj r1)" and q1: "no_proto_key (JObj r1)"
      and p2: "plain_data (JObj r2)" and q2: "no_proto_key (JObj r2)"
      and w1: "write_fault e1 = None" and w2: "write_fault e2 = None"
      using h by (simp_all del: plain_data.simps no_proto_key.simps)
    have d1: "sdk_doc e1 uid ''generations'' (JStr k) = Inr ref"
      and d2: "sdk_doc e2 uid ''generations'' (JStr k) = Inr ref"
      and c1: "sdk_check e1 (JObj (strip_fields r1)) = None"
      and c2: "sdk_check e2 (JObj (strip_fields r2)) = None"
      using s by simp_all
    show "\<exists>s1 s2. saveGeneration e1 r1 st = Inr s1 \<and> saveGeneration e2 r2 s1 = Inr s2 \<and>
        firestore s1 = (firestore st)(ref := Some (JObj (strip_fields r1))) \<and>
        firestore s2 = (firestore st)(ref := Some (JObj (strip_fields r2)))"
      by (rule save_twice_cloud [where f = saveGeneration and g = "\<lambda>e r. r" and c = "''generations''",
            OF saveGeneration_cloud_frame act user p1 q1 p2 q2 i1 i2 k d1 d2 c1 c2 w1 w2])
  next
    assume "(\<forall>s \<in> set (getItem_parsed CHAT_KEY st). is_json (JObj s)) \<and>
          length (filter (\<lambda>x. strict_eq (field x ''id'') (JStr k)) (getItem_parsed CHAT_KEY st)) \<le> 1"
    then show "\<exists>s1 s2. saveChatSession e1 r1 st = Inr s1 \<and> saveChatSession e2 r2 s1 = Inr s2 \<and>
        filter (\<lambda>x. strict_eq (field x ''id'') (JStr k)) (getItem_parsed CHAT_KEY s2) = [json_fields r2]"
      using saveChatSession_twice_local [OF _ _ i1 i2] by blast
  next
    assume "(\<forall>s \<in> set (getItem_parsed ANALYSIS_KEY st). is_json (JObj s)) \<and>
          length (getItem_parsed ANALYSIS_KEY st) \<le> 10"
    then show "\<exists>s'. save_all saveToHistory [(e1, r1), (e2, r2)] st = Inr s' \<and>
        getItem_parsed ANALYSIS_KEY s' =
          take 10 (json_fields a2 # json_fields a1 # getItem_parsed ANALYSIS_KEY st)"
      unfolding n1 [symmetric] n2 [symmetric]
      using save_all_two_saveToHistory by blast
  next
    assume "(\<forall>s \<in> set (getItem_parsed TOOLS_KEY st). is_json (JObj s)) \<and>
          length (getItem_parsed TOOLS_KEY st) \<le> 10"
    then show "\<exists>s'. save_all saveGeneration [(e1, r1), (e2, r2)] st = Inr s' \<and>
        getItem_parsed TOOLS_KEY s' =
          take 10 (json_fields r2 # json_fields r1 # getItem_parsed TOOLS_KEY st)"
      using save_all_two_saveGeneration by blast
  }
qed

theorem save_twice_same_id_witness:
  "(\<exists>s1 s2. saveChatSession env0 (chat ''S1'' ''hello'') (fresh True (Some ''uid-1'')) = Inr s1 \<and>
      saveChatSession env0 (chat ''S1'' ''hello again'') s1 = Inr s2 \<and>
      firestore s2 = (\<lambda>p. None)([''users'', ''uid-1'', ''chats'', ''S1'']
                        := Some (JObj (chat ''S1'' ''hello again''))) \<and>
      filter (\<lambda>x. strict_eq (field x ''id'') (JStr ''S1'')) (getItem_parsed CHAT_KEY s2)
        = [chat ''S1'' ''hello again''])
   \<and> (\<exists>s1 s2. saveToHistory env0 (analysis ''A1'') (fresh True (Some ''uid-1'')) = Inr s1 \<and>
      saveToHistory env0 (revised_analysis ''A1'') s1 = Inr s2 \<and>
      firestore s2 = (\<lambda>p. None)([''users'', ''uid-1'', ''analyses'', ''A1'']
                        := Some (JObj (stored_revised_analysis ''A1''))))"
proof -
  let ?st = "fresh True (Some ''uid-1'')"
  let ?c1 = "chat ''S1'' ''hello''" and ?c2 = "chat ''S1'' ''hello again''"
  have i1: "field ?c1 ''id'' = JStr ''S1''" and i2: "field ?c2 ''id'' = JStr ''S1''"
    by (simp_all add: chat_plain)
  have k: "''S1'' \<noteq> []" by simp
  have user: "isRealBackendAvailable ?st" "currentUser ?st = Some ''uid-1''"
    "write_fault env0 = None" "firestore ?st = (\<lambda>p. None)"
    by (simp_all add: fresh_active) (simp_all add: fresh_def env0_def)
  have pc: "plain_data (JObj (chat i m))" "no_proto_key (JObj (chat i m))"
    "is_json (JObj (chat i m))" for i m
    by (simp_all add: chat_def)
  have cloud: "isRealBackendAvailable ?st \<and> currentUser ?st = Some ''uid-1'' \<and>
     plain_data (JObj ?c1) \<and> no_proto_key (JObj ?c1) \<and>
     plain_data (JObj ?c2) \<and> no_proto_key (JObj ?c2) \<and>
     write_fault env0 = None \<and> write_fault env0 = None"
    by (intro conjI user pc)
  have sdk: "sdk_doc env0 ''uid-1'' ''chats'' (JStr ''S1'') = Inr [''users'', ''uid-1'', ''chats'', ''S1''] \<and>
     sdk_doc env0 ''uid-1'' ''chats'' (JStr ''S1'') = Inr [''users'', ''uid-1'', ''chats'', ''S1''] \<and>
     sdk_check env0 (JObj (strip_fields ?c1)) = None \<and>
     sdk_check env0 (JObj (strip_fields ?c2)) = None"
    unfolding chat_plain by (intro conjI example_doc_path example_check_json pc) simp_all
  have loc: "(\<forall>s \<in> set (getItem_parsed CHAT_KEY ?st). is_json (JObj s)) \<and>
        length (filter (\<lambda>x. strict_eq (field x ''id'') (JStr ''S1'')) (getItem_parsed CHAT_KEY ?st)) \<le> 1"
    by (simp add: getItem_parsed_fresh)
  note t = save_twice_same_id [OF i1 i2 k refl refl]
  obtain s1 s2 where a: "saveChatSession env0 ?c1 ?st = Inr s1"
    and b: "saveChatSession env0 ?c2 s1 = Inr s2"
    and c: "firestore s2 = (firestore ?st)([''users'', ''uid-1'', ''chats'', ''S1'']
               := Some (JObj (strip_fields ?c2)))"
    using t [THEN conjunct1, THEN mp, OF cloud, THEN conjunct2, THEN conjunct1, THEN mp, OF sdk]
    by blast
  obtain s1' s2' where a': "saveChatSession env0 ?c1 ?st = Inr s1'"
    and b': "saveChatSession env0 ?c2 s1' = Inr s2'"
    and d: "filter (\<lambda>x. strict_eq (field x ''id'') (JStr ''S1'')) (getItem_parsed CHAT_KEY s2')
               = [json_fields ?c2]"
    using t [THEN conjunct2, THEN conjunct1, THEN mp, OF loc] by blast
  have "s1' = s1" using a a' by simp
  then have s2': "s2' = s2" using b b' by simp
  have c': "firestore s2 = (\<lambda>p. None)([''users'', ''uid-1'', ''chats'', ''S1'']
                        := Some (JObj ?c2))"
    using c unfolding user(4) chat_plain .
  have d': "filter (\<lambda>x. strict_eq (field x ''id'') (JStr ''S1'')) (getItem_parsed CHAT_KEY s2) = [?c2]"
    using d unfolding s2' chat_plain .
  have chats: "\<exists>s1 s2. saveChatSession env0 ?c1 ?st = Inr s1 \<and>
      saveChatSession env0 ?c2 s1 = Inr s2 \<and>
      firestore s2 = (\<lambda>p. None)([''users'', ''uid-1'', ''chats'', ''S1''] := Some (JObj ?c2)) \<and>
      filter (\<lambda>x. strict_eq (field x ''id'') (JStr ''S1'')) (getItem_parsed CHAT_KEY s2) = [?c2]"
    by (intro exI [of _ s1] exI [of _ s2] conjI a b c' d')
  let ?r1 = "analysis ''A1''" and ?r2 = "revised_analysis ''A1''"
  have j1: "field ?r1 ''id'' = JStr ''A1''" and j2: "field ?r2 ''id'' = JStr ''A1''"
    by (simp_all add: analysis_def revised_analysis_def field_def)
  have k': "''A1'' \<noteq> []" by simp
  have e1: "?r1 = assign ?r1 ''timestamp''
      (if truthy (field ?r1 ''timestamp'') then field ?r1 ''timestamp'' else JNum (now env0))"
    and e2: "?r2 = assign ?r2 ''timestamp''
      (if truthy (field ?r2 ''timestamp'') then field ?r2 ''timestamp'' else JNum (now env0))"
    by (simp_all add: analysis_def revised_analysis_def field_def)
  have pa: "plain_data (JObj ?r1)" "no_proto_key (JObj ?r1)"
    "plain_data (JObj ?r2)" "no_proto_key (JObj ?r2)"
    by (simp_all add: analysis_def revised_analysis_def)
  have sa: "strip_fields ?r1 = stored_analysis ''A1''" "strip_fields ?r2 = stored_revised_analysis ''A1''"
    by (simp_all add: strip_fields_def analysis_def revised_analysis_def stored_analysis_def
        stored_revised_analysis_def)
  have ja: "is_json (JObj (stored_analysis ''A1''))" "is_json (JObj (stored_revised_analysis ''A1''))"
    by (simp_all add: stored_analysis_def stored_revised_analysis_def)
  have cloud2: "isRealBackendAvailable ?st \<and> currentUser ?st = Some ''uid-1'' \<and>
     plain_data (JObj ?r1) \<and> no_proto_key (JObj ?r1) \<and>
     plain_data (JObj ?r2) \<and> no_proto_key (JObj ?r2) \<and>
     write_fault env0 = None \<and> write_fault env0 = None"
    by (intro conjI user pa)
  have sdk2: "sdk_doc env0 ''uid-1'' ''analyses'' (JStr ''A1'') = Inr [''users'', ''uid-1'', ''analyses'', ''A1''] \<and>
     sdk_doc env0 ''uid-1'' ''analyses'' (JStr ''A1'') = Inr [''users'', ''uid-1'', ''analyses'', ''A1''] \<and>
     sdk_check env0 (JObj (strip_fields ?r1)) = None \<and>
     sdk_check env0 (JObj (strip_fields ?r2)) = None"
    unfolding sa by (intro conjI example_doc_path example_check_json ja) simp_all
  obtain u1 u2 where a2: "saveToHistory env0 ?r1 ?st = Inr u1"
    and b2: "saveToHistory env0 ?r2 u1 = Inr u2"
    and c2: "firestore u2 = (firestore ?st)([''users'', ''uid-1'', ''analyses'', ''A1'']
               := Some (JObj (strip_fields ?r2)))"
    using save_twice_same_id [OF j1 j2 k' e1 e2, THEN conjunct1, THEN mp, OF cloud2,
        THEN conjunct1, THEN mp, OF sdk2]
    by blast
  have c2': "firestore u2 = (\<lambda>p. None)([''users'', ''uid-1'', ''analyses'', ''A1'']
                        := Some (JObj (stored_revised_analysis ''A1'')))"
    using c2 unfolding user(4) sa .
  have analyses: "\<exists>s1 s2. saveToHistory env0 ?r1 ?st = Inr s1 \<and>
      saveToHistory env0 ?r2 s1 = Inr s2 \<and>
      firestore s2 = (\<lambda>p. None)([''users'', ''uid-1'', ''analyses'', ''A1'']
                        := Some (JObj (stored_revised_analysis ''A1'')))"
    by (intro exI [of _ u1] exI [of _ u2] conjI a2 b2 c2')
  show ?thesis by (intro conjI chats analyses)
qed

text \<open>
  C5. Starting from an empty local collection, any sequence of \<^verbatim>\<open>saveToHistory\<close> calls
  leaves the ten most recently saved entries, most recent first (so at most ten, and after
  eleven saves all but the first). The same holds of \<^verbatim>\<open>saveGeneration\<close> with its cap of
  ten. A sequence of \<^verbatim>\<open>saveChatSession\<close> calls leaves at most five sessions, and a session
  whose id is new is put first and the list cut to five.
\<close>

theorem local_retention_caps:
  "(getItem_parsed ANALYSIS_KEY st = [] \<longrightarrow>
      (\<exists>st'. save_all saveToHistory ers st = Inr st' \<and>
         getItem_parsed ANALYSIS_KEY st' =
           take 10 (rev (map (\<lambda>(e, r). json_fields (newEntry e r)) ers)) \<and>
         length (getItem_parsed ANALYSIS_KEY st') \<le> 10 \<and>
         (length ers = 11 \<longrightarrow>
            getItem_parsed ANALYSIS_KEY st' =
              rev (map (\<lambda>(e, r). json_fields (newEntry e r)) (tl ers)))))
   \<and> (getItem_parsed TOOLS_KEY st = [] \<longrightarrow>
      (\<exists>st'. save_all saveGeneration ers st = Inr st' \<and>
         getItem_parsed TOOLS_KEY st' = take 10 (rev (map (\<lambda>(e, r). json_fields r) ers)) \<and>
         length (getItem_parsed TOOLS_KEY st') \<le> 10))
   \<and> (getItem_parsed CHAT_KEY st = [] \<longrightarrow>
      (\<exists>st'. save_all saveChatSession ers st = Inr st' \<and>
         length (getItem_parsed CHAT_KEY st') \<le> 5))
   \<and> (findIndex (\<lambda>x. strict_eq (field x ''id'') (field s ''id'')) (getItem_parsed CHAT_KEY st0) = None \<longrightarrow>
      (\<exists>st'. saveChatSession e0 s st0 = Inr st' \<and>
         getItem_parsed CHAT_KEY st' = map json_fields (take 5 (s # getItem_parsed CHAT_KEY st0)) \<and>
         length (getItem_parsed CHAT_KEY st') \<le> 5))"
proof (intro conjI impI)
  assume empty: "getItem_parsed ANALYSIS_KEY st = []"
  let ?f = "\<lambda>(e, r). json_fields (newEntry e r)"
  obtain st' where s: "save_all saveToHistory ers st = Inr st'"
    and l: "getItem_parsed ANALYSIS_KEY st' = take 10 (rev (map ?f ers))"
    using save_all_saveToHistory [of st ers] empty by auto
  have n: "length (getItem_parsed ANALYSIS_KEY st') \<le> 10"
    unfolding l by simp
  have e: "length ers = 11 \<longrightarrow> getItem_parsed ANALYSIS_KEY st' = rev (map ?f (tl ers))"
  proof
    assume len: "length ers = 11"
    then obtain x xs where ers: "ers = x # xs" and lx: "length xs = 10"
      by (cases ers) auto
    show "getItem_parsed ANALYSIS_KEY st' = rev (map ?f (tl ers))"
      unfolding l ers using lx by simp
  qed
  show "\<exists>st'. save_all saveToHistory ers st = Inr st' \<and>
         getItem_parsed ANALYSIS_KEY st' = take 10 (rev (map ?f ers)) \<and>
         length (getItem_parsed ANALYSIS_KEY st') \<le> 10 \<and>
         (length ers = 11 \<longrightarrow> getItem_parsed ANALYSIS_KEY st' = rev (map ?f (tl ers)))"
    by (rule exI [of _ st']) (intro conjI s l n e)
next
  assume empty: "getItem_parsed TOOLS_KEY st = []"
  let ?f = "\<lambda>(e :: env, r). json_fields r"
  obtain st' where s: "save_all saveGeneration ers st = Inr st'"
    and l: "getItem_parsed TOOLS_KEY st' = take 10 (rev (map ?f ers))"
    using save_all_saveGeneration [of st ers] empty by auto
  have n: "length (getItem_parsed TOOLS_KEY st') \<le> 10"
    unfolding l by simp
  show "\<exists>st'. save_all saveGeneration ers st = Inr st' \<and>
         getItem_parsed TOOLS_KEY st' = take 10 (rev (map ?f ers)) \<and>
         length (getItem_parsed TOOLS_KEY st') \<le> 10"
    by (rule exI [of _ st']) (intro conjI s l n)
next
  assume empty: "getItem_parsed CHAT_KEY st = []"
  show "\<exists>st'. save_all saveChatSession ers st = Inr st' \<and>
         length (getItem_parsed CHAT_KEY st') \<le> 5"
    using save_all_saveChatSession [of st ers] empty by simp
next
  assume none: "findIndex (\<lambda>x. strict_eq (field x ''id'') (field s ''id''))
      (getItem_parsed CHAT_KEY st0) = None"
  obtain st' where s: "saveChatSession e0 s st0 = Inr st'"
    and l: "getItem_parsed CHAT_KEY st' = map json_fields (take 5 (s # getItem_parsed CHAT_KEY st0))"
    using saveChatSession_length [of e0 s st0] none by blast
  have n: "length (getItem_parsed CHAT_KEY st') \<le> 5"
    unfolding l by simp
  show "\<exists>st'. saveChatSession e0 s st0 = Inr st' \<and>
         getItem_parsed CHAT_KEY st' = map json_fields (take 5 (s # getItem_parsed CHAT_KEY st0)) \<and>
         length (getItem_parsed CHAT_KEY st') \<le> 5"
    by (rule exI [of _ st']) (intro conjI s l n)
qed

theorem local_retention_caps_witness:
  "getItem_parsed ANALYSIS_KEY (fresh False None) = [] \<and> length eleven = 11 \<and>
   (\<exists>st'. save_all saveToHistory eleven (fresh False None) = Inr st' \<and>
      getItem_parsed ANALYSIS_KEY st' =
        map stored_analysis
          [''r11'', ''r10'', ''r09'', ''r08'', ''r07'', ''r06'', ''r05'', ''r04'', ''r03'', ''r02''])"
proof -
  have a: "getItem_parsed ANALYSIS_KEY (fresh False None) = []"
    by (simp add: getItem_parsed_def fresh_def)
  have b: "length eleven = 11"
    by (simp add: eleven_def)
  have c: "rev (map (\<lambda>(e, r). json_fields (newEntry e r)) (tl eleven)) =
      map stored_analysis
        [''r11'', ''r10'', ''r09'', ''r08'', ''r07'', ''r06'', ''r05'', ''r04'', ''r03'', ''r02'']"
    by (simp add: eleven_def json_fields_analysis)
  from local_retention_caps [of "fresh False None" eleven] a b
  obtain st' where "save_all saveToHistory eleven (fresh False None) = Inr st'"
    and "getItem_parsed ANALYSIS_KEY st' = rev (map (\<lambda>(e, r). json_fields (newEntry e r)) (tl eleven))"
    by blast
  then show ?thesis using a b c by simp
qed

text \<open>
  C6, as the claim states it, fails for a response whose list of grounding chunks is there
  and empty: it carries no citation, and \<^verbatim>\<open>analyzeProductImage\<close> returns a result whose
  \<^verbatim>\<open>searchLinks\<close> is the empty list.
\<close>

theorem analyzeProductImage_searchLinks_counterexample:
  "analyzeProductImage (Inr (with_chunks (JArr []))) (parse_as (JObj kettle))
     = Inr (JObj [(''productName'', JStr ''Kettle''), (''valueScore'', JNum 45),
                  (''recommendation'', JStr ''Wait for Sale''), (''searchLinks'', JArr [])])"
proof -
  have g: "groundingChunks (with_chunks (JArr [])) = JArr []"
    by (rule groundingChunks_with_chunks)
  have objs: "\<forall>c \<in> set []. c \<noteq> JUndefined \<and> c \<noteq> JNull"
    by simp
  have t: "response_text (with_chunks (JArr [])) = Some ''{...}''" and n: "''{...}'' \<noteq> []"
    by (simp_all add: with_chunks_def)
  have p: "parse_as (JObj kettle) ''{...}'' = Inr (JObj kettle)"
    by (simp add: parse_as_def)
  have "analyzeProductImage (Inr (with_chunks (JArr []))) (parse_as (JObj kettle)) =
      Inr (JObj (assign kettle ''searchLinks'' (JArr (map link_of (filter has_web_uri [])))))"
    by (rule analyzeProductImage_grounded
        [where JSON_parse = "parse_as (JObj kettle)", OF g objs t n p])
  then show ?thesis by (simp add: kettle_def)
qed

text \<open>
  C6, amended. Let the response have a non-empty text. When it has no list of grounding
  chunks (\<^verbatim>\<open>groundingChunks\<close> is missing, \<^verbatim>\<open>undefined\<close> or \<^verbatim>\<open>null\<close>),
  \<^verbatim>\<open>analyzeProductImage\<close> returns what the text parses to, unchanged, so \<^verbatim>\<open>searchLinks\<close> is
  not a key of the result when it is not one of the parsed object. When it has such a list,
  empty or not, of chunks that are objects, \<^verbatim>\<open>searchLinks\<close> is set to the chunks that have a
  web URI, each mapped to \<^verbatim>\<open>{title, uri}\<close>, in order; this is the empty list when there is
  none.
\<close>

theorem analyzeProductImage_searchLinks:
  assumes "response_text r = Some txt" and "txt \<noteq> []"
  shows
   "(\<not> truthy (groundingChunks r) \<and> JSON_parse txt = Inr result \<longrightarrow>
       analyzeProductImage (Inr r) JSON_parse = Inr result)
    \<and> (\<not> truthy (groundingChunks r) \<and> JSON_parse txt = Inr (JObj ob) \<and>
        ''searchLinks'' \<notin> fst ` set ob \<longrightarrow>
          (\<exists>ob'. analyzeProductImage (Inr r) JSON_parse = Inr (JObj ob') \<and>
                 ''searchLinks'' \<notin> fst ` set ob'))
    \<and> (groundingChunks r = JArr cs \<and> (\<forall>c \<in> set cs. c \<noteq> JUndefined \<and> c \<noteq> JNull) \<and>
        JSON_parse txt = Inr (JObj ob) \<longrightarrow>
          analyzeProductImage (Inr r) JSON_parse =
            Inr (JObj (assign ob ''searchLinks'' (JArr (map link_of (filter has_web_uri cs)))))
          \<and> field (assign ob ''searchLinks'' (JArr (map link_of (filter has_web_uri cs)))) ''searchLinks''
              = JArr (map link_of (filter has_web_uri cs)))"
proof (intro conjI impI)
  assume "\<not> truthy (groundingChunks r) \<and> JSON_parse txt = Inr result"
  then show "analyzeProductImage (Inr r) JSON_parse = Inr result"
    using analyzeProductImage_ungrounded [OF _ assms] by blast
next
  assume h: "\<not> truthy (groundingChunks r) \<and> JSON_parse txt = Inr (JObj ob) \<and>
        ''searchLinks'' \<notin> fst ` set ob"
  then have "analyzeProductImage (Inr r) JSON_parse = Inr (JObj ob)"
    using analyzeProductImage_ungrounded [OF _ assms] by blast
  then show "\<exists>ob'. analyzeProductImage (Inr r) JSON_parse = Inr (JObj ob') \<and>
                 ''searchLinks'' \<notin> fst ` set ob'"
    using h by blast
next
  assume "groundingChunks r = JArr cs \<and> (\<forall>c \<in> set cs. c \<noteq> JUndefined \<and> c \<noteq> JNull) \<and>
        JSON_parse txt = Inr (JObj ob)"
  then show "analyzeProductImage (Inr r) JSON_parse =
            Inr (JObj (assign ob ''searchLinks'' (JArr (map link_of (filter has_web_uri cs)))))"
    using analyzeProductImage_grounded [OF _ _ assms] by blast
next
  show "field (assign ob ''searchLinks'' (JArr (map link_of (filter has_web_uri cs)))) ''searchLinks''
              = JArr (map link_of (filter has_web_uri cs))"
    by (simp add: field_assign)
qed

theorem analyzeProductImage_searchLinks_witness:
  "analyzeProductImage (Inr ungrounded) (parse_as (JObj kettle)) = Inr (JObj kettle)
   \<and> ''searchLinks'' \<notin> fst ` set kettle
   \<and> analyzeProductImage (Inr (with_chunks (JArr three_chunks))) (parse_as (JObj kettle))
      = Inr (JObj [(''productName'', JStr ''Kettle''), (''valueScore'', JNum 45),
                   (''recommendation'', JStr ''Wait for Sale''),
                   (''searchLinks'',
                    JArr [JObj [(''title'', JStr ''A''), (''uri'', JStr ''https://a.example'')],
                          JObj [(''title'', JStr ''B''), (''uri'', JStr ''https://b.example'')]])])"
proof -
  have t1: "response_text ungrounded = Some ''{...}''" and n: "''{...}'' \<noteq> []"
    by (simp_all add: ungrounded_def)
  have t2: "response_text (with_chunks (JArr three_chunks)) = Some ''{...}''"
    by (simp add: with_chunks_def)
  have p: "parse_as (JObj kettle) ''{...}'' = Inr (JObj kettle)"
    by (simp add: parse_as_def)
  have a: "analyzeProductImage (Inr ungrounded) (parse_as (JObj kettle)) = Inr (JObj kettle)"
    using analyzeProductImage_searchLinks [OF t1 n, of "parse_as (JObj kettle)" "JObj kettle"] p
    by (simp add: groundingChunks_ungrounded)
  have b: "''searchLinks'' \<notin> fst ` set kettle"
    by (simp add: kettle_def)
  have objs: "\<forall>c \<in> set three_chunks. c \<noteq> JUndefined \<and> c \<noteq> JNull"
    by (simp add: three_chunks_def)
  have links: "assign kettle ''searchLinks'' (JArr (map link_of (filter has_web_uri three_chunks)))
      = [(''productName'', JStr ''Kettle''), (''valueScore'', JNum 45),
         (''recommendation'', JStr ''Wait for Sale''),
         (''searchLinks'',
          JArr [JObj [(''title'', JStr ''A''), (''uri'', JStr ''https://a.example'')],
                JObj [(''title'', JStr ''B''), (''uri'', JStr ''https://b.example'')]])]"
    by (simp add: kettle_def three_chunks_def has_web_uri_def link_of_def field_def)
  have c: "analyzeProductImage (Inr (with_chunks (JArr three_chunks))) (parse_as (JObj kettle))
      = Inr (JObj (assign kettle ''searchLinks'' (JArr (map link_of (filter has_web_uri three_chunks)))))"
    using analyzeProductImage_searchLinks [OF t2 n, of "parse_as (JObj kettle)" _ kettle three_chunks]
      p objs groundingChunks_with_chunks [of "JArr three_chunks"]
    by blast
  show ?thesis
    using a b c unfolding links by (intro conjI)
qed

text \<open>
  C7. \<^verbatim>\<open>generateCustomImage\<close> on a response whose first candidate has no content (a
  candidate the model ended for safety): there is no inline image data in it, and the
  function throws a \<^verbatim>\<open>TypeError\<close> instead of returning \<^verbatim>\<open>null\<close>, because
  \<^verbatim>\<open>response.candidates[0].content.parts\<close> reads \<^verbatim>\<open>parts\<close> of \<^verbatim>\<open>undefined\<close>.
\<close>

theorem generateCustomImage_blocked_candidate:
  "generateCustomImage (Inr blocked_response)
     = Inl (TypeError ''Cannot read properties of undefined (reading parts)'')"
  by (simp add: generateCustomImage_def blocked_response_def field_def)

text \<open>
  Beyond the claims: on a response without candidates \<^verbatim>\<open>generateCustomImage\<close> returns
  \<^verbatim>\<open>null\<close>; on one whose first candidate has a list of parts, all of them objects, it returns
  the data URI of the first part that carries inline image data (with \<^verbatim>\<open>image/png\<close> when the
  part names no mime type), and \<^verbatim>\<open>null\<close> when no part does.
\<close>

theorem generateCustomImage_first_image:
  "(\<not> truthy (candidates r) \<or> candidates r = JArr [] \<longrightarrow> generateCustomImage (Inr r) = Inr JNull)
   \<and> (candidates r = JArr (JObj c # cs) \<and> field c ''content'' = JObj content \<and>
       field content ''parts'' = JArr ps \<and> (\<forall>p \<in> set ps. p \<noteq> JUndefined \<and> p \<noteq> JNull) \<longrightarrow>
         generateCustomImage (Inr r) =
           Inr (case find carries_image ps of None \<Rightarrow> JNull | Some p \<Rightarrow> data_uri p))"
  using generateCustomImage_no_candidates [of r] generateCustomImage_parts [of r c cs content ps]
    first_image_find [of ps]
  by auto

theorem generateCustomImage_first_image_witness:
  "generateCustomImage (Inr image_response) = Inr (JStr ''data:image/png;base64,QUJD'')"
proof -
  let ?ps = "[JObj [(''text'', JStr ''Here it is'')],
              JObj [(''inlineData'', JObj [(''data'', JStr ''QUJD'')])],
              JObj [(''inlineData'', JObj [(''mimeType'', JStr ''image/jpeg''), (''data'', JStr ''RUZH'')])]]"
  have a: "candidates image_response = JArr (JObj [(''content'', JObj [(''parts'', JArr ?ps)])] # [])"
    by (simp add: image_response_def)
  have b: "field [(''content'', JObj [(''parts'', JArr ?ps)])] ''content'' = JObj [(''parts'', JArr ?ps)]"
    and c: "field [(''parts'', JArr ?ps)] ''parts'' = JArr ?ps"
    by (simp_all add: field_def)
  have d: "\<forall>p \<in> set ?ps. p \<noteq> JUndefined \<and> p \<noteq> JNull"
    by simp
  have f: "(case find carries_image ?ps of None \<Rightarrow> JNull | Some p \<Rightarrow> data_uri p)
      = JStr ''data:image/png;base64,QUJD''"
    by (simp add: carries_image_def data_uri_def field_def)
  show ?thesis
    using generateCustomImage_first_image
      [of image_response "[(''content'', JObj [(''parts'', JArr ?ps)])]" "[]"
          "[(''parts'', JArr ?ps)]" ?ps]
      a b c d
    unfolding f by blast
qed

text \<open>
  C8, as the claim states it, fails: \<^verbatim>\<open>analyzeProductImage\<close> returns what the text of the
  response parses to and gives it neither an id nor a time stamp.
\<close>

theorem analysis_id_and_timestamp_counterexample:
  "analyzeProductImage (Inr ungrounded) (parse_as (JObj kettle)) = Inr (JObj kettle)
   \<and> field kettle ''id'' = JUndefined \<and> field kettle ''timestamp'' = JUndefined"
proof -
  have g: "\<not> truthy (groundingChunks ungrounded)"
    by (simp add: groundingChunks_ungrounded)
  have t: "response_text ungrounded = Some ''{...}''" and n: "''{...}'' \<noteq> []"
    by (simp_all add: ungrounded_def)
  have p: "parse_as (JObj kettle) ''{...}'' = Inr (JObj kettle)"
    by (simp add: parse_as_def)
  have "analyzeProductImage (Inr ungrounded) (parse_as (JObj kettle)) = Inr (JObj kettle)"
    by (rule analyzeProductImage_ungrounded
        [where JSON_parse = "parse_as (JObj kettle)", OF g t n p])
  then show ?thesis by (simp add: kettle_def field_def)
qed

text \<open>
  C8, amended. \<^verbatim>\<open>analyzeProductImage\<close> fails with an error when the response has no text
  (undefined or empty). When it succeeds on a text that parses to an object, the id and the
  time stamp of its result are those of the parsed object (none, when the model's JSON has
  none): the function assigns neither. They are assigned when the result is saved: the entry
  \<^verbatim>\<open>saveToHistory\<close> stores carries the id of the record it is given when that is truthy and
  the new unique identifier otherwise, and its time stamp when that is truthy and the current
  time otherwise.
\<close>

theorem analysis_id_and_timestamp:
  "(response_text r = None \<or> response_text r = Some [] \<longrightarrow>
      analyzeProductImage (Inr r) JSON_parse = Inl (Error ''No response from Gemini''))
   \<and> (response_text r = Some txt \<and> JSON_parse txt = Inr (JObj ob) \<and>
       analyzeProductImage (Inr r) JSON_parse = Inr res \<longrightarrow>
         (\<exists>ob'. res = JObj ob' \<and> field ob' ''id'' = field ob ''id'' \<and>
                field ob' ''timestamp'' = field ob ''timestamp''))
   \<and> field (newEntry e result) ''id'' =
       (if truthy (field result ''id'') then field result ''id'' else JStr (randomUUID e))
   \<and> field (newEntry e result) ''timestamp'' =
       (if truthy (field result ''timestamp'') then field result ''timestamp'' else JNum (now e))
   \<and> (\<exists>st' rest. saveToHistory e result st = Inr st' \<and>
         getItem_parsed ANALYSIS_KEY st' = json_fields (newEntry e result) # rest)"
proof (intro conjI impI)
  assume "response_text r = None \<or> response_text r = Some []"
  then show "analyzeProductImage (Inr r) JSON_parse = Inl (Error ''No response from Gemini'')"
    by (rule analyzeProductImage_no_text)
next
  assume h: "response_text r = Some txt \<and> JSON_parse txt = Inr (JObj ob) \<and>
       analyzeProductImage (Inr r) JSON_parse = Inr res"
  then obtain o1 where o1: "res = JObj o1" and i: "field o1 ''id'' = field ob ''id''"
    using analyzeProductImage_keeps_fields [of r "txt" JSON_parse ob res "''id''"] by auto
  from h obtain o2 where o2: "res = JObj o2" and t: "field o2 ''timestamp'' = field ob ''timestamp''"
    using analyzeProductImage_keeps_fields [of r "txt" JSON_parse ob res "''timestamp''"] by auto
  have "o2 = o1" using o1 o2 by simp
  then show "\<exists>ob'. res = JObj ob' \<and> field ob' ''id'' = field ob ''id'' \<and>
                field ob' ''timestamp'' = field ob ''timestamp''"
    using o1 i t by blast
next
  show "field (newEntry e result) ''id'' =
       (if truthy (field result ''id'') then field result ''id'' else JStr (randomUUID e))"
    by (rule field_newEntry)
next
  show "field (newEntry e result) ''timestamp'' =
       (if truthy (field result ''timestamp'') then field result ''timestamp'' else JNum (now e))"
    by (rule field_newEntry)
next
  show "\<exists>st' rest. saveToHistory e result st = Inr st' \<and>
         getItem_parsed ANALYSIS_KEY st' = json_fields (newEntry e result) # rest"
    by (rule saveToHistory_head)
qed

theorem analysis_id_and_timestamp_witness:
  "analyzeProductImage (Inr blocked_response) (parse_as (JObj kettle))
     = Inl (Error ''No response from Gemini'')
   \<and> (\<exists>ob'. analyzeProductImage (Inr ungrounded) (parse_as (JObj kettle)) = Inr (JObj ob') \<and>
         field ob' ''id'' = JUndefined \<and> field ob' ''timestamp'' = JUndefined)
   \<and> field (newEntry env0 kettle) ''id'' = JStr ''uuid-1''
   \<and> field (newEntry env0 kettle) ''timestamp'' = JNum 1000
   \<and> field (newEntry env0 (analysis ''r01'')) ''id'' = JStr ''r01''
   \<and> (\<exists>st' rest. saveToHistory env0 kettle (fresh False None) = Inr st' \<and>
         getItem_parsed ANALYSIS_KEY st' = json_fields (newEntry env0 kettle) # rest)"
proof -
  have a: "response_text blocked_response = None \<or> response_text blocked_response = Some []"
    by (simp add: blocked_response_def)
  have k: "\<not> truthy (field kettle ''id'')" "\<not> truthy (field kettle ''timestamp'')"
    and ku: "field kettle ''id'' = JUndefined" "field kettle ''timestamp'' = JUndefined"
    by (simp_all add: kettle_def field_def)
  have r: "truthy (field (analysis ''r01'') ''id'')" "field (analysis ''r01'') ''id'' = JStr ''r01''"
    by (simp_all add: analysis_def field_def)
  have e: "randomUUID env0 = ''uuid-1''" "now env0 = 1000"
    by (simp_all add: env0_def)
  have g: "\<not> truthy (groundingChunks ungrounded)"
    by (simp add: groundingChunks_ungrounded)
  have t: "response_text ungrounded = Some ''{...}''" and n: "''{...}'' \<noteq> []"
    by (simp_all add: ungrounded_def)
  have p: "parse_as (JObj kettle) ''{...}'' = Inr (JObj kettle)"
    by (simp add: parse_as_def)
  have res: "analyzeProductImage (Inr ungrounded) (parse_as (JObj kettle)) = Inr (JObj kettle)"
    by (rule analyzeProductImage_ungrounded
        [where JSON_parse = "parse_as (JObj kettle)", OF g t n p])
  note t1 = analysis_id_and_timestamp
      [of blocked_response "parse_as (JObj kettle)" _ _ _ env0 kettle "fresh False None"]
  note t2 = analysis_id_and_timestamp
      [of blocked_response "parse_as (JObj kettle)" _ _ _ env0 "analysis ''r01''"]
  note t3 = analysis_id_and_timestamp
      [of ungrounded "parse_as (JObj kettle)" "''{...}''" kettle "JObj kettle"]
  have c1: "analyzeProductImage (Inr blocked_response) (parse_as (JObj kettle))
     = Inl (Error ''No response from Gemini'')"
    using t1 a by blast
  have c2: "\<exists>ob'. analyzeProductImage (Inr ungrounded) (parse_as (JObj kettle)) = Inr (JObj ob') \<and>
         field ob' ''id'' = JUndefined \<and> field ob' ''timestamp'' = JUndefined"
    using t3 t p res ku by auto
  have c3: "field (newEntry env0 kettle) ''id'' = JStr ''uuid-1''"
    and c4: "field (newEntry env0 kettle) ''timestamp'' = JNum 1000"
    using t1 k e by simp_all
  have c5: "field (newEntry env0 (analysis ''r01'')) ''id'' = JStr ''r01''"
    using t2 r by simp
  have c6: "\<exists>st' rest. saveToHistory env0 kettle (fresh False None) = Inr st' \<and>
         getItem_parsed ANALYSIS_KEY st' = json_fields (newEntry env0 kettle) # rest"
    using t1 by blast
  show ?thesis by (intro conjI c1 c2 c3 c4 c5 c6)
qed



text \<open>
  C10. When \<^verbatim>\<open>saveChatSession\<close> is called with a session whose id already occurs in the
  local chat list, the stored list keeps its length, the entry at the first position carrying
  that id is replaced by the session (as JSON), and every other entry is unchanged: the cap
  of five is not applied again.
\<close>

theorem saveChatSession_updates_in_place:
  assumes occurs: "\<exists>s \<in> set (getItem_parsed CHAT_KEY st).
                     strict_eq (field s ''id'') (field session ''id'')"
      and json: "\<forall>s \<in> set (getItem_parsed CHAT_KEY st). is_json (JObj s)"
  shows "\<exists>st' i. saveChatSession e session st = Inr st' \<and>
           length (getItem_parsed CHAT_KEY st') = length (getItem_parsed CHAT_KEY st) \<and>
           i < length (getItem_parsed CHAT_KEY st) \<and>
           strict_eq (field (getItem_parsed CHAT_KEY st ! i) ''id'') (field session ''id'') \<and>
           (\<forall>j < i. \<not> strict_eq (field (getItem_parsed CHAT_KEY st ! j) ''id'') (field session ''id'')) \<and>
           getItem_parsed CHAT_KEY st' ! i = json_fields session \<and>
           (\<forall>j < length (getItem_parsed CHAT_KEY st). j \<noteq> i \<longrightarrow>
              getItem_parsed CHAT_KEY st' ! j = getItem_parsed CHAT_KEY st ! j)"
proof -
  let ?cs = "getItem_parsed CHAT_KEY st"
  let ?p = "\<lambda>x. strict_eq (field x ''id'') (field session ''id'')"
  obtain i where i: "findIndex ?p ?cs = Some i"
    using findIndex_exists [of ?cs ?p] occurs by blast
  note pos = findIndex_Some [OF i]
  obtain st' where s: "saveChatSession e session st = Inr st'"
    and l: "getItem_parsed CHAT_KEY st' = map json_fields (?cs[i := session])"
    using saveChatSession_local [of e session st] i by auto
  have len: "length (getItem_parsed CHAT_KEY st') = length ?cs"
    using l by simp
  have at: "getItem_parsed CHAT_KEY st' ! i = json_fields session"
    using l pos by simp
  have other: "\<forall>j < length ?cs. j \<noteq> i \<longrightarrow> getItem_parsed CHAT_KEY st' ! j = ?cs ! j"
  proof (intro allI impI)
    fix j assume j: "j < length ?cs" and ne: "j \<noteq> i"
    have "?cs ! j \<in> set ?cs" using j by (rule nth_mem)
    then have "is_json (JObj (?cs ! j))" using json by blast
    then show "getItem_parsed CHAT_KEY st' ! j = ?cs ! j"
      using l j ne by (simp add: json_fields_fixed)
  qed
  show ?thesis
    using s len pos at other by blast
qed

theorem saveChatSession_updates_in_place_witness:
  "length (getItem_parsed CHAT_KEY six_chats) = 6 \<and>
   (\<exists>st' i. saveChatSession env0 (chat ''f'' ''7'') six_chats = Inr st' \<and>
      length (getItem_parsed CHAT_KEY st') = length (getItem_parsed CHAT_KEY six_chats) \<and>
      i < length (getItem_parsed CHAT_KEY six_chats) \<and>
      strict_eq (field (getItem_parsed CHAT_KEY six_chats ! i) ''id'')
        (field (chat ''f'' ''7'') ''id'') \<and>
      (\<forall>j < i. \<not> strict_eq (field (getItem_parsed CHAT_KEY six_chats ! j) ''id'')
         (field (chat ''f'' ''7'') ''id'')) \<and>
      getItem_parsed CHAT_KEY st' ! i = json_fields (chat ''f'' ''7'') \<and>
      (\<forall>j < length (getItem_parsed CHAT_KEY six_chats). j \<noteq> i \<longrightarrow>
         getItem_parsed CHAT_KEY st' ! j = getItem_parsed CHAT_KEY six_chats ! j))"
proof -
  have cs: "getItem_parsed CHAT_KEY six_chats =
      [chat ''a'' ''1'', chat ''b'' ''2'', chat ''c'' ''3'', chat ''d'' ''4'', chat ''e'' ''5'', chat ''f'' ''6'']"
    by (simp add: getItem_parsed_def six_chats_def)
  have occurs: "\<exists>s \<in> set (getItem_parsed CHAT_KEY six_chats).
       strict_eq (field s ''id'') (field (chat ''f'' ''7'') ''id'')"
    unfolding cs by (simp add: chat_def field_def)
  have json: "\<forall>s \<in> set (getItem_parsed CHAT_KEY six_chats). is_json (JObj s)"
    unfolding cs by (simp add: chat_def)
  have len: "length (getItem_parsed CHAT_KEY six_chats) = 6"
    unfolding cs by simp
  show ?thesis
    using len saveChatSession_updates_in_place [OF occurs json, of env0] by (rule conjI)
qed

end
